theory Spec2Isabelle
  imports Main "HOL-Library.AList" "HOL-Library.Multiset" "HOL-Library.Word"
begin

unbundle bit_operations_syntax

section \<open>Python strings and the regular expressions of the monitor\<close>

text \<open>
  A Python \<open>str\<close> is a sequence of Unicode code points: \<open>ustr\<close>. The Japanese literals of
  \<open>monitor_agencies.py\<close> are written by their code points, each constant named after the
  reading of the word it holds.
\<close>

type_synonym ustr = "nat list"

definition asc :: "string \<Rightarrow> ustr" where
  "asc s = map of_char s"

text \<open>\<open>sub in s\<close> on strings.\<close>

fun str_in :: "ustr \<Rightarrow> ustr \<Rightarrow> bool" where
  "str_in sub [] = (sub = [])"
| "str_in sub (x # xs) = (take (length sub) (x # xs) = sub \<or> str_in sub xs)"

text \<open>
  \<open>s.replace(old, new)\<close>: the occurrences of \<open>old\<close> are found from the left and do not
  overlap; the counter holds how many characters of the occurrence just replaced are still to
  be skipped. With an empty \<open>old\<close> Python puts \<open>new\<close> before every character and at the end.
\<close>

fun replace_go :: "ustr \<Rightarrow> ustr \<Rightarrow> nat \<Rightarrow> ustr \<Rightarrow> ustr" where
  "replace_go old new k [] = []"
| "replace_go old new (Suc k) (x # xs) = replace_go old new k xs"
| "replace_go old new 0 (x # xs) =
     (if take (length old) (x # xs) = old
      then new @ replace_go old new (length old - 1) xs
      else x # replace_go old new 0 xs)"

definition py_replace :: "ustr \<Rightarrow> ustr \<Rightarrow> ustr \<Rightarrow> ustr" where
  "py_replace old new s =
     (if old = [] then new @ concat (map (\<lambda>c. c # new) s) else replace_go old new 0 s)"

subsection \<open>Character classes\<close>

text \<open>
  The classes \<open>\s\<close> and \<open>\d\<close> of Python 3 on \<open>str\<close> patterns are the Unicode ones:
  white space and the decimal digits (category Nd), whose blocks all hold ten digits but for
  the mathematical digits \<open>U+1D7CE..U+1D7FF\<close>.
\<close>

definition is_space :: "nat \<Rightarrow> bool" where
  "is_space c = ((0x09 \<le> c \<and> c \<le> 0x0D) \<or> (0x1C \<le> c \<and> c \<le> 0x20) \<or> c = 0x85 \<or> c = 0xA0
     \<or> c = 0x1680 \<or> (0x2000 \<le> c \<and> c \<le> 0x200A) \<or> c = 0x2028 \<or> c = 0x2029
     \<or> c = 0x202F \<or> c = 0x205F \<or> c = 0x3000)"

definition digit_blocks :: "nat list" where
  "digit_blocks =
     [0x30, 0x660, 0x6F0, 0x7C0, 0x966, 0x9E6, 0xA66, 0xAE6, 0xB66, 0xBE6, 0xC66, 0xCE6, 0xD66,
      0xDE6, 0xE50, 0xED0, 0xF20, 0x1040, 0x1090, 0x17E0, 0x1810, 0x1946, 0x19D0, 0x1A80,
      0x1A90, 0x1B50, 0x1BB0, 0x1C40, 0x1C50, 0xA620, 0xA8D0, 0xA900, 0xA9D0, 0xA9F0, 0xAA50,
      0xABF0, 0xFF10, 0x104A0, 0x10D30, 0x11066, 0x110F0, 0x11136, 0x111D0, 0x112F0, 0x11450,
      0x114D0, 0x11650, 0x116C0, 0x11730, 0x118E0, 0x11950, 0x11C50, 0x11D50, 0x11DA0,
      0x16A60, 0x16AC0, 0x16B50, 0x1E140, 0x1E2F0, 0x1E950, 0x1FBF0]"

definition is_digit :: "nat \<Rightarrow> bool" where
  "is_digit c = (list_ex (\<lambda>b. b \<le> c \<and> c \<le> b + 9) digit_blocks \<or> (0x1D7CE \<le> c \<and> c \<le> 0x1D7FF))"

definition in_range :: "nat \<Rightarrow> nat \<Rightarrow> nat \<Rightarrow> bool" where
  "in_range lo hi c = (lo \<le> c \<and> c \<le> hi)"

subsection \<open>A backtracking matcher\<close>

text \<open>
  The patterns of the source use literals, character classes, concatenation, alternation,
  optional groups, repetition of one character class (greedy or lazy, with bounds), named
  groups and the end anchor. A match state is the text before the position (reversed), the
  text from the position on and the groups bound so far. \<open>rmatch\<close> returns the states after
  every way the pattern matches at the position, in the order in which Python's \<open>re\<close> tries
  them: its first element is the match \<open>re\<close> reports.
\<close>

type_synonym mstate = "ustr \<times> ustr \<times> (string \<times> ustr) list"

datatype rx =
    Lit ustr
  | Cls "nat \<Rightarrow> bool"
  | Cat "rx list"
  | Alts "rx list"
  | Opt rx
  | Rep bool nat "nat option" "nat \<Rightarrow> bool"
  | Grp string rx
  | Eos

definition rep_counts :: "bool \<Rightarrow> nat \<Rightarrow> nat option \<Rightarrow> nat \<Rightarrow> nat list" where
  "rep_counts greedy lo hi run =
     (let top = (case hi of None \<Rightarrow> run | Some h \<Rightarrow> min h run);
          ks = [lo ..< Suc top]
      in if greedy then rev ks else ks)"

primrec rmatch :: "rx \<Rightarrow> mstate \<Rightarrow> mstate list" where
  "rmatch (Lit l) st =
     (case st of (b, r, c) \<Rightarrow>
        if take (length l) r = l then [(rev l @ b, drop (length l) r, c)] else [])"
| "rmatch (Cls p) st =
     (case st of (b, r, c) \<Rightarrow>
        (case r of [] \<Rightarrow> [] | x # xs \<Rightarrow> if p x then [(x # b, xs, c)] else []))"
| "rmatch (Cat rs) st = foldl (\<lambda>sts m. concat (map m sts)) [st] (map rmatch rs)"
| "rmatch (Alts rs) st = concat (map (\<lambda>m. m st) (map rmatch rs))"
| "rmatch (Opt a) st = rmatch a st @ [st]"
| "rmatch (Rep greedy lo hi p) st =
     (case st of (b, r, c) \<Rightarrow>
        map (\<lambda>k. (rev (take k r) @ b, drop k r, c))
            (rep_counts greedy lo hi (length (takeWhile p r))))"
| "rmatch (Grp g a) st =
     (case st of (b, r, c) \<Rightarrow>
        map (\<lambda>(b', r', c'). (b', r', (g, take (length r - length r') r) # c')) (rmatch a st))"
| "rmatch Eos st =
     (case st of (b, r, c) \<Rightarrow> if r = [] \<or> r = [0x0A] then [st] else [])"

text \<open>
  \<open>rx.search(s)\<close>: the first position, from the left, at which the pattern matches; the
  result is the state at the start of the match and the state after it.
\<close>

fun search_from :: "rx \<Rightarrow> ustr \<Rightarrow> ustr \<Rightarrow> (mstate \<times> mstate) option" where
  "search_from r b [] =
     (case rmatch r (b, [], []) of [] \<Rightarrow> None | e # _ \<Rightarrow> Some ((b, [], []), e))"
| "search_from r b (x # xs) =
     (case rmatch r (b, x # xs, []) of
        [] \<Rightarrow> search_from r (x # b) xs
      | e # _ \<Rightarrow> Some ((b, x # xs, []), e))"

definition re_search :: "rx \<Rightarrow> ustr \<Rightarrow> bool" where
  "re_search r s = (search_from r [] s \<noteq> None)"

text \<open>
  \<open>re.sub(pattern, "", s)\<close>: every match, found from the left and not overlapping the one
  before, is deleted. The counter holds how many characters of the match just deleted are
  still to be skipped; an empty match deletes nothing.
\<close>

fun sub_go :: "rx \<Rightarrow> nat \<Rightarrow> ustr \<Rightarrow> ustr \<Rightarrow> ustr" where
  "sub_go r k b [] = []"
| "sub_go r (Suc k) b (x # xs) = sub_go r k (x # b) xs"
| "sub_go r 0 b (x # xs) =
     (case rmatch r (b, x # xs, []) of
        [] \<Rightarrow> x # sub_go r 0 (x # b) xs
      | (b', r', c') # _ \<Rightarrow>
          (if length r' < length (x # xs)
           then sub_go r (length (x # xs) - length r' - 1) (x # b) xs
           else x # sub_go r 0 (x # b) xs))"

definition re_sub_del :: "rx \<Rightarrow> ustr \<Rightarrow> ustr" where
  "re_sub_del r s = sub_go r 0 [] s"

section \<open>Name normalisation: \<open>norm_rindo_name\<close>\<close>

definition s_rindo :: ustr where
  "s_rindo = [0x6797, 0x9053]"

definition s_shinrin_kanrido :: ustr where
  "s_shinrin_kanrido = [0x68EE, 0x6797, 0x7BA1, 0x7406, 0x9053]"

definition s_sen :: ustr where
  "s_sen = [0x7DDA]"

definition s_sen_kana :: ustr where
  "s_sen_kana = [0x305B, 0x3093]"

definition s_dou :: ustr where
  "s_dou = [0x9053]"

text \<open>The class of blanks (\<open>\s\<close> and the ideographic space), the pattern of the trailing suffix
  \<open>(sen|sen in kana|dou)$\<close> and the class of brackets, middle dots and dashes.\<close>

definition RX_BLANK :: rx where
  "RX_BLANK = Cls (\<lambda>c. c = 0x3000 \<or> is_space c)"

definition RX_TAIL :: rx where
  "RX_TAIL = Cat [Grp ''1'' (Alts [Lit s_sen, Lit s_sen_kana, Lit s_dou]), Eos]"

definition is_name_punct :: "nat \<Rightarrow> bool" where
  "is_name_punct c = (c \<in> set [0xFF08, 0xFF09, 0x28, 0x29, 0x30FB, 0xFF65, 0x2010, 0x2D, 0x2014, 0x2015, 0xFF70])"

definition RX_PUNCT :: rx where
  "RX_PUNCT = Cls is_name_punct"

definition norm_rindo_name :: "ustr \<Rightarrow> ustr" where
  "norm_rindo_name s =
     (if s = [] then []
      else let t = re_sub_del RX_BLANK s;
               t = py_replace s_shinrin_kanrido [] (py_replace s_rindo [] t);
               t = re_sub_del RX_TAIL t
           in re_sub_del RX_PUNCT t)"

section \<open>Status classification\<close>

definition s_tsukodome :: ustr where
  "s_tsukodome = [0x901A, 0x884C, 0x6B62]"

definition s_zenmen :: ustr where
  "s_zenmen = [0x5168, 0x9762]"

definition s_zensen :: ustr where
  "s_zensen = [0x5168, 0x7DDA]"

definition s_me :: ustr where
  "s_me = [0x3081]"

definition s_kisei :: ustr where
  "s_kisei = [0x898F, 0x5236]"

definition s_tsuko_kisei :: ustr where
  "s_tsuko_kisei = [0x901A, 0x884C, 0x898F, 0x5236]"

definition s_katagawa_kogo :: ustr where
  "s_katagawa_kogo = [0x7247, 0x5074, 0x4EA4, 0x4E92]"

definition s_ogatasha_tsukodome :: ustr where
  "s_ogatasha_tsukodome = [0x5927, 0x578B, 0x8ECA, 0x901A, 0x884C, 0x6B62]"

definition s_kaijo :: ustr where
  "s_kaijo = [0x89E3, 0x9664]"

definition s_tsukoka :: ustr where
  "s_tsukoka = [0x901A, 0x884C, 0x53EF]"

definition s_tsukokano :: ustr where
  "s_tsukokano = [0x901A, 0x884C, 0x53EF, 0x80FD]"

text \<open>
  \<open>P_STATUS\<close>: closure, then restriction, then lifting; \<open>pick_status\<close> returns the label of
  the first pattern that is found in the text, or \<open>None\<close>.
\<close>

definition P_STATUS :: "(rx \<times> ustr) list" where
  "P_STATUS =
     [(Cat [Opt (Grp ''1'' (Alts [Lit s_zenmen, Lit s_zensen])), Lit s_tsukodome, Opt (Grp ''2'' (Lit s_me))],
       s_tsukodome),
      (Grp ''1'' (Alts [Lit s_tsuko_kisei, Lit s_kisei, Lit s_katagawa_kogo, Lit s_ogatasha_tsukodome]),
       s_kisei),
      (Grp ''1'' (Alts [Lit s_kaijo, Lit s_tsukoka, Lit s_tsukokano]),
       s_kaijo)]"

fun first_label :: "(rx \<times> ustr) list \<Rightarrow> ustr \<Rightarrow> ustr option" where
  "first_label [] text = None"
| "first_label ((r, lab) # ps) text = (if re_search r text then Some lab else first_label ps text)"

definition pick_status :: "ustr \<Rightarrow> ustr option" where
  "pick_status text = first_label P_STATUS text"

text \<open>The classifier of the Yamanashi adapter, \<open>_yn_pick_status\<close>, and its four patterns.\<close>

definition s_kisei_wa_arimasen :: ustr where
  "s_kisei_wa_arimasen = [0x898F, 0x5236, 0x306F, 0x3042, 0x308A, 0x307E, 0x305B, 0x3093]"

definition s_kisei_nashi :: ustr where
  "s_kisei_nashi = [0x898F, 0x5236, 0x306A, 0x3057]"

definition s_zenmen_tsukodome :: ustr where
  "s_zenmen_tsukodome = [0x5168, 0x9762, 0x901A, 0x884C, 0x6B62]"

definition s_katagawa :: ustr where
  "s_katagawa = [0x7247, 0x5074]"

definition s_kogo :: ustr where
  "s_kogo = [0x4EA4, 0x4E92]"

definition s_ukai :: ustr where
  "s_ukai = [0x8FC2, 0x56DE]"

definition s_ukai_kana :: ustr where
  "s_ukai_kana = [0x3046, 0x56DE]"

definition s_chain :: ustr where
  "s_chain = [0x30C1, 0x30A7, 0x30FC, 0x30F3]"

definition s_kaiho :: ustr where
  "s_kaiho = [0x958B, 0x653E]"

definition YMN_NUM_PAT :: rx where
  "YMN_NUM_PAT =
     Alts [Cat [Rep True 1 None is_digit,
                Opt (Cat [Lit (asc ''.''), Rep True 1 None is_digit]),
                Alts [Cat [Lit (asc ''km''), Opt (Lit (asc ''/'')), Lit (asc ''h'')],
                      Lit (asc ''kmh''), Lit (asc ''km''), Lit (asc ''m''), Lit (asc ''t''),
                      Lit [0xFF54], Lit [0xFF05], Lit (asc ''%'')]],
           Cat [Rep True 1 None (in_range 0xFF10 0xFF19),
                Alts [Lit [0xFF4B, 0xFF4D, 0x2F, 0xFF48], Lit [0xFF4B, 0xFF4D], Lit [0xFF4D],
                      Lit [0xFF54]]]]"

definition YMN_CLOSED_PAT :: rx where
  "YMN_CLOSED_PAT = Grp ''1'' (Alts [Lit s_tsukodome, Lit s_zenmen_tsukodome])"

definition YMN_OPEN_PAT :: rx where
  "YMN_OPEN_PAT = Grp ''1'' (Alts [Lit s_kisei_wa_arimasen, Lit s_kisei_nashi])"

definition YMN_REG_PAT :: rx where
  "YMN_REG_PAT =
     Grp ''1'' (Alts [Lit s_kisei, Lit s_katagawa, Lit s_kogo, Lit s_ukai, Lit s_ukai_kana,
                      Lit s_chain, Lit (s_chain @ s_kisei)])"

definition yn_pick_status :: "ustr \<Rightarrow> ustr \<times> ustr" where
  "yn_pick_status page_text =
     (let t = page_text in
      if re_search YMN_CLOSED_PAT t then (asc ''closed'', s_tsukodome)
      else if re_search YMN_OPEN_PAT t then (asc ''open'', s_kisei_wa_arimasen)
      else if re_search YMN_REG_PAT t \<or> re_search YMN_NUM_PAT t then (asc ''regulated'', s_kisei)
      else (asc ''open'', s_kaiho))"

section \<open>Canonical source URLs\<close>

text \<open>
  \<open>canonical_url\<close> is four calls into \<open>urllib.parse\<close>. The functions it calls are
  modelled as CPython 3.11 defines them. Three things can stop them: a \<open>ValueError\<close> of
  \<open>urlsplit\<close>, a \<open>UnicodeEncodeError\<close> of \<open>urlencode\<close> on a lone surrogate, and an
  \<open>AttributeError\<close> when the argument is \<open>None\<close>. A host in square brackets is checked by
  the \<open>ipaddress\<close> module, which is not modelled: such a URL is answered with
  \<open>OutsideModel\<close>, and so is a code point beyond \<open>U+10FFFF\<close>, which no Python string holds.
\<close>

datatype py_error = ValueError | UnicodeEncodeError | AttributeError | OutsideModel

record split_result =
  scheme :: ustr
  netloc :: ustr
  path :: ustr
  query :: ustr

definition is_alpha :: "nat \<Rightarrow> bool" where
  "is_alpha c = ((0x41 \<le> c \<and> c \<le> 0x5A) \<or> (0x61 \<le> c \<and> c \<le> 0x7A))"

definition is_ascii_digit :: "nat \<Rightarrow> bool" where
  "is_ascii_digit c = (0x30 \<le> c \<and> c \<le> 0x39)"

definition is_scheme_char :: "nat \<Rightarrow> bool" where
  "is_scheme_char c = (is_alpha c \<or> is_ascii_digit c \<or> c = 0x2B \<or> c = 0x2D \<or> c = 0x2E)"

definition lower_ascii :: "nat \<Rightarrow> nat" where
  "lower_ascii c = (if 0x41 \<le> c \<and> c \<le> 0x5A then c + 32 else c)"

text \<open>The end of the network location: the first of \<open>/\<close>, \<open>?\<close> and \<open>#\<close>.\<close>

definition in_netloc :: "nat \<Rightarrow> bool" where
  "in_netloc c = (c \<noteq> 0x2F \<and> c \<noteq> 0x3F \<and> c \<noteq> 0x23)"

text \<open>
  \<open>_checknetloc\<close> refuses a network location whose NFKC form holds one of \<open>/?#@:\<close> that the
  location itself does not hold. These are the code points whose NFKC form holds one of the
  five characters.
\<close>

definition nfkc_delims :: "nat list" where
  "nfkc_delims =
     [0x2047, 0x2048, 0x2049, 0x2100, 0x2101, 0x2105, 0x2106, 0x2A74, 0xFE13, 0xFE16, 0xFE55,
      0xFE56, 0xFE5F, 0xFE6B, 0xFF03, 0xFF0F, 0xFF1A, 0xFF1F, 0xFF20]"

text \<open>
  \<open>urlsplit\<close>, on a URL that has no fragment: leading control characters and spaces are
  stripped, tabs and line ends are removed, the scheme is the text before the first colon
  when it is a letter followed by scheme characters, the network location follows \<open>//\<close>,
  and the query follows the first \<open>?\<close>.
\<close>

definition urlsplit :: "ustr \<Rightarrow> py_error + split_result" where
  "urlsplit u =
     (let url = filter (\<lambda>c. c \<noteq> 0x09 \<and> c \<noteq> 0x0A \<and> c \<noteq> 0x0D) (dropWhile (\<lambda>c. c \<le> 0x20) u);
          pre = takeWhile (\<lambda>c. c \<noteq> 0x3A) url;
          has_scheme = (0x3A \<in> set url \<and> pre \<noteq> [] \<and> is_alpha (hd pre) \<and> list_all is_scheme_char pre);
          sch = (if has_scheme then map lower_ascii pre else []);
          url = (if has_scheme then drop (length pre + 1) url else url);
          has_netloc = (take 2 url = [0x2F, 0x2F]);
          loc = (if has_netloc then takeWhile in_netloc (drop 2 url) else []);
          url = (if has_netloc then dropWhile in_netloc (drop 2 url) else url)
      in if (0x5B \<in> set loc) \<noteq> (0x5D \<in> set loc) then Inl ValueError
         else if 0x5B \<in> set loc then Inl OutsideModel
         else if list_ex (\<lambda>c. c \<in> set nfkc_delims) loc then Inl ValueError
         else Inr \<lparr>scheme = sch, netloc = loc,
                    path = takeWhile (\<lambda>c. c \<noteq> 0x3F) url,
                    query = drop (length (takeWhile (\<lambda>c. c \<noteq> 0x3F) url) + 1) url\<rparr>)"

subsection \<open>Percent-decoding: \<open>parse_qsl\<close>\<close>

definition is_hex :: "nat \<Rightarrow> bool" where
  "is_hex c = (is_ascii_digit c \<or> (0x41 \<le> c \<and> c \<le> 0x46) \<or> (0x61 \<le> c \<and> c \<le> 0x66))"

definition hexval :: "nat \<Rightarrow> nat" where
  "hexval c = (if is_ascii_digit c then c - 0x30 else if c \<le> 0x46 then c - 0x37 else c - 0x57)"

text \<open>\<open>unquote_to_bytes\<close> on ASCII text: \<open>%XX\<close> is a byte, any other \<open>%\<close> stays.\<close>

fun pct_decode :: "ustr \<Rightarrow> nat list" where
  "pct_decode [] = []"
| "pct_decode [c] = [c]"
| "pct_decode [c, d] = [c, d]"
| "pct_decode (c # h1 # h2 # cs) =
     (if c = 0x25 \<and> is_hex h1 \<and> is_hex h2
      then (16 * hexval h1 + hexval h2) # pct_decode cs
      else c # pct_decode (h1 # h2 # cs))"

definition is_cont :: "nat \<Rightarrow> bool" where
  "is_cont b = (0x80 \<le> b \<and> b \<le> 0xBF)"

text \<open>
  \<open>bytes.decode('utf-8', 'replace')\<close>: an invalid start byte, and a sequence cut short by an
  invalid continuation byte, are replaced by \<open>U+FFFD\<close> and decoding goes on at the byte
  that stopped the sequence; a sequence cut short by the end of the data is replaced by one
  \<open>U+FFFD\<close>.
\<close>

fun utf8_decode :: "nat list \<Rightarrow> ustr" where
  "utf8_decode [] = []"
| "utf8_decode (b0 # r0) =
     (if b0 < 0x80 then b0 # utf8_decode r0
      else if b0 < 0xC2 then 0xFFFD # utf8_decode r0
      else if b0 < 0xE0 then
        (case r0 of
           [] \<Rightarrow> [0xFFFD]
         | b1 # r1 \<Rightarrow>
             if is_cont b1 then ((b0 - 0xC0) * 64 + (b1 - 0x80)) # utf8_decode r1
             else 0xFFFD # utf8_decode r0)
      else if b0 < 0xF0 then
        (case r0 of
           [] \<Rightarrow> [0xFFFD]
         | b1 # r1 \<Rightarrow>
             if \<not> is_cont b1 \<or> (if b1 < 0xA0 then b0 = 0xE0 else b0 = 0xED)
             then 0xFFFD # utf8_decode r0
             else (case r1 of
                     [] \<Rightarrow> [0xFFFD]
                   | b2 # r2 \<Rightarrow>
                       if is_cont b2
                       then ((b0 - 0xE0) * 4096 + (b1 - 0x80) * 64 + (b2 - 0x80)) # utf8_decode r2
                       else 0xFFFD # utf8_decode r1))
      else if b0 < 0xF5 then
        (case r0 of
           [] \<Rightarrow> [0xFFFD]
         | b1 # r1 \<Rightarrow>
             if \<not> is_cont b1 \<or> (if b1 < 0x90 then b0 = 0xF0 else b0 = 0xF4)
             then 0xFFFD # utf8_decode r0
             else (case r1 of
                     [] \<Rightarrow> [0xFFFD]
                   | b2 # r2 \<Rightarrow>
                       if \<not> is_cont b2 then 0xFFFD # utf8_decode r1
                       else (case r2 of
                               [] \<Rightarrow> [0xFFFD]
                             | b3 # r3 \<Rightarrow>
                                 if is_cont b3
                                 then ((b0 - 0xF0) * 262144 + (b1 - 0x80) * 4096
                                       + (b2 - 0x80) * 64 + (b3 - 0x80)) # utf8_decode r3
                                 else 0xFFFD # utf8_decode r2)))
      else 0xFFFD # utf8_decode r0)"

text \<open>
  \<open>unquote\<close>: every maximal run of ASCII characters is percent-decoded and read as UTF-8;
  the characters outside ASCII stay. The first argument is the run read so far, reversed.
\<close>

fun unquote_go :: "ustr \<Rightarrow> ustr \<Rightarrow> ustr" where
  "unquote_go run [] = utf8_decode (pct_decode (rev run))"
| "unquote_go run (c # cs) =
     (if c < 0x80 then unquote_go (c # run) cs
      else utf8_decode (pct_decode (rev run)) @ c # unquote_go [] cs)"

definition unquote_plus :: "ustr \<Rightarrow> ustr" where
  "unquote_plus s = unquote_go [] (map (\<lambda>c. if c = 0x2B then 0x20 else c) s)"

text \<open>\<open>s.split(d)\<close>.\<close>

fun split_on :: "nat \<Rightarrow> ustr \<Rightarrow> ustr list" where
  "split_on d [] = [[]]"
| "split_on d (c # cs) =
     (if c = d then [] # split_on d cs
      else (case split_on d cs of [] \<Rightarrow> [[c]] | p # ps \<Rightarrow> (c # p) # ps))"

text \<open>
  \<open>parse_qsl(qs, keep_blank_values=True)\<close>: the fields are separated by \<open>&\<close>, an empty
  field is skipped, and a field without \<open>=\<close> has the empty value.
\<close>

definition parse_field :: "ustr \<Rightarrow> ustr \<times> ustr" where
  "parse_field nv =
     (unquote_plus (takeWhile (\<lambda>c. c \<noteq> 0x3D) nv),
      unquote_plus (drop (length (takeWhile (\<lambda>c. c \<noteq> 0x3D) nv) + 1) nv))"

definition parse_qsl :: "ustr \<Rightarrow> (ustr \<times> ustr) list" where
  "parse_qsl qs = map parse_field (filter (\<lambda>nv. nv \<noteq> []) (split_on 0x26 qs))"

subsection \<open>Percent-encoding: \<open>urlencode\<close>\<close>

definition utf8_encode_char :: "nat \<Rightarrow> py_error + nat list" where
  "utf8_encode_char c =
     (if c < 0x80 then Inr [c]
      else if c < 0x800 then Inr [0xC0 + c div 64, 0x80 + c mod 64]
      else if c < 0x10000 then
        (if 0xD800 \<le> c \<and> c \<le> 0xDFFF then Inl UnicodeEncodeError
         else Inr [0xE0 + c div 4096, 0x80 + (c div 64) mod 64, 0x80 + c mod 64])
      else if c < 0x110000 then
        Inr [0xF0 + c div 262144, 0x80 + (c div 4096) mod 64, 0x80 + (c div 64) mod 64, 0x80 + c mod 64]
      else Inl OutsideModel)"

definition hex_digit :: "nat \<Rightarrow> nat" where
  "hex_digit d = (if d < 10 then 0x30 + d else 0x37 + d)"

definition is_unreserved :: "nat \<Rightarrow> bool" where
  "is_unreserved b = (is_alpha b \<or> is_ascii_digit b \<or> b = 0x5F \<or> b = 0x2E \<or> b = 0x2D \<or> b = 0x7E)"

text \<open>\<open>quote_plus\<close> on one byte: kept, or \<open>+\<close> for the space, or \<open>%XX\<close>.\<close>

definition quote_byte :: "nat \<Rightarrow> ustr" where
  "quote_byte b =
     (if is_unreserved b then [b]
      else if b = 0x20 then [0x2B]
      else [0x25, hex_digit (b div 16), hex_digit (b mod 16)])"

fun quote_plus :: "ustr \<Rightarrow> py_error + ustr" where
  "quote_plus [] = Inr []"
| "quote_plus (c # cs) =
     (case utf8_encode_char c of
        Inl e \<Rightarrow> Inl e
      | Inr bs \<Rightarrow>
          (case quote_plus cs of
             Inl e \<Rightarrow> Inl e
           | Inr r \<Rightarrow> Inr (concat (map quote_byte bs) @ r)))"

fun urlencode_fields :: "(ustr \<times> ustr) list \<Rightarrow> py_error + ustr list" where
  "urlencode_fields [] = Inr []"
| "urlencode_fields ((k, v) # q) =
     (case quote_plus k of
        Inl e \<Rightarrow> Inl e
      | Inr k' \<Rightarrow>
          (case quote_plus v of
             Inl e \<Rightarrow> Inl e
           | Inr v' \<Rightarrow>
               (case urlencode_fields q of
                  Inl e \<Rightarrow> Inl e
                | Inr fs \<Rightarrow> Inr ((k' @ 0x3D # v') # fs))))"

text \<open>\<open>'&'.join(fields)\<close>.\<close>

fun join_amp :: "ustr list \<Rightarrow> ustr" where
  "join_amp [] = []"
| "join_amp [f] = f"
| "join_amp (f # g # fs) = f @ 0x26 # join_amp (g # fs)"

definition urlencode :: "(ustr \<times> ustr) list \<Rightarrow> py_error + ustr" where
  "urlencode q = (case urlencode_fields q of Inl e \<Rightarrow> Inl e | Inr fs \<Rightarrow> Inr (join_amp fs))"

subsection \<open>\<open>urlunsplit\<close> and \<open>canonical_url\<close>\<close>

definition uses_netloc :: "ustr list" where
  "uses_netloc =
     map asc [''ftp'', ''http'', ''gopher'', ''nntp'', ''telnet'', ''imap'', ''wais'', ''file'',
              ''mms'', ''https'', ''shttp'', ''snews'', ''prospero'', ''rtsp'', ''rtsps'',
              ''rtspu'', ''rsync'', ''svn'', ''svn+ssh'', ''sftp'', ''nfs'', ''git'', ''git+ssh'',
              ''ws'', ''wss'']"

text \<open>\<open>urlunsplit((scheme, netloc, path, query, ""))\<close>.\<close>

definition urlunsplit :: "ustr \<Rightarrow> ustr \<Rightarrow> ustr \<Rightarrow> ustr \<Rightarrow> ustr" where
  "urlunsplit sch loc pth qry =
     (let url = (if loc \<noteq> [] \<or> (sch \<noteq> [] \<and> sch \<in> set uses_netloc) \<or> take 2 pth = [0x2F, 0x2F]
                 then [0x2F, 0x2F] @ loc @ (if pth \<noteq> [] \<and> take 1 pth \<noteq> [0x2F] then 0x2F # pth else pth)
                 else pth);
          url = (if sch \<noteq> [] then sch @ 0x3A # url else url)
      in if qry \<noteq> [] then url @ 0x3F # qry else url)"

text \<open>
  \<open>canonical_url\<close>: the fragment is cut off, the \<open>area_id\<close> fields of the query are
  dropped and the URL is put together again.
\<close>

definition canonical_url :: "ustr \<Rightarrow> py_error + ustr" where
  "canonical_url url =
     (let u = takeWhile (\<lambda>c. c \<noteq> 0x23) url in
      case urlsplit u of
        Inl e \<Rightarrow> Inl e
      | Inr sp \<Rightarrow>
          (let q = filter (\<lambda>(k, v). k \<noteq> asc ''area_id'') (parse_qsl (query sp)) in
           case urlencode q of
             Inl e \<Rightarrow> Inl e
           | Inr qs \<Rightarrow> Inr (urlunsplit (scheme sp) (netloc sp) (path sp) qs)))"

section \<open>Event identity: \<open>make_event_id\<close>\<close>

text \<open>\<open>s.encode("utf-8")\<close>, which raises on a lone surrogate.\<close>

fun utf8_encode :: "ustr \<Rightarrow> py_error + nat list" where
  "utf8_encode [] = Inr []"
| "utf8_encode (c # cs) =
     (case utf8_encode_char c of
        Inl e \<Rightarrow> Inl e
      | Inr bs \<Rightarrow> (case utf8_encode cs of Inl e \<Rightarrow> Inl e | Inr r \<Rightarrow> Inr (bs @ r)))"

text \<open>
  SHA-1 (FIPS 180-4) on a list of bytes: the message is padded with the byte \<open>0x80\<close>, with
  zeros up to 56 modulo 64 and with its length in bits on eight bytes; every block of 64
  bytes is sixteen big-endian words, expanded to eighty, and run through eighty rounds.
\<close>

type_synonym w32 = "32 word"

definition sha1_pad :: "nat list \<Rightarrow> nat list" where
  "sha1_pad m =
     m @ 0x80 # replicate ((119 - length m mod 64) mod 64) 0
       @ map (\<lambda>i. (8 * length m) div 256 ^ (7 - i) mod 256) [0 ..< 8]"

fun chunks :: "nat \<Rightarrow> 'a list \<Rightarrow> 'a list list" where
  "chunks n [] = []"
| "chunks n (x # xs) = (if n = 0 then [] else take n (x # xs) # chunks n (drop n (x # xs)))"

definition be_word :: "nat list \<Rightarrow> w32" where
  "be_word bs = of_nat (foldl (\<lambda>a b. a * 256 + b) 0 bs)"

fun sha1_expand :: "nat \<Rightarrow> w32 list \<Rightarrow> w32 list" where
  "sha1_expand 0 ws = ws"
| "sha1_expand (Suc n) ws =
     (let k = length ws
      in sha1_expand n
           (ws @ [word_rotl 1 (ws ! (k - 3) XOR ws ! (k - 8) XOR ws ! (k - 14) XOR ws ! (k - 16))]))"

type_synonym sha1_state = "w32 \<times> w32 \<times> w32 \<times> w32 \<times> w32"

definition sha1_round :: "sha1_state \<Rightarrow> nat \<times> w32 \<Rightarrow> sha1_state" where
  "sha1_round st tw =
     (case st of (a, b, c, d, e) \<Rightarrow>
      case tw of (t, w) \<Rightarrow>
        let f = (if t < 20 then (b AND c) OR (NOT b AND d)
                 else if t < 40 then b XOR c XOR d
                 else if t < 60 then (b AND c) OR (b AND d) OR (c AND d)
                 else b XOR c XOR d);
            k = (if t < 20 then 0x5A827999 else if t < 40 then 0x6ED9EBA1
                 else if t < 60 then 0x8F1BBCDC else 0xCA62C1D6)
        in (word_rotl 5 a + f + e + k + w, a, word_rotl 30 b, c, d))"

definition sha1_block :: "sha1_state \<Rightarrow> nat list \<Rightarrow> sha1_state" where
  "sha1_block h blk =
     (let ws = sha1_expand 64 (map be_word (chunks 4 blk))
      in case foldl sha1_round h (zip [0 ..< 80] ws) of (a, b, c, d, e) \<Rightarrow>
         case h of (h0, h1, h2, h3, h4) \<Rightarrow> (h0 + a, h1 + b, h2 + c, h3 + d, h4 + e))"

definition sha1 :: "nat list \<Rightarrow> sha1_state" where
  "sha1 m = foldl sha1_block (0x67452301, 0xEFCDAB89, 0x98BADCFE, 0x10325476, 0xC3D2E1F0)
                  (chunks 64 (sha1_pad m))"

definition hex_lower :: "nat \<Rightarrow> nat" where
  "hex_lower d = (if d < 10 then 0x30 + d else 0x57 + d)"

definition word_hex :: "w32 \<Rightarrow> ustr" where
  "word_hex w = map (\<lambda>i. hex_lower (unat w div 16 ^ (7 - i) mod 16)) [0 ..< 8]"

text \<open>\<open>hexdigest()[:16]\<close>: the first two of the five words.\<close>

definition sha1_hex16 :: "nat list \<Rightarrow> ustr" where
  "sha1_hex16 m = (case sha1 m of (h0, h1, h2, h3, h4) \<Rightarrow> word_hex h0 @ word_hex h1)"

definition make_event_id :: "ustr \<Rightarrow> ustr \<Rightarrow> ustr \<Rightarrow> py_error + ustr" where
  "make_event_id pref norm_name source_url =
     (case utf8_encode (pref @ 0x7C # norm_name @ 0x7C # source_url) of
        Inl e \<Rightarrow> Inl e
      | Inr bs \<Rightarrow> Inr (sha1_hex16 bs))"

section \<open>The event store and \<open>merge_events\<close>\<close>

text \<open>
  The values an event field holds are \<open>None\<close> and strings. An event is a Python \<open>dict\<close>:
  an association list, in insertion order, with \<open>dict.get\<close> and \<open>dict.update\<close>.
\<close>

datatype pyval = PNone | PStr ustr

type_synonym pydict = "(string \<times> pyval) list"

definition dget :: "pydict \<Rightarrow> string \<Rightarrow> pyval" where
  "dget d k = (case map_of d k of None \<Rightarrow> PNone | Some v \<Rightarrow> v)"

definition dict_update :: "pydict \<Rightarrow> pydict \<Rightarrow> pydict" where
  "dict_update d new = fold (\<lambda>(k, v) d'. AList.update k v d') new d"

fun truthy :: "pyval \<Rightarrow> bool" where
  "truthy PNone = False"
| "truthy (PStr s) = (s \<noteq> [])"

text \<open>\<open>a or b\<close>.\<close>

definition py_or :: "pyval \<Rightarrow> pyval \<Rightarrow> pyval" where
  "py_or a b = (if truthy a then a else b)"

text \<open>\<open>PREF_NAME2CODE\<close>: the prefectures and their two-digit codes.\<close>

definition PREF_NAME2CODE :: "(ustr \<times> ustr) list" where
  "PREF_NAME2CODE =
     [([0x5317, 0x6D77, 0x9053], asc ''01''),
      ([0x9752, 0x68EE, 0x770C], asc ''02''),
      ([0x5CA9, 0x624B, 0x770C], asc ''03''),
      ([0x5BAE, 0x57CE, 0x770C], asc ''04''),
      ([0x79CB, 0x7530, 0x770C], asc ''05''),
      ([0x5C71, 0x5F62, 0x770C], asc ''06''),
      ([0x798F, 0x5CF6, 0x770C], asc ''07''),
      ([0x8328, 0x57CE, 0x770C], asc ''08''),
      ([0x6803, 0x6728, 0x770C], asc ''09''),
      ([0x7FA4, 0x99AC, 0x770C], asc ''10''),
      ([0x57FC, 0x7389, 0x770C], asc ''11''),
      ([0x5343, 0x8449, 0x770C], asc ''12''),
      ([0x6771, 0x4EAC, 0x90FD], asc ''13''),
      ([0x795E, 0x5948, 0x5DDD, 0x770C], asc ''14''),
      ([0x65B0, 0x6F5F, 0x770C], asc ''15''),
      ([0x5BCC, 0x5C71, 0x770C], asc ''16''),
      ([0x77F3, 0x5DDD, 0x770C], asc ''17''),
      ([0x798F, 0x4E95, 0x770C], asc ''18''),
      ([0x5C71, 0x68A8, 0x770C], asc ''19''),
      ([0x9577, 0x91CE, 0x770C], asc ''20''),
      ([0x5C90, 0x961C, 0x770C], asc ''21''),
      ([0x9759, 0x5CA1, 0x770C], asc ''22''),
      ([0x611B, 0x77E5, 0x770C], asc ''23''),
      ([0x4E09, 0x91CD, 0x770C], asc ''24''),
      ([0x6ECB, 0x8CC0, 0x770C], asc ''25''),
      ([0x4EAC, 0x90FD, 0x5E9C], asc ''26''),
      ([0x5927, 0x962A, 0x5E9C], asc ''27''),
      ([0x5175, 0x5EAB, 0x770C], asc ''28''),
      ([0x5948, 0x826F, 0x770C], asc ''29''),
      ([0x548C, 0x6B4C, 0x5C71, 0x770C], asc ''30''),
      ([0x9CE5, 0x53D6, 0x770C], asc ''31''),
      ([0x5CF6, 0x6839, 0x770C], asc ''32''),
      ([0x5CA1, 0x5C71, 0x770C], asc ''33''),
      ([0x5E83, 0x5CF6, 0x770C], asc ''34''),
      ([0x5C71, 0x53E3, 0x770C], asc ''35''),
      ([0x5FB3, 0x5CF6, 0x770C], asc ''36''),
      ([0x9999, 0x5DDD, 0x770C], asc ''37''),
      ([0x611B, 0x5A9B, 0x770C], asc ''38''),
      ([0x9AD8, 0x77E5, 0x770C], asc ''39''),
      ([0x798F, 0x5CA1, 0x770C], asc ''40''),
      ([0x4F50, 0x8CC0, 0x770C], asc ''41''),
      ([0x9577, 0x5D0E, 0x770C], asc ''42''),
      ([0x718A, 0x672C, 0x770C], asc ''43''),
      ([0x5927, 0x5206, 0x770C], asc ''44''),
      ([0x5BAE, 0x5D0E, 0x770C], asc ''45''),
      ([0x9E7F, 0x5150, 0x5CF6, 0x770C], asc ''46''),
      ([0x6C96, 0x7E04, 0x770C], asc ''47'')]"

text \<open>\<open>PREF_NAME2CODE.get(pref)\<close>.\<close>

definition pref_code_of :: "ustr \<Rightarrow> pyval" where
  "pref_code_of pref = (case map_of PREF_NAME2CODE pref of None \<Rightarrow> PNone | Some c \<Rightarrow> PStr c)"

text \<open>The store is the dictionary with the keys \<open>updated\<close> and \<open>events\<close>.\<close>

record store =
  updated :: pyval
  events :: "pydict list"

text \<open>
  The index of the store: the position of every event that has an id; of two events with
  the same id the later one is kept, as the dictionary comprehension does.
\<close>

definition build_idx :: "pydict list \<Rightarrow> (pyval \<rightharpoonup> nat)" where
  "build_idx es =
     fold (\<lambda>(i, e) m. if truthy (dget e ''id'') then m(dget e ''id'' \<mapsto> i) else m)
          (enumerate 0 es) Map.empty"

text \<open>The name and the normalised name that \<open>merge_events\<close> reads from a raw event.\<close>

definition ev_raw_name :: "pydict \<Rightarrow> pyval" where
  "ev_raw_name ev = py_or (py_or (dget ev ''name'') (dget ev ''norm_name'')) (PStr [])"

definition norm_of_pyval :: "pyval \<Rightarrow> ustr" where
  "norm_of_pyval v = (case v of PNone \<Rightarrow> [] | PStr s \<Rightarrow> norm_rindo_name s)"

definition ev_norm :: "pydict \<Rightarrow> pyval" where
  "ev_norm ev = py_or (dget ev ''norm_name'') (PStr (norm_of_pyval (ev_raw_name ev)))"

definition str_of :: "pyval \<Rightarrow> ustr" where
  "str_of v = (case v of PNone \<Rightarrow> [] | PStr s \<Rightarrow> s)"

text \<open>\<open>canonical_url(ev.get("source_url") or source_url)\<close>; on \<open>None\<close> it raises.\<close>

definition ev_source :: "pydict \<Rightarrow> pyval \<Rightarrow> py_error + ustr" where
  "ev_source ev source_url =
     (case py_or (dget ev ''source_url'') source_url of
        PNone \<Rightarrow> Inl AttributeError
      | PStr s \<Rightarrow> canonical_url s)"

definition payload :: "ustr \<Rightarrow> ustr \<Rightarrow> pydict \<Rightarrow> ustr \<Rightarrow> ustr \<Rightarrow> pydict" where
  "payload now pref ev src eid =
     [(''id'', PStr eid),
      (''pref'', PStr pref),
      (''pref_code'', pref_code_of pref),
      (''name'', py_or (ev_raw_name ev) (ev_norm ev)),
      (''norm_name'', ev_norm ev),
      (''status'', dget ev ''status''),
      (''reason'', dget ev ''reason''),
      (''from'', dget ev ''from''),
      (''to'', dget ev ''to''),
      (''source_url'', PStr src),
      (''updated_at'', PStr now)]"

text \<open>
  One turn of the loop of \<open>merge_events\<close>, on the list of events of the store. The index
  is the one built before the loop.
\<close>

definition merge_one ::
  "ustr \<Rightarrow> ustr \<Rightarrow> pyval \<Rightarrow> (pyval \<rightharpoonup> nat) \<Rightarrow> pydict list \<Rightarrow> pydict \<Rightarrow> py_error + pydict list" where
  "merge_one now pref source_url idx es ev =
     (if \<not> (truthy (ev_raw_name ev) \<or> truthy (ev_norm ev)) then Inr es
      else case ev_source ev source_url of
        Inl e \<Rightarrow> Inl e
      | Inr src \<Rightarrow>
          (case make_event_id pref (str_of (ev_norm ev)) src of
             Inl e \<Rightarrow> Inl e
           | Inr eid \<Rightarrow>
               (case idx (PStr eid) of
                  Some i \<Rightarrow>
                    Inr (es[i := dict_update (es ! i)
                                   (filter (\<lambda>(k, v). v \<noteq> PNone) (payload now pref ev src eid))])
                | None \<Rightarrow> Inr (es @ [payload now pref ev src eid]))))"

fun merge_loop ::
  "ustr \<Rightarrow> ustr \<Rightarrow> pyval \<Rightarrow> (pyval \<rightharpoonup> nat) \<Rightarrow> pydict list \<Rightarrow> pydict list \<Rightarrow> py_error + pydict list" where
  "merge_loop now pref source_url idx es [] = Inr es"
| "merge_loop now pref source_url idx es (ev # evs) =
     (case merge_one now pref source_url idx es ev of
        Inl e \<Rightarrow> Inl e
      | Inr es' \<Rightarrow> merge_loop now pref source_url idx es' evs)"

text \<open>\<open>merge_events(base, new_events, pref, source_url)\<close>, with the time of \<open>now_iso()\<close>.\<close>

definition merge_events :: "ustr \<Rightarrow> store \<Rightarrow> pydict list \<Rightarrow> ustr \<Rightarrow> pyval \<Rightarrow> py_error + store" where
  "merge_events now base new_events pref source_url =
     (case merge_loop now pref source_url (build_idx (events base)) (events base) new_events of
        Inl e \<Rightarrow> Inl e
      | Inr es \<Rightarrow> Inr \<lparr>updated = PStr now, events = es\<rparr>)"

text \<open>
  The id that the loop of \<open>merge_events\<close> computes for a raw event: none when the event has
  neither a name nor a normalised name.
\<close>

definition event_id_of :: "ustr \<Rightarrow> pyval \<Rightarrow> pydict \<Rightarrow> py_error + ustr option" where
  "event_id_of pref source_url ev =
     (if \<not> (truthy (ev_raw_name ev) \<or> truthy (ev_norm ev)) then Inr None
      else case ev_source ev source_url of
        Inl e \<Rightarrow> Inl e
      | Inr src \<Rightarrow>
          (case make_event_id pref (str_of (ev_norm ev)) src of
             Inl e \<Rightarrow> Inl e
           | Inr eid \<Rightarrow> Inr (Some eid)))"

text \<open>The last status that is not \<open>None\<close> in a sequence of raw events, after an older one.\<close>

definition last_status :: "pyval \<Rightarrow> pydict list \<Rightarrow> pyval" where
  "last_status old evs = foldl (\<lambda>acc ev. if dget ev ''status'' = PNone then acc else dget ev ''status'') old evs"

section \<open>Extraction from HTML: \<open>harvest_from_html\<close>\<close>

subsection \<open>Matches and their groups\<close>

text \<open>
  \<open>rx.finditer(s)\<close>: the matches from the left, none overlapping the one before. The
  counter holds how many characters of the last match are still to be skipped.
\<close>

fun finditer_go :: "rx \<Rightarrow> nat \<Rightarrow> ustr \<Rightarrow> ustr \<Rightarrow> (mstate \<times> mstate) list" where
  "finditer_go r k b [] =
     (if k = 0 then (case rmatch r (b, [], []) of [] \<Rightarrow> [] | e # _ \<Rightarrow> [((b, [], []), e)]) else [])"
| "finditer_go r (Suc k) b (x # xs) = finditer_go r k (x # b) xs"
| "finditer_go r 0 b (x # xs) =
     (case rmatch r (b, x # xs, []) of
        [] \<Rightarrow> finditer_go r 0 (x # b) xs
      | (b', r', c') # _ \<Rightarrow>
          ((b, x # xs, []), (b', r', c'))
            # finditer_go r (length (x # xs) - length r' - 1) (x # b) xs)"

definition re_finditer :: "rx \<Rightarrow> ustr \<Rightarrow> (mstate \<times> mstate) list" where
  "re_finditer r s = finditer_go r 0 [] s"

text \<open>\<open>m.group(0)\<close> and \<open>m.group(name)\<close>; a group that took no part in the match is \<open>None\<close>.\<close>

definition match_text :: "mstate \<times> mstate \<Rightarrow> ustr" where
  "match_text m = (case m of ((b, r, c), (b', r', c')) \<Rightarrow> take (length r - length r') r)"

definition match_group :: "mstate \<times> mstate \<Rightarrow> string \<Rightarrow> pyval" where
  "match_group m g =
     (case m of ((b, r, c), (b', r', c')) \<Rightarrow>
        (case map_of c' g of None \<Rightarrow> PNone | Some t \<Rightarrow> PStr t))"

text \<open>\<open>\w\<close>: the word characters of Python 3 on \<open>str\<close> patterns.\<close>

definition word_ranges :: "(nat \<times> nat) list" where
  "word_ranges =
     [(0x30, 0x39), (0x41, 0x5A), (0x5F, 0x5F), (0x61, 0x7A), (0xAA, 0xAA), (0xB2, 0xB3),
      (0xB5, 0xB5), (0xB9, 0xBA), (0xBC, 0xBE), (0xC0, 0xD6), (0xD8, 0xF6), (0xF8, 0x2C1),
      (0x2C6, 0x2D1), (0x2E0, 0x2E4), (0x2EC, 0x2EC), (0x2EE, 0x2EE), (0x370, 0x374),
      (0x376, 0x377), (0x37A, 0x37D), (0x37F, 0x37F), (0x386, 0x386), (0x388, 0x38A),
      (0x38C, 0x38C), (0x38E, 0x3A1), (0x3A3, 0x3F5), (0x3F7, 0x481), (0x48A, 0x52F),
      (0x531, 0x556), (0x559, 0x559), (0x560, 0x588), (0x5D0, 0x5EA), (0x5EF, 0x5F2),
      (0x620, 0x64A), (0x660, 0x669), (0x66E, 0x66F), (0x671, 0x6D3), (0x6D5, 0x6D5),
      (0x6E5, 0x6E6), (0x6EE, 0x6FC), (0x6FF, 0x6FF), (0x710, 0x710), (0x712, 0x72F),
      (0x74D, 0x7A5), (0x7B1, 0x7B1), (0x7C0, 0x7EA), (0x7F4, 0x7F5), (0x7FA, 0x7FA),
      (0x800, 0x815), (0x81A, 0x81A), (0x824, 0x824), (0x828, 0x828), (0x840, 0x858),
      (0x860, 0x86A), (0x870, 0x887), (0x889, 0x88E), (0x8A0, 0x8C9), (0x904, 0x939),
      (0x93D, 0x93D), (0x950, 0x950), (0x958, 0x961), (0x966, 0x96F), (0x971, 0x980),
      (0x985, 0x98C), (0x98F, 0x990), (0x993, 0x9A8), (0x9AA, 0x9B0), (0x9B2, 0x9B2),
      (0x9B6, 0x9B9), (0x9BD, 0x9BD), (0x9CE, 0x9CE), (0x9DC, 0x9DD), (0x9DF, 0x9E1),
      (0x9E6, 0x9F1), (0x9F4, 0x9F9), (0x9FC, 0x9FC), (0xA05, 0xA0A), (0xA0F, 0xA10),
      (0xA13, 0xA28), (0xA2A, 0xA30), (0xA32, 0xA33), (0xA35, 0xA36), (0xA38, 0xA39),
      (0xA59, 0xA5C), (0xA5E, 0xA5E), (0xA66, 0xA6F), (0xA72, 0xA74), (0xA85, 0xA8D),
      (0xA8F, 0xA91), (0xA93, 0xAA8), (0xAAA, 0xAB0), (0xAB2, 0xAB3), (0xAB5, 0xAB9),
      (0xABD, 0xABD), (0xAD0, 0xAD0), (0xAE0, 0xAE1), (0xAE6, 0xAEF), (0xAF9, 0xAF9),
      (0xB05, 0xB0C), (0xB0F, 0xB10), (0xB13, 0xB28), (0xB2A, 0xB30), (0xB32, 0xB33),
      (0xB35, 0xB39), (0xB3D, 0xB3D), (0xB5C, 0xB5D), (0xB5F, 0xB61), (0xB66, 0xB6F),
      (0xB71, 0xB77), (0xB83, 0xB83), (0xB85, 0xB8A), (0xB8E, 0xB90), (0xB92, 0xB95),
      (0xB99, 0xB9A), (0xB9C, 0xB9C), (0xB9E, 0xB9F), (0xBA3, 0xBA4), (0xBA8, 0xBAA),
      (0xBAE, 0xBB9), (0xBD0, 0xBD0), (0xBE6, 0xBF2), (0xC05, 0xC0C), (0xC0E, 0xC10),
      (0xC12, 0xC28), (0xC2A, 0xC39), (0xC3D, 0xC3D), (0xC58, 0xC5A), (0xC5D, 0xC5D),
      (0xC60, 0xC61), (0xC66, 0xC6F), (0xC78, 0xC7E), (0xC80, 0xC80), (0xC85, 0xC8C),
      (0xC8E, 0xC90), (0xC92, 0xCA8), (0xCAA, 0xCB3), (0xCB5, 0xCB9), (0xCBD, 0xCBD),
      (0xCDD, 0xCDE), (0xCE0, 0xCE1), (0xCE6, 0xCEF), (0xCF1, 0xCF2), (0xD04, 0xD0C),
      (0xD0E, 0xD10), (0xD12, 0xD3A), (0xD3D, 0xD3D), (0xD4E, 0xD4E), (0xD54, 0xD56),
      (0xD58, 0xD61), (0xD66, 0xD78), (0xD7A, 0xD7F), (0xD85, 0xD96), (0xD9A, 0xDB1),
      (0xDB3, 0xDBB), (0xDBD, 0xDBD), (0xDC0, 0xDC6), (0xDE6, 0xDEF), (0xE01, 0xE30),
      (0xE32, 0xE33), (0xE40, 0xE46), (0xE50, 0xE59), (0xE81, 0xE82), (0xE84, 0xE84),
      (0xE86, 0xE8A), (0xE8C, 0xEA3), (0xEA5, 0xEA5), (0xEA7, 0xEB0), (0xEB2, 0xEB3),
      (0xEBD, 0xEBD), (0xEC0, 0xEC4), (0xEC6, 0xEC6), (0xED0, 0xED9), (0xEDC, 0xEDF),
      (0xF00, 0xF00), (0xF20, 0xF33), (0xF40, 0xF47), (0xF49, 0xF6C), (0xF88, 0xF8C),
      (0x1000, 0x102A), (0x103F, 0x1049), (0x1050, 0x1055), (0x105A, 0x105D), (0x1061, 0x1061),
      (0x1065, 0x1066), (0x106E, 0x1070), (0x1075, 0x1081), (0x108E, 0x108E), (0x1090, 0x1099),
      (0x10A0, 0x10C5), (0x10C7, 0x10C7), (0x10CD, 0x10CD), (0x10D0, 0x10FA), (0x10FC, 0x1248),
      (0x124A, 0x124D), (0x1250, 0x1256), (0x1258, 0x1258), (0x125A, 0x125D), (0x1260, 0x1288),
      (0x128A, 0x128D), (0x1290, 0x12B0), (0x12B2, 0x12B5), (0x12B8, 0x12BE), (0x12C0, 0x12C0),
      (0x12C2, 0x12C5), (0x12C8, 0x12D6), (0x12D8, 0x1310), (0x1312, 0x1315), (0x1318, 0x135A),
      (0x1369, 0x137C), (0x1380, 0x138F), (0x13A0, 0x13F5), (0x13F8, 0x13FD), (0x1401, 0x166C),
      (0x166F, 0x167F), (0x1681, 0x169A), (0x16A0, 0x16EA), (0x16EE, 0x16F8), (0x1700, 0x1711),
      (0x171F, 0x1731), (0x1740, 0x1751), (0x1760, 0x176C), (0x176E, 0x1770), (0x1780, 0x17B3),
      (0x17D7, 0x17D7), (0x17DC, 0x17DC), (0x17E0, 0x17E9), (0x17F0, 0x17F9), (0x1810, 0x1819),
      (0x1820, 0x1878), (0x1880, 0x1884), (0x1887, 0x18A8), (0x18AA, 0x18AA), (0x18B0, 0x18F5),
      (0x1900, 0x191E), (0x1946, 0x196D), (0x1970, 0x1974), (0x1980, 0x19AB), (0x19B0, 0x19C9),
      (0x19D0, 0x19DA), (0x1A00, 0x1A16), (0x1A20, 0x1A54), (0x1A80, 0x1A89), (0x1A90, 0x1A99),
      (0x1AA7, 0x1AA7), (0x1B05, 0x1B33), (0x1B45, 0x1B4C), (0x1B50, 0x1B59), (0x1B83, 0x1BA0),
      (0x1BAE, 0x1BE5), (0x1C00, 0x1C23), (0x1C40, 0x1C49), (0x1C4D, 0x1C7D), (0x1C80, 0x1C88),
      (0x1C90, 0x1CBA), (0x1CBD, 0x1CBF), (0x1CE9, 0x1CEC), (0x1CEE, 0x1CF3), (0x1CF5, 0x1CF6),
      (0x1CFA, 0x1CFA), (0x1D00, 0x1DBF), (0x1E00, 0x1F15), (0x1F18, 0x1F1D), (0x1F20, 0x1F45),
      (0x1F48, 0x1F4D), (0x1F50, 0x1F57), (0x1F59, 0x1F59), (0x1F5B, 0x1F5B), (0x1F5D, 0x1F5D),
      (0x1F5F, 0x1F7D), (0x1F80, 0x1FB4), (0x1FB6, 0x1FBC), (0x1FBE, 0x1FBE), (0x1FC2, 0x1FC4),
      (0x1FC6, 0x1FCC), (0x1FD0, 0x1FD3), (0x1FD6, 0x1FDB), (0x1FE0, 0x1FEC), (0x1FF2, 0x1FF4),
      (0x1FF6, 0x1FFC), (0x2070, 0x2071), (0x2074, 0x2079), (0x207F, 0x2089), (0x2090, 0x209C),
      (0x2102, 0x2102), (0x2107, 0x2107), (0x210A, 0x2113), (0x2115, 0x2115), (0x2119, 0x211D),
      (0x2124, 0x2124), (0x2126, 0x2126), (0x2128, 0x2128), (0x212A, 0x212D), (0x212F, 0x2139),
      (0x213C, 0x213F), (0x2145, 0x2149), (0x214E, 0x214E), (0x2150, 0x2189), (0x2460, 0x249B),
      (0x24EA, 0x24FF), (0x2776, 0x2793), (0x2C00, 0x2CE4), (0x2CEB, 0x2CEE), (0x2CF2, 0x2CF3),
      (0x2CFD, 0x2CFD), (0x2D00, 0x2D25), (0x2D27, 0x2D27), (0x2D2D, 0x2D2D), (0x2D30, 0x2D67),
      (0x2D6F, 0x2D6F), (0x2D80, 0x2D96), (0x2DA0, 0x2DA6), (0x2DA8, 0x2DAE), (0x2DB0, 0x2DB6),
      (0x2DB8, 0x2DBE), (0x2DC0, 0x2DC6), (0x2DC8, 0x2DCE), (0x2DD0, 0x2DD6), (0x2DD8, 0x2DDE),
      (0x2E2F, 0x2E2F), (0x3005, 0x3007), (0x3021, 0x3029), (0x3031, 0x3035), (0x3038, 0x303C),
      (0x3041, 0x3096), (0x309D, 0x309F), (0x30A1, 0x30FA), (0x30FC, 0x30FF), (0x3105, 0x312F),
      (0x3131, 0x318E), (0x3192, 0x3195), (0x31A0, 0x31BF), (0x31F0, 0x31FF), (0x3220, 0x3229),
      (0x3248, 0x324F), (0x3251, 0x325F), (0x3280, 0x3289), (0x32B1, 0x32BF), (0x3400, 0x4DBF),
      (0x4E00, 0xA48C), (0xA4D0, 0xA4FD), (0xA500, 0xA60C), (0xA610, 0xA62B), (0xA640, 0xA66E),
      (0xA67F, 0xA69D), (0xA6A0, 0xA6EF), (0xA717, 0xA71F), (0xA722, 0xA788), (0xA78B, 0xA7CA),
      (0xA7D0, 0xA7D1), (0xA7D3, 0xA7D3), (0xA7D5, 0xA7D9), (0xA7F2, 0xA801), (0xA803, 0xA805),
      (0xA807, 0xA80A), (0xA80C, 0xA822), (0xA830, 0xA835), (0xA840, 0xA873), (0xA882, 0xA8B3),
      (0xA8D0, 0xA8D9), (0xA8F2, 0xA8F7), (0xA8FB, 0xA8FB), (0xA8FD, 0xA8FE), (0xA900, 0xA925),
      (0xA930, 0xA946), (0xA960, 0xA97C), (0xA984, 0xA9B2), (0xA9CF, 0xA9D9), (0xA9E0, 0xA9E4),
      (0xA9E6, 0xA9FE), (0xAA00, 0xAA28), (0xAA40, 0xAA42), (0xAA44, 0xAA4B), (0xAA50, 0xAA59),
      (0xAA60, 0xAA76), (0xAA7A, 0xAA7A), (0xAA7E, 0xAAAF), (0xAAB1, 0xAAB1), (0xAAB5, 0xAAB6),
      (0xAAB9, 0xAABD), (0xAAC0, 0xAAC0), (0xAAC2, 0xAAC2), (0xAADB, 0xAADD), (0xAAE0, 0xAAEA),
      (0xAAF2, 0xAAF4), (0xAB01, 0xAB06), (0xAB09, 0xAB0E), (0xAB11, 0xAB16), (0xAB20, 0xAB26),
      (0xAB28, 0xAB2E), (0xAB30, 0xAB5A), (0xAB5C, 0xAB69), (0xAB70, 0xABE2), (0xABF0, 0xABF9),
      (0xAC00, 0xD7A3), (0xD7B0, 0xD7C6), (0xD7CB, 0xD7FB), (0xF900, 0xFA6D), (0xFA70, 0xFAD9),
      (0xFB00, 0xFB06), (0xFB13, 0xFB17), (0xFB1D, 0xFB1D), (0xFB1F, 0xFB28), (0xFB2A, 0xFB36),
      (0xFB38, 0xFB3C), (0xFB3E, 0xFB3E), (0xFB40, 0xFB41), (0xFB43, 0xFB44), (0xFB46, 0xFBB1),
      (0xFBD3, 0xFD3D), (0xFD50, 0xFD8F), (0xFD92, 0xFDC7), (0xFDF0, 0xFDFB), (0xFE70, 0xFE74),
      (0xFE76, 0xFEFC), (0xFF10, 0xFF19), (0xFF21, 0xFF3A), (0xFF41, 0xFF5A), (0xFF66, 0xFFBE),
      (0xFFC2, 0xFFC7), (0xFFCA, 0xFFCF), (0xFFD2, 0xFFD7), (0xFFDA, 0xFFDC), (0x10000, 0x1000B),
      (0x1000D, 0x10026), (0x10028, 0x1003A), (0x1003C, 0x1003D), (0x1003F, 0x1004D),
      (0x10050, 0x1005D), (0x10080, 0x100FA), (0x10107, 0x10133), (0x10140, 0x10178),
      (0x1018A, 0x1018B), (0x10280, 0x1029C), (0x102A0, 0x102D0), (0x102E1, 0x102FB),
      (0x10300, 0x10323), (0x1032D, 0x1034A), (0x10350, 0x10375), (0x10380, 0x1039D),
      (0x103A0, 0x103C3), (0x103C8, 0x103CF), (0x103D1, 0x103D5), (0x10400, 0x1049D),
      (0x104A0, 0x104A9), (0x104B0, 0x104D3), (0x104D8, 0x104FB), (0x10500, 0x10527),
      (0x10530, 0x10563), (0x10570, 0x1057A), (0x1057C, 0x1058A), (0x1058C, 0x10592),
      (0x10594, 0x10595), (0x10597, 0x105A1), (0x105A3, 0x105B1), (0x105B3, 0x105B9),
      (0x105BB, 0x105BC), (0x10600, 0x10736), (0x10740, 0x10755), (0x10760, 0x10767),
      (0x10780, 0x10785), (0x10787, 0x107B0), (0x107B2, 0x107BA), (0x10800, 0x10805),
      (0x10808, 0x10808), (0x1080A, 0x10835), (0x10837, 0x10838), (0x1083C, 0x1083C),
      (0x1083F, 0x10855), (0x10858, 0x10876), (0x10879, 0x1089E), (0x108A7, 0x108AF),
      (0x108E0, 0x108F2), (0x108F4, 0x108F5), (0x108FB, 0x1091B), (0x10920, 0x10939),
      (0x10980, 0x109B7), (0x109BC, 0x109CF), (0x109D2, 0x10A00), (0x10A10, 0x10A13),
      (0x10A15, 0x10A17), (0x10A19, 0x10A35), (0x10A40, 0x10A48), (0x10A60, 0x10A7E),
      (0x10A80, 0x10A9F), (0x10AC0, 0x10AC7), (0x10AC9, 0x10AE4), (0x10AEB, 0x10AEF),
      (0x10B00, 0x10B35), (0x10B40, 0x10B55), (0x10B58, 0x10B72), (0x10B78, 0x10B91),
      (0x10BA9, 0x10BAF), (0x10C00, 0x10C48), (0x10C80, 0x10CB2), (0x10CC0, 0x10CF2),
      (0x10CFA, 0x10D23), (0x10D30, 0x10D39), (0x10E60, 0x10E7E), (0x10E80, 0x10EA9),
      (0x10EB0, 0x10EB1), (0x10F00, 0x10F27), (0x10F30, 0x10F45), (0x10F51, 0x10F54),
      (0x10F70, 0x10F81), (0x10FB0, 0x10FCB), (0x10FE0, 0x10FF6), (0x11003, 0x11037),
      (0x11052, 0x1106F), (0x11071, 0x11072), (0x11075, 0x11075), (0x11083, 0x110AF),
      (0x110D0, 0x110E8), (0x110F0, 0x110F9), (0x11103, 0x11126), (0x11136, 0x1113F),
      (0x11144, 0x11144), (0x11147, 0x11147), (0x11150, 0x11172), (0x11176, 0x11176),
      (0x11183, 0x111B2), (0x111C1, 0x111C4), (0x111D0, 0x111DA), (0x111DC, 0x111DC),
      (0x111E1, 0x111F4), (0x11200, 0x11211), (0x11213, 0x1122B), (0x11280, 0x11286),
      (0x11288, 0x11288), (0x1128A, 0x1128D), (0x1128F, 0x1129D), (0x1129F, 0x112A8),
      (0x112B0, 0x112DE), (0x112F0, 0x112F9), (0x11305, 0x1130C), (0x1130F, 0x11310),
      (0x11313, 0x11328), (0x1132A, 0x11330), (0x11332, 0x11333), (0x11335, 0x11339),
      (0x1133D, 0x1133D), (0x11350, 0x11350), (0x1135D, 0x11361), (0x11400, 0x11434),
      (0x11447, 0x1144A), (0x11450, 0x11459), (0x1145F, 0x11461), (0x11480, 0x114AF),
      (0x114C4, 0x114C5), (0x114C7, 0x114C7), (0x114D0, 0x114D9), (0x11580, 0x115AE),
      (0x115D8, 0x115DB), (0x11600, 0x1162F), (0x11644, 0x11644), (0x11650, 0x11659),
      (0x11680, 0x116AA), (0x116B8, 0x116B8), (0x116C0, 0x116C9), (0x11700, 0x1171A),
      (0x11730, 0x1173B), (0x11740, 0x11746), (0x11800, 0x1182B), (0x118A0, 0x118F2),
      (0x118FF, 0x11906), (0x11909, 0x11909), (0x1190C, 0x11913), (0x11915, 0x11916),
      (0x11918, 0x1192F), (0x1193F, 0x1193F), (0x11941, 0x11941), (0x11950, 0x11959),
      (0x119A0, 0x119A7), (0x119AA, 0x119D0), (0x119E1, 0x119E1), (0x119E3, 0x119E3),
      (0x11A00, 0x11A00), (0x11A0B, 0x11A32), (0x11A3A, 0x11A3A), (0x11A50, 0x11A50),
      (0x11A5C, 0x11A89), (0x11A9D, 0x11A9D), (0x11AB0, 0x11AF8), (0x11C00, 0x11C08),
      (0x11C0A, 0x11C2E), (0x11C40, 0x11C40), (0x11C50, 0x11C6C), (0x11C72, 0x11C8F),
      (0x11D00, 0x11D06), (0x11D08, 0x11D09), (0x11D0B, 0x11D30), (0x11D46, 0x11D46),
      (0x11D50, 0x11D59), (0x11D60, 0x11D65), (0x11D67, 0x11D68), (0x11D6A, 0x11D89),
      (0x11D98, 0x11D98), (0x11DA0, 0x11DA9), (0x11EE0, 0x11EF2), (0x11FB0, 0x11FB0),
      (0x11FC0, 0x11FD4), (0x12000, 0x12399), (0x12400, 0x1246E), (0x12480, 0x12543),
      (0x12F90, 0x12FF0), (0x13000, 0x1342E), (0x14400, 0x14646), (0x16800, 0x16A38),
      (0x16A40, 0x16A5E), (0x16A60, 0x16A69), (0x16A70, 0x16ABE), (0x16AC0, 0x16AC9),
      (0x16AD0, 0x16AED), (0x16B00, 0x16B2F), (0x16B40, 0x16B43), (0x16B50, 0x16B59),
      (0x16B5B, 0x16B61), (0x16B63, 0x16B77), (0x16B7D, 0x16B8F), (0x16E40, 0x16E96),
      (0x16F00, 0x16F4A), (0x16F50, 0x16F50), (0x16F93, 0x16F9F), (0x16FE0, 0x16FE1),
      (0x16FE3, 0x16FE3), (0x17000, 0x187F7), (0x18800, 0x18CD5), (0x18D00, 0x18D08),
      (0x1AFF0, 0x1AFF3), (0x1AFF5, 0x1AFFB), (0x1AFFD, 0x1AFFE), (0x1B000, 0x1B122),
      (0x1B150, 0x1B152), (0x1B164, 0x1B167), (0x1B170, 0x1B2FB), (0x1BC00, 0x1BC6A),
      (0x1BC70, 0x1BC7C), (0x1BC80, 0x1BC88), (0x1BC90, 0x1BC99), (0x1D2E0, 0x1D2F3),
      (0x1D360, 0x1D378), (0x1D400, 0x1D454), (0x1D456, 0x1D49C), (0x1D49E, 0x1D49F),
      (0x1D4A2, 0x1D4A2), (0x1D4A5, 0x1D4A6), (0x1D4A9, 0x1D4AC), (0x1D4AE, 0x1D4B9),
      (0x1D4BB, 0x1D4BB), (0x1D4BD, 0x1D4C3), (0x1D4C5, 0x1D505), (0x1D507, 0x1D50A),
      (0x1D50D, 0x1D514), (0x1D516, 0x1D51C), (0x1D51E, 0x1D539), (0x1D53B, 0x1D53E),
      (0x1D540, 0x1D544), (0x1D546, 0x1D546), (0x1D54A, 0x1D550), (0x1D552, 0x1D6A5),
      (0x1D6A8, 0x1D6C0), (0x1D6C2, 0x1D6DA), (0x1D6DC, 0x1D6FA), (0x1D6FC, 0x1D714),
      (0x1D716, 0x1D734), (0x1D736, 0x1D74E), (0x1D750, 0x1D76E), (0x1D770, 0x1D788),
      (0x1D78A, 0x1D7A8), (0x1D7AA, 0x1D7C2), (0x1D7C4, 0x1D7CB), (0x1D7CE, 0x1D7FF),
      (0x1DF00, 0x1DF1E), (0x1E100, 0x1E12C), (0x1E137, 0x1E13D), (0x1E140, 0x1E149),
      (0x1E14E, 0x1E14E), (0x1E290, 0x1E2AD), (0x1E2C0, 0x1E2EB), (0x1E2F0, 0x1E2F9),
      (0x1E7E0, 0x1E7E6), (0x1E7E8, 0x1E7EB), (0x1E7ED, 0x1E7EE), (0x1E7F0, 0x1E7FE),
      (0x1E800, 0x1E8C4), (0x1E8C7, 0x1E8CF), (0x1E900, 0x1E943), (0x1E94B, 0x1E94B),
      (0x1E950, 0x1E959), (0x1EC71, 0x1ECAB), (0x1ECAD, 0x1ECAF), (0x1ECB1, 0x1ECB4),
      (0x1ED01, 0x1ED2D), (0x1ED2F, 0x1ED3D), (0x1EE00, 0x1EE03), (0x1EE05, 0x1EE1F),
      (0x1EE21, 0x1EE22), (0x1EE24, 0x1EE24), (0x1EE27, 0x1EE27), (0x1EE29, 0x1EE32),
      (0x1EE34, 0x1EE37), (0x1EE39, 0x1EE39), (0x1EE3B, 0x1EE3B), (0x1EE42, 0x1EE42),
      (0x1EE47, 0x1EE47), (0x1EE49, 0x1EE49), (0x1EE4B, 0x1EE4B), (0x1EE4D, 0x1EE4F),
      (0x1EE51, 0x1EE52), (0x1EE54, 0x1EE54), (0x1EE57, 0x1EE57), (0x1EE59, 0x1EE59),
      (0x1EE5B, 0x1EE5B), (0x1EE5D, 0x1EE5D), (0x1EE5F, 0x1EE5F), (0x1EE61, 0x1EE62),
      (0x1EE64, 0x1EE64), (0x1EE67, 0x1EE6A), (0x1EE6C, 0x1EE72), (0x1EE74, 0x1EE77),
      (0x1EE79, 0x1EE7C), (0x1EE7E, 0x1EE7E), (0x1EE80, 0x1EE89), (0x1EE8B, 0x1EE9B),
      (0x1EEA1, 0x1EEA3), (0x1EEA5, 0x1EEA9), (0x1EEAB, 0x1EEBB), (0x1F100, 0x1F10C),
      (0x1FBF0, 0x1FBF9), (0x20000, 0x2A6DF), (0x2A700, 0x2B738), (0x2B740, 0x2B81D),
      (0x2B820, 0x2CEA1), (0x2CEB0, 0x2EBE0), (0x2F800, 0x2FA1D), (0x30000, 0x3134A)]"

definition is_word :: "nat \<Rightarrow> bool" where
  "is_word c = list_ex (\<lambda>(lo, hi). lo \<le> c \<and> c \<le> hi) word_ranges"

text \<open>\<open>s.strip()\<close> and \<open>sep.join(parts)\<close>.\<close>

definition py_strip :: "ustr \<Rightarrow> ustr" where
  "py_strip s = rev (dropWhile is_space (rev (dropWhile is_space s)))"

fun py_join :: "ustr \<Rightarrow> ustr list \<Rightarrow> ustr" where
  "py_join sep [] = []"
| "py_join sep [p] = p"
| "py_join sep (p # q # ps) = p @ sep @ py_join sep (q # ps)"

subsection \<open>Reason, period and names\<close>

definition REASONS :: "rx list" where
  "REASONS =
     [Lit [0x843D, 0x77F3], Lit [0x5012, 0x6728], Lit [0x5D29, 0x843D],
      Cat [Lit [0x571F, 0x7802], Grp ''1'' (Alts [Lit [0x5D29, 0x308C], Lit [0x6D41, 0x51FA]])],
      Lit [0x51CD, 0x7D50], Lit [0x7A4D, 0x96EA], Lit [0x53F0, 0x98A8], Lit [0x8C6A, 0x96E8],
      Lit [0x5730, 0x9707], Lit [0x5D29, 0x571F], Lit [0x5DE5, 0x4E8B], Lit [0x88DC, 0x4FEE],
      Lit [0x70B9, 0x691C], Lit [0x4F10, 0x63A1], Lit [0x8DEF, 0x80A9, 0x640D, 0x50B7],
      Lit [0x8DEF, 0x9762, 0x640D, 0x50B7]]"

definition P_REASON :: rx where
  "P_REASON = Alts REASONS"

definition pick_reason :: "ustr \<Rightarrow> pyval" where
  "pick_reason text =
     (case search_from P_REASON [] text of None \<Rightarrow> PNone | Some m \<Rightarrow> PStr (match_text m))"

definition is_date_sep :: "nat \<Rightarrow> bool" where
  "is_date_sep c = (c = 0x2E \<or> c = 0x2F \<or> c = 0x2D)"

text \<open>\<open>\d{4}[./-]\d{1,2}[./-]\d{1,2}\<close>.\<close>

definition RX_DATE :: rx where
  "RX_DATE = Cat [Rep True 4 (Some 4) is_digit, Cls is_date_sep, Rep True 1 (Some 2) is_digit,
                  Cls is_date_sep, Rep True 1 (Some 2) is_digit]"

definition P_RANGE :: rx where
  "P_RANGE =
     Cat [Grp ''from'' RX_DATE,
          Rep True 0 (Some 6) (\<lambda>c. \<not> is_ascii_digit c),
          Alts [Lit [0xFF5E], Lit [0x7E], Lit [0x2212], Lit [0x2D], Lit [0x2014], Lit [0x2013],
                Lit [0x81F3], Lit [0x307E, 0x3067], Lit [0x304B, 0x3089], Lit [0x3088, 0x308A]],
          Grp ''to'' (Alts [RX_DATE, Lit [0x672A, 0x5B9A], Lit [0x5F53, 0x9762, 0x306E, 0x9593],
                            Lit [0x5F53, 0x9762], Lit [0x672A, 0x5B9A]])]"

definition P_DATE_SINGLE :: rx where
  "P_DATE_SINGLE = Grp ''d'' RX_DATE"

definition pick_range :: "ustr \<Rightarrow> pyval \<times> pyval" where
  "pick_range text =
     (case search_from P_RANGE [] text of
        Some m \<Rightarrow> (match_group m ''from'', match_group m ''to'')
      | None \<Rightarrow>
          (case search_from P_DATE_SINGLE [] text of
             Some m2 \<Rightarrow> (match_group m2 ''d'', PNone)
           | None \<Rightarrow> (PNone, PNone)))"

text \<open>The characters of a road name in \<open>P_RINDO_1\<close> and \<open>P_RINDO_2\<close>.\<close>

definition is_name_char :: "nat \<Rightarrow> bool" where
  "is_name_char c =
     (is_word c \<or> in_range 0xFF10 0xFF19 c \<or> in_range 0x30 0x39 c \<or> in_range 0x4E00 0x9FA5 c
      \<or> in_range 0x3041 0x3093 c \<or> in_range 0x30A1 0x30F6 c \<or> c = 0x3005 \<or> c = 0x30FC
      \<or> c = 0x30FB \<or> c = 0xFF65 \<or> c = 0x2D \<or> c = 0x20 \<or> c = 0x3000)"

definition P_RINDO_1 :: rx where
  "P_RINDO_1 =
     Cat [Grp ''1'' (Alts [Lit s_rindo, Lit s_shinrin_kanrido]),
          Grp ''n'' (Rep False 2 (Some 30) is_name_char),
          Opt (Alts [Lit s_sen, Lit s_sen_kana, Lit s_dou])]"

definition P_RINDO_2 :: rx where
  "P_RINDO_2 =
     Cat [Grp ''n'' (Rep False 2 (Some 30) is_name_char),
          Alts [Lit s_rindo, Lit s_shinrin_kanrido, Lit (s_rindo @ s_sen)]]"

definition NAME_HEAD_RE :: rx where
  "NAME_HEAD_RE =
     Grp ''1'' (Alts [Lit [0x8DEF, 0x7DDA, 0x540D], Lit [0x6797, 0x9053, 0x540D],
                      Lit [0x68EE, 0x6797, 0x7BA1, 0x7406, 0x9053, 0x540D], Lit [0x540D, 0x79F0],
                      Lit [0x8DEF, 0x7DDA], Lit [0x8DEF, 0x7DDA, 0x7B49],
                      Lit [0x8DEF, 0x7DDA, 0x756A, 0x53F7]])"

definition BAD_NAME_SUBSTR :: "ustr list" where
  "BAD_NAME_SUBSTR =
     [[0x8DEF, 0x7DDA, 0x540D], [0x5E02, 0x753A, 0x6751], [0x73FE, 0x5728], [0x7BA1, 0x7406],
      [0x30BB, 0x30F3, 0x30BF, 0x30FC], [0x6CE8, 0x610F], [0x306B, 0x3064, 0x3044, 0x3066],
      [0x304A, 0x77E5, 0x3089, 0x305B]]"

text \<open>
  The test that every tier applies to a normalised name: not empty, two characters at
  least, none of the words of \<open>BAD_NAME_SUBSTR\<close> in it.
\<close>

definition name_ok :: "ustr \<Rightarrow> bool" where
  "name_ok n = (n \<noteq> [] \<and> 2 \<le> length n \<and> \<not> list_ex (\<lambda>b. str_in b n) BAD_NAME_SUBSTR)"

text \<open>
  \<open>pick_names\<close> collects the names in a Python set, whose order of iteration is not
  fixed; here they are listed in the order of their first match.
\<close>

definition pick_names :: "ustr \<Rightarrow> ustr list" where
  "pick_names text =
     filter name_ok
       (remdups (map (\<lambda>m. norm_rindo_name (str_of (match_group m ''n'')))
                     (re_finditer P_RINDO_1 text @ re_finditer P_RINDO_2 text)))"

subsection \<open>The three tiers\<close>

text \<open>
  The document as \<open>selectolax\<close> hands it over: for every \<open>table\<close> the texts of the cells of
  its rows, the texts of the \<open>li\<close> and of the \<open>p\<close> elements, and the lines of the text of the
  whole document.
\<close>

record html_doc =
  tables :: "ustr list list list"
  li_texts :: "ustr list"
  p_texts :: "ustr list"
  body_lines :: "ustr list"

definition s_kanrido :: ustr where
  "s_kanrido = [0x7BA1, 0x7406, 0x9053]"

text \<open>The first header cell that names the road, if any.\<close>

fun find_name_head :: "nat \<Rightarrow> ustr list \<Rightarrow> nat option" where
  "find_name_head i [] = None"
| "find_name_head i (h # hs) = (if re_search NAME_HEAD_RE h then Some i else find_name_head (Suc i) hs)"

text \<open>
  Without such a header, the column among the first six that holds the word rindo or
  kanrido in most of the first seven data rows; of two columns with the same count the
  later, as sorting the pairs in reverse puts it first.
\<close>

definition count_col :: "ustr list list \<Rightarrow> nat \<Rightarrow> nat" where
  "count_col rows i =
     length (filter (\<lambda>tr. let cells = map py_strip tr
                            in i < length cells \<and> (str_in s_rindo (cells ! i) \<or> str_in s_kanrido (cells ! i)))
                    (take 7 (drop 1 rows)))"

definition best_cand :: "(nat \<times> nat) list \<Rightarrow> (nat \<times> nat) option" where
  "best_cand cand =
     (case cand of
        [] \<Rightarrow> None
      | c # cs \<Rightarrow>
          Some (foldl (\<lambda>(n, i) (n', i'). if n < n' \<or> (n = n' \<and> i < i') then (n', i') else (n, i)) c cs))"

definition guess_name_idx :: "ustr list list \<Rightarrow> nat option" where
  "guess_name_idx rows =
     (let headers = map py_strip (hd rows);
          cand = map (\<lambda>i. (count_col rows i, i)) [0 ..< min 6 (max 1 (length headers))]
      in case best_cand cand of
           None \<Rightarrow> None
         | Some (n, i) \<Rightarrow> if 0 < n then Some i else None)"

definition name_idx_of :: "ustr list list \<Rightarrow> nat option" where
  "name_idx_of rows =
     (case find_name_head 0 (map py_strip (hd rows)) of
        Some i \<Rightarrow> Some i
      | None \<Rightarrow> guess_name_idx rows)"

definition raw_event :: "ustr \<Rightarrow> ustr \<Rightarrow> ustr \<Rightarrow> pydict" where
  "raw_event nm st text =
     [(''name'', PStr (nm @ s_rindo)),
      (''norm_name'', PStr nm),
      (''status'', PStr st),
      (''reason'', pick_reason text),
      (''from'', fst (pick_range text)),
      (''to'', snd (pick_range text)),
      (''snippet'', PStr (take 160 text))]"

text \<open>One data row of a table: no event, or one.\<close>

definition row_events :: "nat option \<Rightarrow> ustr list \<Rightarrow> pydict list" where
  "row_events name_idx tr =
     (let cells = map py_strip tr in
      if length cells < 2 then []
      else let row_text = py_join [0x20] cells in
        case pick_status row_text of
          None \<Rightarrow> []
        | Some st \<Rightarrow>
            (let nm_raw = (case name_idx of
                             None \<Rightarrow> []
                           | Some i \<Rightarrow> if i < length cells then cells ! i else []);
                 nm_raw = (if nm_raw = []
                           then (case pick_names row_text of [] \<Rightarrow> [] | n # _ \<Rightarrow> n)
                           else nm_raw);
                 nm = norm_rindo_name nm_raw
             in if name_ok nm then [raw_event nm st row_text] else []))"

definition table_events :: "ustr list list \<Rightarrow> pydict list" where
  "table_events rows =
     (if rows = [] then []
      else concat (map (row_events (name_idx_of rows)) (drop 1 rows)))"

definition RX_LINE_STATUS :: rx where
  "RX_LINE_STATUS = Grp ''1'' (Alts [Lit s_tsukodome, Lit s_kisei, Lit s_kaijo, Lit s_tsukoka, Lit s_tsukokano])"

text \<open>
  One \<open>li\<close> or \<open>p\<close> element, and one line of the text of the document: an event for every
  name that is found in it.
\<close>

definition line_events :: "ustr \<Rightarrow> pydict list" where
  "line_events raw =
     (let line = py_strip raw in
      if line = [] then []
      else if (\<not> str_in s_rindo line \<and> \<not> str_in s_kanrido line) \<or> \<not> re_search RX_LINE_STATUS line
      then []
      else let st = (case pick_status line of None \<Rightarrow> s_kisei | Some l \<Rightarrow> l)
        in map (\<lambda>nm. raw_event nm st line)
               (filter name_ok (map norm_rindo_name (pick_names line))))"

definition tier_tables :: "html_doc \<Rightarrow> pydict list" where
  "tier_tables doc = concat (map table_events (tables doc))"

definition tier_items :: "html_doc \<Rightarrow> pydict list" where
  "tier_items doc = concat (map line_events (li_texts doc @ p_texts doc))"

definition tier_body :: "html_doc \<Rightarrow> pydict list" where
  "tier_body doc = concat (map line_events (body_lines doc))"

text \<open>
  \<open>harvest_from_html\<close>: the three loops run one after the other and append to the same
  list.
\<close>

definition harvest_from_html :: "html_doc \<Rightarrow> pydict list" where
  "harvest_from_html doc = tier_tables doc @ tier_items doc @ tier_body doc"

section \<open>Extraction from plain text: \<open>extract_generic_jp\<close>\<close>

definition is_gen_name_char :: "nat \<Rightarrow> bool" where
  "is_gen_name_char c =
     (in_range 0x4E00 0x9FFF c \<or> in_range 0x3041 0x3093 c \<or> in_range 0x30A1 0x30F6 c
      \<or> in_range 0x30 0x39 c
      \<or> c \<in> set [0x4E00, 0x4E8C, 0x4E09, 0x56DB, 0x4E94, 0x516D, 0x4E03, 0x516B, 0x4E5D, 0x5341,
                    0x3007, 0x30FB, 0x2D])"

definition s_katagawa_kogo_tsuko :: ustr where
  "s_katagawa_kogo_tsuko = [0x7247, 0x5074, 0x4EA4, 0x4E92, 0x901A, 0x884C]"

definition s_ichibu_tsuko :: ustr where
  "s_ichibu_tsuko = [0x4E00, 0x90E8, 0x901A, 0x884C]"

definition s_ichibu :: ustr where
  "s_ichibu = [0x4E00, 0x90E8]"

text \<open>A name that ends in sen, at most eight characters of one line, and a status word.\<close>

definition RX_GENERIC :: rx where
  "RX_GENERIC =
     Cat [Grp ''name'' (Cat [Rep False 1 None is_gen_name_char, Opt (Lit [0x652F]), Lit s_sen]),
          Rep False 0 (Some 8) (\<lambda>c. c \<noteq> 0x0A),
          Grp ''status'' (Alts [Lit s_tsukodome, Lit s_tsuko_kisei, Lit s_katagawa_kogo_tsuko,
                                Lit s_ichibu_tsuko, Lit s_ukai_kana, Lit s_ukai, Lit s_kaijo,
                                Lit s_tsukoka])]"

definition generic_code :: "ustr \<Rightarrow> ustr" where
  "generic_code stj =
     (if str_in s_tsukodome stj then asc ''closed''
      else if str_in s_kisei stj \<or> str_in s_katagawa_kogo_tsuko stj \<or> str_in s_ichibu stj
      then asc ''regulated''
      else if str_in s_kaijo stj \<or> str_in s_tsukoka stj then asc ''open''
      else [])"

definition generic_event :: "ustr \<Rightarrow> ustr \<Rightarrow> mstate \<times> mstate \<Rightarrow> pydict list" where
  "generic_event base_url pref m =
     (let raw = str_of (match_group m ''name'');
          stj = str_of (match_group m ''status'');
          code = generic_code stj;
          nm = norm_rindo_name raw
      in if code \<noteq> [] \<and> nm \<noteq> []
         then [[(''pref'', PStr pref),
                (''name'', PStr (nm @ s_rindo)),
                (''norm_name'', PStr nm),
                (''status'', PStr code),
                (''reason'', PNone),
                (''from'', PNone),
                (''to'', PNone),
                (''snippet'', PStr (take 160 (raw @ [0x20] @ stj))),
                (''source_url'', PStr base_url)]]
         else [])"

definition extract_generic_jp :: "ustr \<Rightarrow> ustr \<Rightarrow> ustr \<Rightarrow> pydict list" where
  "extract_generic_jp text base_url pref =
     concat (map (generic_event base_url pref) (re_finditer RX_GENERIC text))"

section \<open>The status values of the two kinds of extractor\<close>

text \<open>
  \<open>pick_status\<close> answers with the Japanese label of the pattern of \<open>P_STATUS\<close> that
  matched, and \<open>harvest_from_html\<close> stores that label (or the restriction label when
  nothing matched) in the field \<open>status\<close>. \<open>extract_generic_jp\<close> translates the wording
  to one of the three codes before it stores it.
\<close>

definition JP_LABELS :: "pyval set" where
  "JP_LABELS = {PStr s_tsukodome, PStr s_kisei, PStr s_kaijo}"

definition EN_CODES :: "pyval set" where
  "EN_CODES = {PStr (asc ''open''), PStr (asc ''regulated''), PStr (asc ''closed'')}"

section \<open>The events of a Yamanashi detail page\<close>

text \<open>
  The last loop of \<open>parse_yamanashi_kisai\<close>, which turns the names of a page into events.
  The names that the page gives (\<open>raw_names\<close>), the status decided from its text and the
  normaliser \<open>_yn_norm_name\<close> are parameters here. A name whose normalised form is empty is
  skipped, and so is a normalised name that was seen before; a page without names is
  treated as the page with the one empty name.
\<close>

fun kisai_loop :: "(ustr \<Rightarrow> ustr) \<Rightarrow> ustr \<Rightarrow> ustr \<Rightarrow> ustr \<Rightarrow> ustr list \<Rightarrow> ustr list \<Rightarrow> pydict list" where
  "kisai_loop yn_norm_name status url now seen [] = []"
| "kisai_loop yn_norm_name status url now seen (nm # nms) =
     (let norm = yn_norm_name nm in
      if norm = [] then kisai_loop yn_norm_name status url now seen nms
      else if norm \<in> set seen then kisai_loop yn_norm_name status url now seen nms
      else [(''pref'', PStr [0x5C71, 0x68A8, 0x770C]),
            (''pref_code'', PStr (asc ''19'')),
            (''name'', PStr (if nm \<noteq> [] then nm else norm)),
            (''norm_name'', PStr norm),
            (''status'', PStr status),
            (''source_url'', PStr url),
            (''updated_at'', PStr now)]
           # kisai_loop yn_norm_name status url now (norm # seen) nms)"

definition kisai_events :: "(ustr \<Rightarrow> ustr) \<Rightarrow> ustr list \<Rightarrow> ustr \<Rightarrow> ustr \<Rightarrow> ustr \<Rightarrow> pydict list" where
  "kisai_events yn_norm_name raw_names status url now =
     kisai_loop yn_norm_name status url now [] (if raw_names = [] then [[]] else raw_names)"

section \<open>The fingerprint state and \<open>conditional_get\<close>\<close>

text \<open>
  The fingerprint that \<open>run\<close> keeps for a URL is the dictionary with the keys \<open>etag\<close>,
  \<open>last_modified\<close>, \<open>length\<close>, \<open>sha1\<close> and \<open>checked_at\<close>; a key that is missing or
  \<open>None\<close> is \<open>None\<close> here, so the empty dictionary of \<open>state.get(url, {})\<close> is the record
  of five \<open>None\<close>. The state is the dictionary from URLs to fingerprints, in insertion
  order.
\<close>

record fingerprint =
  fp_etag :: "ustr option"
  fp_last_modified :: "ustr option"
  fp_length :: "nat option"
  fp_sha1 :: "ustr option"
  fp_checked_at :: "ustr option"

definition fp_none :: fingerprint where
  "fp_none = \<lparr>fp_etag = None, fp_last_modified = None, fp_length = None, fp_sha1 = None,
              fp_checked_at = None\<rparr>"

type_synonym fpstate = "(ustr \<times> fingerprint) list"

definition state_get :: "fpstate \<Rightarrow> ustr \<Rightarrow> fingerprint" where
  "state_get state url = (case map_of state url of None \<Rightarrow> fp_none | Some st \<Rightarrow> st)"

text \<open>
  A response of the HTTP client: its status code, its headers (the names in lower case, as
  \<open>dict(r.headers)\<close> has them) and its content, a list of bytes. The client is a function
  of the URL and of the headers of the request; \<open>None\<close> is a request that raises.
\<close>

record response =
  status_code :: nat
  headers :: "(string \<times> ustr) list"
  content :: "nat list"

type_synonym client = "ustr \<Rightarrow> (string \<times> ustr) list \<Rightarrow> response option"

definition UA :: ustr where
  "UA = asc ''rindo-monitor/0.6.0''"

definition hdr_get :: "(string \<times> ustr) list \<Rightarrow> string \<Rightarrow> ustr option" where
  "hdr_get h k = map_of h k"

text \<open>The truth value of an optional string: neither \<open>None\<close> nor empty.\<close>

definition nonempty :: "ustr option \<Rightarrow> bool" where
  "nonempty v = (case v of None \<Rightarrow> False | Some s \<Rightarrow> s \<noteq> [])"

text \<open>\<open>(r.headers.get("content-type") or "").lower()\<close>, for a header value in ASCII.\<close>

definition content_type :: "response \<Rightarrow> ustr" where
  "content_type r =
     map lower_ascii (case hdr_get (headers r) ''content-type'' of None \<Rightarrow> [] | Some s \<Rightarrow> s)"

text \<open>\<open>sha1b\<close>: the forty hexadecimal digits of the SHA-1 of the bytes.\<close>

definition sha1b :: "nat list \<Rightarrow> ustr" where
  "sha1b b =
     (case sha1 b of (h0, h1, h2, h3, h4) \<Rightarrow>
        word_hex h0 @ word_hex h1 @ word_hex h2 @ word_hex h3 @ word_hex h4)"

text \<open>The headers that \<open>conditional_get\<close> sends for a fingerprint.\<close>

definition request_headers :: "fingerprint \<Rightarrow> (string \<times> ustr) list" where
  "request_headers st =
     [(''User-Agent'', UA)]
     @ (case fp_etag st of None \<Rightarrow> [] | Some e \<Rightarrow> if e \<noteq> [] then [(''If-None-Match'', e)] else [])
     @ (case fp_last_modified st of
          None \<Rightarrow> []
        | Some m \<Rightarrow> if m \<noteq> [] then [(''If-Modified-Since'', m)] else [])"

text \<open>
  \<open>conditional_get(client, url, st)\<close>: the content type, the body (\<open>None\<close> when the
  request raised, when the server answered 304 and when none of the four comparisons with
  the fingerprint found a change) and the headers of the response. The stored length is an
  integer or \<open>None\<close>, so the comparison of the two \<open>str(...)\<close> is the comparison of the
  values.
\<close>

definition conditional_get ::
  "client \<Rightarrow> ustr \<Rightarrow> fingerprint \<Rightarrow> ustr \<times> nat list option \<times> (string \<times> ustr) list" where
  "conditional_get cl url st =
     (case cl url (request_headers st) of
        None \<Rightarrow> ([], None, [])
      | Some r \<Rightarrow>
          if status_code r = 304 then (content_type r, None, headers r)
          else
            let ct = content_type r;
                body = content r;
                changed =
                  (if nonempty (hdr_get (headers r) ''etag'')
                      \<and> hdr_get (headers r) ''etag'' \<noteq> fp_etag st then True
                   else if nonempty (hdr_get (headers r) ''last-modified'')
                      \<and> hdr_get (headers r) ''last-modified'' \<noteq> fp_last_modified st then True
                   else if Some (length body) \<noteq> fp_length st then True
                   else if Some (sha1b body) \<noteq> fp_sha1 st then True
                   else False)
            in (ct, if changed then Some body else None, headers r))"

section \<open>The crawl of \<open>run\<close>\<close>

text \<open>
  An entry of the registry, with the keys that the loop of \<open>run\<close> reads itself: the
  prefecture (\<open>ag.get("pref") or ""\<close>), the lists \<open>watch\<close> and \<open>auto_seeds\<close> and the depth
  limit \<open>crawl.max_depth\<close>. The other keys (\<open>domains\<close>, \<open>watch_patterns\<close>, the rest of
  \<open>crawl\<close>) are read by the discovery of links only.
\<close>

record agency =
  ag_pref :: ustr
  ag_watch :: "ustr list"
  ag_auto_seeds :: "ustr list"
  ag_max_depth :: nat
  ag_other :: pydict

record target =
  t_pref :: ustr
  t_url :: ustr
  t_agency :: agency
  t_auto :: bool

definition agency_targets :: "agency \<Rightarrow> target list" where
  "agency_targets ag =
     (if ag_watch ag \<noteq> []
      then map (\<lambda>u. \<lparr>t_pref = ag_pref ag, t_url = u, t_agency = ag, t_auto = False\<rparr>) (ag_watch ag)
      else if ag_auto_seeds ag \<noteq> []
      then map (\<lambda>u. \<lparr>t_pref = ag_pref ag, t_url = u, t_agency = ag, t_auto = True\<rparr>) (ag_auto_seeds ag)
      else [])"

text \<open>The targets of a run, cut to the first \<open>limit\<close> when a limit other than zero is given.\<close>

definition build_targets :: "agency list \<Rightarrow> nat option \<Rightarrow> target list" where
  "build_targets agencies limit =
     (let targets = concat (map agency_targets agencies)
      in case limit of
           None \<Rightarrow> targets
         | Some n \<Rightarrow> if n \<noteq> 0 then take n targets else targets)"

text \<open>
  What \<open>run\<close> does with a fetched page between the snapshot and the line that prints the
  number of events (parsing with selectolax, the extractors, the discovery of links, the
  text of a PDF, OCR) is a parameter of the model: for the agency, the flag \<open>auto\<close>, the
  URL, the depth, the content type and the body it gives the events of the page, the links
  found on it, and the value of \<open>url\<close> afterwards (the PDF branch assigns
  \<open>canonical_url(url)\<close> to it), or the exception that the page raises.
\<close>

record page =
  p_events :: "pydict list"
  p_links :: "ustr list"
  p_url :: ustr

type_synonym extractor =
  "agency \<Rightarrow> bool \<Rightarrow> ustr \<Rightarrow> nat \<Rightarrow> ustr \<Rightarrow> nat list \<Rightarrow> py_error + page"

text \<open>
  The world of a run: the HTTP client, the extraction of a page, and the time that
  \<open>now_iso()\<close> prints (one string for the whole run).
\<close>

record world =
  w_client :: client
  w_extract :: extractor
  w_now :: ustr

text \<open>What the loop carries: the fingerprint state, the event store, \<open>total_changes\<close>.\<close>

record crawl =
  c_state :: fpstate
  c_out :: store
  c_changes :: nat

text \<open>
  The fetch of one iteration: \<open>None\<close> when the plain request of a full run raises (the
  iteration ends with \<open>continue\<close>); a full run never has the body \<open>None\<close>.
\<close>

definition fetch ::
  "world \<Rightarrow> bool \<Rightarrow> ustr \<Rightarrow> fingerprint
     \<Rightarrow> (ustr \<times> nat list option \<times> (string \<times> ustr) list) option" where
  "fetch w full url st =
     (if full
      then (case w_client w url [] of
              None \<Rightarrow> None
            | Some r \<Rightarrow> Some (content_type r, Some (content r), headers r))
      else Some (conditional_get (w_client w) url st))"

text \<open>
  One iteration of the \<open>while\<close> loop for a URL that was not seen before; \<open>seen\<close> already
  holds the URL. The result is the new state of the loop and the links to append to the
  queue. An iteration without a body ends before the fingerprint is written. Links are
  collected only when \<open>depth < max_depth\<close>, and only those not seen.
\<close>

definition visit ::
  "world \<Rightarrow> bool \<Rightarrow> bool \<Rightarrow> target \<Rightarrow> ustr \<Rightarrow> nat \<Rightarrow> ustr list \<Rightarrow> crawl
     \<Rightarrow> py_error + crawl \<times> ustr list" where
  "visit w full dry_run t url depth seen c =
     (let st = state_get (c_state c) url
      in case fetch w full url st of
           None \<Rightarrow> Inr (c, [])
         | Some (ct, None, hdr) \<Rightarrow> Inr (c, [])
         | Some (ct, Some body, hdr) \<Rightarrow>
             (case w_extract w (t_agency t) (t_auto t) url depth ct body of
                Inl e \<Rightarrow> Inl e
              | Inr p \<Rightarrow>
                  let more_links =
                        (if depth < ag_max_depth (t_agency t)
                         then filter (\<lambda>u. u \<notin> set seen) (p_links p) else []);
                      fp = \<lparr>fp_etag = hdr_get hdr ''etag'',
                            fp_last_modified = hdr_get hdr ''last-modified'',
                            fp_length = Some (length body),
                            fp_sha1 = Some (sha1b body),
                            fp_checked_at = Some (w_now w)\<rparr>
                  in if p_events p \<noteq> [] \<and> \<not> dry_run
                     then (case merge_events (w_now w) (c_out c) (p_events p) (t_pref t) (PStr (p_url p)) of
                             Inl e \<Rightarrow> Inl e
                           | Inr out \<Rightarrow>
                               Inr (\<lparr>c_state = AList.update (p_url p) fp (c_state c), c_out = out,
                                     c_changes = c_changes c + 1\<rparr>, more_links))
                     else Inr (c\<lparr>c_state := AList.update (p_url p) fp (c_state c)\<rparr>, more_links)))"

text \<open>
  The \<open>while queue\<close> loop of one target. It ends: an iteration removes the head of the
  queue and appends only URLs one level deeper, and none at the depth limit.
\<close>

function crawl_loop ::
  "world \<Rightarrow> bool \<Rightarrow> bool \<Rightarrow> target \<Rightarrow> (ustr \<times> nat) list \<Rightarrow> ustr list \<Rightarrow> crawl
     \<Rightarrow> py_error + crawl" where
  "crawl_loop w full dry_run t [] seen c = Inr c"
| "crawl_loop w full dry_run t ((url, depth) # queue) seen c =
     (if url \<in> set seen then crawl_loop w full dry_run t queue seen c
      else case visit w full dry_run t url depth (url # seen) c of
             Inl e \<Rightarrow> Inl e
           | Inr (c', more_links) \<Rightarrow>
               crawl_loop w full dry_run t (queue @ map (\<lambda>u. (u, depth + 1)) more_links)
                 (url # seen) c')"
  by pat_completeness auto

termination crawl_loop
proof (relation "inv_image (mult {(a, b). a < b})
         (\<lambda>(w, full, dry_run, t, queue, seen, c).
            mset (map (\<lambda>(u, d). ag_max_depth (t_agency t) - d) queue))")
  show "wf (inv_image (mult {(a :: nat, b). a < b})
         (\<lambda>(w, full, dry_run, t, queue, seen, c).
            mset (map (\<lambda>(u, d). ag_max_depth (t_agency t) - d) queue)))"
    using wf_less by (intro wf_inv_image wf_mult)
next
  fix w :: world and full dry_run :: bool and t :: target and url :: ustr and depth :: nat
    and queue :: "(ustr \<times> nat) list" and seen :: "ustr list" and c :: crawl
  let ?f = "\<lambda>(u :: ustr, d). ag_max_depth (t_agency t) - d"
  have e: "mset (map ?f ((url, depth) # queue)) = mset (map ?f queue) + {#?f (url, depth)#}"
    by simp
  have "(mset (map ?f queue) + {#}, mset (map ?f queue) + {#?f (url, depth)#}) \<in> mult {(a, b). a < b}"
    by (rule one_step_implies_mult) auto
  then have "(mset (map ?f queue), mset (map ?f ((url, depth) # queue))) \<in> mult {(a, b). a < b}"
    unfolding e by simp
  then show "((w, full, dry_run, t, queue, seen, c), (w, full, dry_run, t, (url, depth) # queue, seen, c))
      \<in> inv_image (mult {(a, b). a < b})
         (\<lambda>(w, full, dry_run, t, queue, seen, c).
            mset (map (\<lambda>(u, d). ag_max_depth (t_agency t) - d) queue))"
    unfolding in_inv_image prod.case .
next
  fix w :: world and full dry_run :: bool and t :: target and url :: ustr and depth :: nat
    and queue :: "(ustr \<times> nat) list" and seen :: "ustr list" and c :: crawl
    and x2 :: "crawl \<times> ustr list" and c' :: crawl and more_links :: "ustr list"
  assume v: "visit w full dry_run t url depth (url # seen) c = Inr x2" and x: "(c', more_links) = x2"
  let ?f = "\<lambda>(u :: ustr, d). ag_max_depth (t_agency t) - d"
  let ?new = "map (\<lambda>u. (u, depth + 1)) more_links"
  have e: "mset (map ?f ((url, depth) # queue)) = mset (map ?f queue) + {#?f (url, depth)#}"
    by simp
  have e': "mset (map ?f (queue @ ?new)) = mset (map ?f queue) + mset (map ?f ?new)"
    by (simp only: map_append mset_append)
  have k: "\<forall>k \<in> set_mset (mset (map ?f ?new)). \<exists>j \<in> set_mset {#?f (url, depth)#}. (k, j) \<in> {(a, b). a < b}"
  proof (cases "more_links = []")
    case True
    then show ?thesis by simp
  next
    case False
    with v x have "depth < ag_max_depth (t_agency t)"
      by (auto simp: visit_def Let_def split: option.splits prod.splits sum.splits if_splits)
    then show ?thesis by auto
  qed
  have "(mset (map ?f queue) + mset (map ?f ?new), mset (map ?f queue) + {#?f (url, depth)#})
          \<in> mult {(a, b). a < b}"
    using k by (intro one_step_implies_mult) simp_all
  then have "(mset (map ?f (queue @ ?new)), mset (map ?f ((url, depth) # queue))) \<in> mult {(a, b). a < b}"
    unfolding e e' .
  then show "((w, full, dry_run, t, queue @ map (\<lambda>u. (u, depth + 1)) more_links, url # seen, c'),
              (w, full, dry_run, t, (url, depth) # queue, seen, c))
      \<in> inv_image (mult {(a, b). a < b})
         (\<lambda>(w, full, dry_run, t, queue, seen, c).
            mset (map (\<lambda>(u, d). ag_max_depth (t_agency t) - d) queue))"
    unfolding in_inv_image prod.case .
qed

text \<open>The loop over the targets; each has its own queue and its own set \<open>seen\<close>.\<close>

fun crawl_targets :: "world \<Rightarrow> bool \<Rightarrow> bool \<Rightarrow> target list \<Rightarrow> crawl \<Rightarrow> py_error + crawl" where
  "crawl_targets w full dry_run [] c = Inr c"
| "crawl_targets w full dry_run (t # ts) c =
     (case crawl_loop w full dry_run t [(t_url t, 0)] [] c of
        Inl e \<Rightarrow> Inl e
      | Inr c' \<Rightarrow> crawl_targets w full dry_run ts c')"

section \<open>The persisted documents and \<open>run\<close>\<close>

text \<open>
  A persisted document is unreadable (the file is missing or cannot be read, or its
  content is not JSON) or has a content. \<open>load_json\<close> answers the default of its caller
  for an unreadable one: it catches every exception.
\<close>

datatype 'a json_file = Unreadable | Content 'a

definition load_json :: "'a json_file \<Rightarrow> 'a \<Rightarrow> 'a" where
  "load_json p dflt = (case p of Unreadable \<Rightarrow> dflt | Content v \<Rightarrow> v)"

record disk =
  reg_file :: "agency list json_file"
  state_file :: "fpstate json_file"
  out_file :: "store json_file"

text \<open>The documents that a run saves, with \<open>save_json\<close>, which is taken to succeed.\<close>

record saved =
  saved_out :: "store option"
  saved_state :: "fpstate option"

text \<open>
  \<open>run(dry_run, full, limit)\<close>. A run without targets returns before it saves anything; an
  exception of the crawl ends the run before the two calls of \<open>save_json\<close>, which are its
  last statements.
\<close>

definition run :: "world \<Rightarrow> bool \<Rightarrow> bool \<Rightarrow> nat option \<Rightarrow> disk \<Rightarrow> py_error + saved" where
  "run w dry_run full limit d =
     (let agencies = load_json (reg_file d) [];
          state = load_json (state_file d) [];
          out = load_json (out_file d) \<lparr>updated = PStr (w_now w), events = []\<rparr>;
          targets = build_targets agencies limit
      in if targets = [] then Inr \<lparr>saved_out = None, saved_state = None\<rparr>
         else case crawl_targets w full dry_run targets \<lparr>c_state = state, c_out = out, c_changes = 0\<rparr> of
                Inl e \<Rightarrow> Inl e
              | Inr c \<Rightarrow>
                  Inr \<lparr>saved_out = (if \<not> dry_run \<and> c_changes c \<noteq> 0 then Some (c_out c) else None),
                       saved_state = Some (c_state c)\<rparr>)"

section \<open>Example events\<close>

text \<open>
  The road Oyama of Yamanashi prefecture, reported by one page, and the empty store.
\<close>

definition s_oyama :: ustr where
  "s_oyama = [0x5927, 0x5C71]"

definition s_yamanashi_ken :: ustr where
  "s_yamanashi_ken = [0x5C71, 0x68A8, 0x770C]"

definition ev_oyama :: "ustr \<Rightarrow> pydict" where
  "ev_oyama st = [(''name'', PStr (s_oyama @ s_rindo)), (''norm_name'', PStr s_oyama), (''status'', PStr st)]"

definition store0 :: store where
  "store0 = \<lparr>updated = PNone, events = []\<rparr>"

definition src0 :: ustr where
  "src0 = asc ''https://example.jp/rindo.html?area_id=3#top''"

definition canon0 :: ustr where
  "canon0 = asc ''https://example.jp/rindo.html''"

text \<open>The id of the events that report Oyama from that page.\<close>

definition ex_eid :: ustr where
  "ex_eid = projr (make_event_id s_yamanashi_ken s_oyama canon0)"

text \<open>
  A page with one table (a header row with a name column and a status column, and the row
  of Oyama, closed), and the same page with a paragraph that reports the road Komorigawa
  as restricted. The lines of the whole document are the texts of the cells, then the
  paragraph.
\<close>

definition s_komorigawa :: ustr where
  "s_komorigawa = [0x5C0F, 0x68EE, 0x5DDD]"

definition ex_para :: ustr where
  "ex_para = s_komorigawa @ s_rindo @ [0x20] @ s_kisei"

definition ex_rows :: "ustr list list" where
  "ex_rows = [[[0x8DEF, 0x7DDA, 0x540D], [0x72B6, 0x6CC1]], [s_oyama @ s_rindo, s_tsukodome]]"

definition doc_table :: html_doc where
  "doc_table = \<lparr>tables = [ex_rows], li_texts = [], p_texts = [], body_lines = concat ex_rows\<rparr>"

definition doc_mixed :: html_doc where
  "doc_mixed = \<lparr>tables = [ex_rows], li_texts = [], p_texts = [ex_para], body_lines = concat ex_rows @ [ex_para]\<rparr>"

text \<open>
  A page that reports the road Kyu-kido-sen as closed, in a table row and in a paragraph.
\<close>

definition s_kyukido :: ustr where
  "s_kyukido = [0x65E7, 0x8ECC, 0x9053]"

definition kk_line :: ustr where
  "kk_line = s_kyukido @ s_sen @ s_rindo @ [0x20] @ s_tsukodome"

definition kk_rows :: "ustr list list" where
  "kk_rows = [[[0x8DEF, 0x7DDA, 0x540D], [0x72B6, 0x6CC1]], [s_kyukido @ s_sen @ s_rindo, s_tsukodome]]"

definition doc_kyukido :: html_doc where
  "doc_kyukido = \<lparr>tables = [kk_rows], li_texts = [], p_texts = [kk_line], body_lines = concat kk_rows @ [kk_line]\<rparr>"

text \<open>
  A run on one agency that watches one page. The page is the HTML text \<open>html0\<close>, which
  holds the table of \<open>doc_table\<close> and nothing else; its host is not one of Yamanashi. The
  server answers 304 to a request with the entity tag of the page, and the page otherwise.
  The extraction of this world gives for the bytes of the page, served as HTML, the events
  that \<open>harvest_from_html\<close> finds in the table, and no events for any other body; it finds
  no links. The state holds a fingerprint of the page from an earlier run.
\<close>

definition etag1 :: ustr where
  "etag1 = asc ''v1''"

definition html0 :: ustr where
  "html0 = asc ''<table><tr><th>'' @ [0x8DEF, 0x7DDA, 0x540D] @ asc ''</th><th>'' @ [0x72B6, 0x6CC1]
           @ asc ''</th></tr><tr><td>'' @ s_oyama @ s_rindo @ asc ''</td><td>'' @ s_tsukodome
           @ asc ''</td></tr></table>''"

definition body0 :: "nat list" where
  "body0 = (case utf8_encode html0 of Inl e \<Rightarrow> [] | Inr bs \<Rightarrow> bs)"

definition time0 :: ustr where
  "time0 = asc ''2025-01-01T09:00:00+09:00''"

definition time1 :: ustr where
  "time1 = asc ''2025-01-02T09:00:00+09:00''"

definition agency0 :: agency where
  "agency0 = \<lparr>ag_pref = s_yamanashi_ken, ag_watch = [src0], ag_auto_seeds = [], ag_max_depth = 1,
               ag_other = []\<rparr>"

definition target0 :: target where
  "target0 = \<lparr>t_pref = s_yamanashi_ken, t_url = src0, t_agency = agency0, t_auto = False\<rparr>"

definition fp0 :: fingerprint where
  "fp0 = \<lparr>fp_etag = Some etag1, fp_last_modified = None, fp_length = Some (length body0),
           fp_sha1 = Some (sha1b body0), fp_checked_at = Some time0\<rparr>"

definition resp304 :: response where
  "resp304 = \<lparr>status_code = 304, headers = [(''etag'', etag1)], content = []\<rparr>"

definition resp200 :: response where
  "resp200 = \<lparr>status_code = 200,
               headers = [(''content-type'', asc ''text/html; charset=UTF-8''), (''etag'', etag1)],
               content = body0\<rparr>"

definition client0 :: client where
  "client0 url hdrs =
     (if url = src0
      then (if map_of hdrs ''If-None-Match'' = Some etag1 then Some resp304 else Some resp200)
      else None)"

definition extract0 :: extractor where
  "extract0 ag auto url depth ct body =
     (if str_in (asc ''text/html'') ct \<and> body = body0
      then Inr \<lparr>p_events = harvest_from_html doc_table, p_links = [], p_url = url\<rparr>
      else Inr \<lparr>p_events = [], p_links = [], p_url = url\<rparr>)"

definition world0 :: world where
  "world0 = \<lparr>w_client = client0, w_extract = extract0, w_now = time1\<rparr>"

definition crawl0 :: crawl where
  "crawl0 = \<lparr>c_state = [(src0, fp0)], c_out = store0, c_changes = 0\<rparr>"

definition disk_seen :: disk where
  "disk_seen = \<lparr>reg_file = Content [agency0], state_file = Content [(src0, fp0)],
                 out_file = Content store0\<rparr>"

definition disk_lost :: disk where
  "disk_lost = \<lparr>reg_file = Content [agency0], state_file = Unreadable, out_file = Unreadable\<rparr>"
section \<open>Facts about searching, deleting and replacing\<close>

lemmas lits = s_kisei_def s_kaijo_def s_tsukodome_def s_zenmen_def s_zensen_def s_me_def s_tsuko_kisei_def s_katagawa_kogo_def s_ogatasha_tsukodome_def s_tsukoka_def s_tsukokano_def
  s_rindo_def s_shinrin_kanrido_def s_sen_def s_sen_kana_def s_dou_def s_kisei_wa_arimasen_def s_kisei_nashi_def s_zenmen_tsukodome_def
  s_katagawa_def s_kogo_def s_ukai_def s_ukai_kana_def s_chain_def s_kaiho_def asc_def

lemmas norm_ev = norm_rindo_name_def re_sub_del_def py_replace_def RX_BLANK_def RX_TAIL_def RX_PUNCT_def is_space_def is_name_punct_def re_search_def

lemma str_in_iff: "str_in l s = (\<exists>p q. s = p @ l @ q)"
proof (induction s)
  case Nil
  then show ?case by auto
next
  case (Cons x xs)
  show ?case
  proof
    assume "str_in l (x # xs)"
    then consider "take (length l) (x # xs) = l" | "str_in l xs" by auto
    then show "\<exists>p q. x # xs = p @ l @ q"
    proof cases
      case 1
      then have "x # xs = [] @ l @ drop (length l) (x # xs)"
        by (metis append_Nil append_take_drop_id)
      then show ?thesis by blast
    next
      case 2
      then obtain p q where "xs = p @ l @ q" using Cons.IH by auto
      then have "x # xs = (x # p) @ l @ q" by simp
      then show ?thesis by blast
    qed
  next
    assume "\<exists>p q. x # xs = p @ l @ q"
    then obtain p q where pq: "x # xs = p @ l @ q" by auto
    show "str_in l (x # xs)"
    proof (cases p)
      case Nil
      then have "take (length l) (x # xs) = l" using pq by simp
      then show ?thesis by simp
    next
      case (Cons y ys)
      then have "xs = ys @ l @ q" using pq by simp
      then have "str_in l xs" using Cons.IH by blast
      then show ?thesis by simp
    qed
  qed
qed

lemma str_in_set: "str_in l s \<Longrightarrow> set l \<subseteq> set s"
  by (auto simp: str_in_iff)

lemma rmatch_lits_empty:
  "(rmatch (Alts (map Lit ls)) (b, s, c) = []) = (\<forall>l\<in>set ls. take (length l) s \<noteq> l)"
  by (induction ls) auto

lemma rmatch_grp_empty: "(rmatch (Grp g a) st = []) = (rmatch a st = [])"
  by (cases st) simp

lemma rmatch_glits_empty:
  "(rmatch (Grp g (Alts (map Lit ls))) (b, s, c) = []) = (\<forall>l\<in>set ls. take (length l) s \<noteq> l)"
  using rmatch_lits_empty [of ls b s c] rmatch_grp_empty [of g "Alts (map Lit ls)" "(b, s, c)"]
  by simp

lemma search_from_Nil:
  "(search_from r b [] = None) = (rmatch r (b, [], []) = [])"
  by (simp split: list.splits)

lemma search_from_Cons:
  "(search_from r b (x # xs) = None) = (rmatch r (b, x # xs, []) = [] \<and> search_from r (x # b) xs = None)"
  by (simp split: list.splits)

lemma search_lits:
  "(search_from (Grp g (Alts (map Lit ls))) b s = None) = (\<forall>l\<in>set ls. \<not> str_in l s)"
proof (induction s arbitrary: b)
  case Nil
  show ?case
    unfolding search_from_Nil rmatch_glits_empty by auto
next
  case (Cons x xs)
  show ?case
    unfolding search_from_Cons rmatch_glits_empty Cons.IH by auto
qed

lemma re_search_lits:
  "re_search (Grp g (Alts (map Lit ls))) s = (\<exists>l\<in>set ls. str_in l s)"
  using search_lits [of g ls "[]" s] by (auto simp: re_search_def)

lemma sub_go_cls: "sub_go (Cls p) 0 b s = filter (\<lambda>c. \<not> p c) s"
  by (induction s arbitrary: b) auto

lemma re_sub_del_cls: "re_sub_del (Cls p) s = filter (\<lambda>c. \<not> p c) s"
  by (simp add: re_sub_del_def sub_go_cls)

lemma sub_go_set: "set (sub_go r k b s) \<subseteq> set s"
proof (induction s arbitrary: k b)
  case Nil
  show ?case by simp
next
  case (Cons x xs)
  show ?case
  proof (cases k)
    case 0
    then show ?thesis using Cons.IH by (auto split: list.splits)
  next
    case (Suc n)
    then show ?thesis using Cons.IH by auto
  qed
qed

lemma sub_go_none: "search_from r b s = None \<Longrightarrow> sub_go r 0 b s = s"
proof (induction s arbitrary: b)
  case Nil
  show ?case by simp
next
  case (Cons x xs)
  then show ?case unfolding search_from_Cons by simp
qed

lemma re_sub_del_none:
  assumes "\<not> re_search r s"
  shows "re_sub_del r s = s"
proof -
  have "search_from r [] s = None" using assms unfolding re_search_def by blast
  then show ?thesis unfolding re_sub_del_def by (rule sub_go_none)
qed

lemma replace_go_none: "\<not> str_in old s \<Longrightarrow> replace_go old new 0 s = s"
  by (induction s) auto

lemma replace_go_set: "set (replace_go old [] k s) \<subseteq> set s"
proof (induction s arbitrary: k)
  case Nil
  show ?case by simp
next
  case (Cons x xs)
  show ?case
  proof (cases k)
    case 0
    then show ?thesis using Cons.IH by auto
  next
    case (Suc n)
    then show ?thesis using Cons.IH by auto
  qed
qed

lemma py_replace_none: "\<not> str_in old s \<Longrightarrow> py_replace old new s = s"
proof (cases "old = []")
  case True
  assume "\<not> str_in old s"
  then have False using True by (cases s) auto
  then show ?thesis ..
next
  case False
  assume "\<not> str_in old s"
  then show ?thesis using False by (simp add: py_replace_def replace_go_none)
qed

lemma py_replace_set: "old \<noteq> [] \<Longrightarrow> set (py_replace old [] s) \<subseteq> set s"
  by (simp add: py_replace_def replace_go_set)

lemma rmatch_tail_first:
  "rmatch RX_TAIL (b, s, c) \<noteq> [] \<Longrightarrow> s \<noteq> [] \<and> 128 \<le> hd s"
  by (cases s) (auto simp: RX_TAIL_def s_sen_def s_sen_kana_def s_dou_def split: if_splits)

lemma search_tail_nonascii:
  "search_from RX_TAIL b s \<noteq> None \<Longrightarrow> \<exists>c\<in>set s. 128 \<le> c"
proof (induction s arbitrary: b)
  case Nil
  then show ?case using rmatch_tail_first [of b "[]" "[]"] unfolding search_from_Nil by auto
next
  case (Cons x xs)
  show ?case
  proof (cases "rmatch RX_TAIL (b, x # xs, []) = []")
    case True
    then have "search_from RX_TAIL (x # b) xs \<noteq> None"
      using Cons.prems unfolding search_from_Cons by simp
    then show ?thesis using Cons.IH by auto
  next
    case False
    then show ?thesis using rmatch_tail_first [of b "x # xs" "[]"] by auto
  qed
qed

lemma norm_rindo_name_chars:
  "set (norm_rindo_name x) \<subseteq> {c \<in> set x. \<not> is_name_punct c \<and> \<not> (c = 0x3000 \<or> is_space c)}"
proof (cases "x = []")
  case True
  then show ?thesis by (simp add: norm_rindo_name_def)
next
  case False
  let ?t1 = "re_sub_del RX_BLANK x"
  let ?t2 = "py_replace s_shinrin_kanrido [] (py_replace s_rindo [] ?t1)"
  let ?t3 = "re_sub_del RX_TAIL ?t2"
  have e: "norm_rindo_name x = filter (\<lambda>c. \<not> is_name_punct c) ?t3"
    using False by (simp add: norm_rindo_name_def Let_def RX_PUNCT_def re_sub_del_cls)
  have s1: "?t1 = filter (\<lambda>c. \<not> (c = 0x3000 \<or> is_space c)) x"
    by (simp add: RX_BLANK_def re_sub_del_cls)
  have s2: "set ?t2 \<subseteq> set ?t1"
    using py_replace_set [of s_shinrin_kanrido "py_replace s_rindo [] ?t1"]
          py_replace_set [of s_rindo ?t1]
    by (auto simp: s_shinrin_kanrido_def s_rindo_def)
  have s3: "set ?t3 \<subseteq> set ?t2"
    by (simp add: re_sub_del_def sub_go_set)
  show ?thesis
    unfolding e using s1 s2 s3 by auto
qed

lemma norm_rindo_name_fix:
  assumes y: "\<forall>c\<in>set y. \<not> is_name_punct c \<and> \<not> (c = 0x3000 \<or> is_space c)"
    and r: "\<not> str_in s_rindo y" and k: "\<not> str_in s_shinrin_kanrido y"
    and t: "\<not> re_search RX_TAIL y"
  shows "norm_rindo_name y = y"
proof (cases "y = []")
  case True
  then show ?thesis by (simp add: norm_rindo_name_def)
next
  case False
  have b: "re_sub_del RX_BLANK y = y"
    using y by (simp add: RX_BLANK_def re_sub_del_cls filter_id_conv)
  have p: "re_sub_del RX_PUNCT y = y"
    using y by (simp add: RX_PUNCT_def re_sub_del_cls filter_id_conv)
  have tl: "re_sub_del RX_TAIL y = y"
    using t by (rule re_sub_del_none)
  show ?thesis
    using False by (simp add: norm_rindo_name_def b p tl py_replace_none r k)
qed

lemma ascii_no_lit: "\<forall>c\<in>set y. c < 128 \<Longrightarrow> \<exists>c\<in>set l. 128 \<le> c \<Longrightarrow> \<not> str_in l y"
  using str_in_set [of l y] by fastforce

section \<open>Facts about the merge\<close>

lemma sha1_hex16_length: "length (sha1_hex16 m) = 16"
  by (simp add: sha1_hex16_def word_hex_def split: prod.splits)

lemma sha1_hex16_nonempty: "sha1_hex16 m \<noteq> []"
  using sha1_hex16_length [of m] by auto

lemma build_idx_fold_bound:
  "fold (\<lambda>(i, e) m. if truthy (dget e ''id'') then m(dget e ''id'' \<mapsto> i) else m) (enumerate n es) m0 k = Some i
   \<Longrightarrow> (m0 k = Some i) \<or> (n \<le> i \<and> i < n + length es)"
proof (induction es arbitrary: n m0)
  case Nil
  then show ?case by simp
next
  case (Cons e es)
  from Cons.prems Cons.IH [of "Suc n" "if truthy (dget e ''id'') then m0(dget e ''id'' \<mapsto> n) else m0"]
  show ?case by (auto split: if_splits)
qed

lemma build_idx_bound: "build_idx es k = Some i \<Longrightarrow> i < length es"
  using build_idx_fold_bound [of 0 es Map.empty k i] by (simp add: build_idx_def)

lemma map_of_dict_update:
  "map_of (dict_update d new) = fold (\<lambda>(k, v) m. m(k \<mapsto> v)) new (map_of d)"
  unfolding dict_update_def
  by (induction new arbitrary: d) (auto simp: update_conv')

lemma fold_upd_distinct:
  "distinct (map fst new) \<Longrightarrow> fold (\<lambda>(k, v) m. m(k \<mapsto> v)) new m0 = m0 ++ map_of new"
proof (induction new arbitrary: m0)
  case Nil
  show ?case by simp
next
  case (Cons p new)
  obtain k v where p: "p = (k, v)" by (cases p)
  have "k \<notin> fst ` set new" using Cons.prems p by auto
  then have n: "k \<notin> dom (map_of new)" by (simp add: dom_map_of_conv_image_fst)
  have d: "distinct (map fst new)" using Cons.prems by simp
  have "fold (\<lambda>(k, v) m. m(k \<mapsto> v)) (p # new) m0 = fold (\<lambda>(k, v) m. m(k \<mapsto> v)) new (m0(k \<mapsto> v))"
    unfolding p by simp
  also have "\<dots> = (m0(k \<mapsto> v)) ++ map_of new" by (rule Cons.IH [OF d])
  also have "\<dots> = (m0 ++ map_of new)(k \<mapsto> v)" by (rule map_add_upd_left [OF n])
  also have "\<dots> = m0 ++ map_of (p # new)" unfolding p by (simp only: map_of.simps fst_conv snd_conv map_add_upd)
  finally show ?case .
qed

lemma map_of_filter_vals:
  "distinct (map fst xs) \<Longrightarrow>
   map_of (filter (\<lambda>(k, v). Q v) xs) k =
     (case map_of xs k of None \<Rightarrow> None | Some v \<Rightarrow> if Q v then Some v else None)"
proof (induction xs)
  case Nil
  show ?case by simp
next
  case (Cons p xs)
  obtain k' v' where p: "p = (k', v')" by (cases p)
  have n: "map_of xs k' = None" using Cons.prems p by (simp add: map_of_eq_None_iff)
  show ?case using Cons p n by (auto split: option.splits)
qed

lemma dget_dict_update_filter:
  assumes "distinct (map fst new)"
  shows "dget (dict_update d (filter (\<lambda>(k, v). v \<noteq> PNone) new)) k =
           (if dget new k \<noteq> PNone then dget new k else dget d k)"
proof -
  have d: "distinct (map fst (filter (\<lambda>(k, v). v \<noteq> PNone) new))"
    using assms by (simp add: distinct_map_filter)
  show ?thesis
    unfolding dget_def map_of_dict_update fold_upd_distinct [OF d] map_add_def
      map_of_filter_vals [OF assms, of "\<lambda>v. v \<noteq> PNone"]
    by (simp split: option.splits)
qed

lemma payload_distinct: "distinct (map fst (payload now pref ev src eid))"
  by (simp add: payload_def)

lemma dget_dict_update_payload:
  "dget (dict_update d (filter (\<lambda>(k, v). v \<noteq> PNone) (payload now pref ev src eid))) k =
     (if dget (payload now pref ev src eid) k \<noteq> PNone then dget (payload now pref ev src eid) k
      else dget d k)"
  by (rule dget_dict_update_filter [OF payload_distinct])

lemma payload_status: "dget (payload now pref ev src eid) ''status'' = dget ev ''status''"
  by (simp add: payload_def dget_def)

lemma payload_updated_at: "dget (payload now pref ev src eid) ''updated_at'' = PStr now"
  by (simp add: payload_def dget_def)

lemma payload_norm_name: "dget (payload now pref ev src eid) ''norm_name'' = ev_norm ev"
  by (simp add: payload_def dget_def)

lemma payload_id: "dget (payload now pref ev src eid) ''id'' = PStr eid"
  by (simp add: payload_def dget_def)

lemmas url_ev = canonical_url_def urlsplit_def is_alpha_def is_scheme_char_def is_ascii_digit_def
  lower_ascii_def in_netloc_def nfkc_delims_def parse_qsl_def parse_field_def unquote_plus_def
  urlencode_def urlunsplit_def uses_netloc_def utf8_encode_char_def quote_byte_def is_unreserved_def
  is_hex_def hexval_def hex_digit_def is_cont_def Let_def

lemmas merge_ev = merge_events_def merge_one_def build_idx_def ev_raw_name_def ev_norm_def
  norm_of_pyval_def str_of_def ev_source_def payload_def py_or_def dget_def dict_update_def
  pref_code_of_def PREF_NAME2CODE_def

lemmas ex_ev = s_oyama_def s_yamanashi_ken_def ev_oyama_def store0_def

lemma canon_src0: "canonical_url src0 = Inr canon0"
  by (simp add: src0_def canon0_def url_ev asc_def)

lemmas id_ev = ex_eid_def make_event_id_def utf8_encode_char_def canon0_def sha1_hex16_nonempty

lemma merge_one_existing:
  assumes "event_id_of pref source_url ev = Inr (Some eid)" and "idx (PStr eid) = Some i"
  shows "\<exists>src. merge_one now pref source_url idx es ev =
           Inr (es[i := dict_update (es ! i) (filter (\<lambda>(k, v). v \<noteq> PNone) (payload now pref ev src eid))])"
  using assms
  by (auto simp: event_id_of_def merge_one_def split: if_splits sum.splits)

lemma merge_one_overwrites_non_null:
  assumes "event_id_of pref source_url ev = Inr (Some eid)" and "idx (PStr eid) = Some i"
    and "i < length es"
  shows "\<exists>src es'. merge_one now pref source_url idx es ev = Inr es' \<and> length es' = length es
           \<and> (\<forall>j. j \<noteq> i \<longrightarrow> es' ! j = es ! j)
           \<and> (\<forall>k. dget (es' ! i) k =
                  (if dget (payload now pref ev src eid) k \<noteq> PNone
                   then dget (payload now pref ev src eid) k else dget (es ! i) k))
           \<and> dget (es' ! i) ''updated_at'' = PStr now"
proof -
  have "\<exists>src. merge_one now pref source_url idx es ev =
           Inr (es[i := dict_update (es ! i) (filter (\<lambda>(k, v). v \<noteq> PNone) (payload now pref ev src eid))])"
    using assms(1,2) by (rule merge_one_existing)
  then obtain src where
    m: "merge_one now pref source_url idx es ev =
          Inr (es[i := dict_update (es ! i) (filter (\<lambda>(k, v). v \<noteq> PNone) (payload now pref ev src eid))])"
    by blast
  let ?es' = "es[i := dict_update (es ! i) (filter (\<lambda>(k, v). v \<noteq> PNone) (payload now pref ev src eid))]"
  have a: "length ?es' = length es" by simp
  have b: "\<forall>j. j \<noteq> i \<longrightarrow> ?es' ! j = es ! j" by simp
  have e: "?es' ! i = dict_update (es ! i) (filter (\<lambda>(k, v). v \<noteq> PNone) (payload now pref ev src eid))"
    using assms(3) by simp
  have c: "\<forall>k. dget (?es' ! i) k =
                  (if dget (payload now pref ev src eid) k \<noteq> PNone
                   then dget (payload now pref ev src eid) k else dget (es ! i) k)"
    unfolding e by (simp add: dget_dict_update_payload)
  have d: "dget (?es' ! i) ''updated_at'' = PStr now"
    using c by (simp add: payload_updated_at)
  show ?thesis using m a b c d by blast
qed


lemma merge_loop_last_status:
  assumes "idx (PStr eid) = Some i" and "i < length es"
    and "\<forall>ev\<in>set evs. event_id_of pref source_url ev = Inr (Some eid)"
  shows "\<exists>es'. merge_loop now pref source_url idx es evs = Inr es' \<and> length es' = length es
           \<and> dget (es' ! i) ''status'' = last_status (dget (es ! i) ''status'') evs
           \<and> (\<forall>j. j \<noteq> i \<longrightarrow> es' ! j = es ! j)"
  using assms(2,3)
proof (induction evs arbitrary: es)
  case Nil
  show ?case by (simp add: last_status_def)
next
  case (Cons ev evs)
  have id: "event_id_of pref source_url ev = Inr (Some eid)" using Cons.prems(2) by simp
  have "\<exists>src es'. merge_one now pref source_url idx es ev = Inr es' \<and> length es' = length es
           \<and> (\<forall>j. j \<noteq> i \<longrightarrow> es' ! j = es ! j)
           \<and> (\<forall>k. dget (es' ! i) k =
                  (if dget (payload now pref ev src eid) k \<noteq> PNone
                   then dget (payload now pref ev src eid) k else dget (es ! i) k))
           \<and> dget (es' ! i) ''updated_at'' = PStr now"
    using id assms(1) Cons.prems(1) by (rule merge_one_overwrites_non_null)
  then obtain src es1 where m: "merge_one now pref source_url idx es ev = Inr es1"
    and l: "length es1 = length es"
    and o: "\<forall>j. j \<noteq> i \<longrightarrow> es1 ! j = es ! j"
    and s: "dget (es1 ! i) ''status'' =
              (if dget (payload now pref ev src eid) ''status'' \<noteq> PNone
               then dget (payload now pref ev src eid) ''status'' else dget (es ! i) ''status'')"
    by blast
  have s': "dget (es1 ! i) ''status'' =
              (if dget ev ''status'' = PNone then dget (es ! i) ''status'' else dget ev ''status'')"
    using s by (simp add: payload_status)
  have i1: "i < length es1" using l Cons.prems(1) by simp
  from Cons.IH [OF i1] Cons.prems(2)
  obtain es' where r: "merge_loop now pref source_url idx es1 evs = Inr es'"
    and l': "length es' = length es1"
    and t: "dget (es' ! i) ''status'' = last_status (dget (es1 ! i) ''status'') evs"
    and o': "\<forall>j. j \<noteq> i \<longrightarrow> es' ! j = es1 ! j"
    by auto
  have "merge_loop now pref source_url idx es (ev # evs) = Inr es'" using m r by simp
  moreover have "length es' = length es" using l l' by simp
  moreover have "dget (es' ! i) ''status'' = last_status (dget (es ! i) ''status'') (ev # evs)"
    unfolding t s' by (simp add: last_status_def)
  moreover have "\<forall>j. j \<noteq> i \<longrightarrow> es' ! j = es ! j" using o o' by simp
  ultimately show ?case by blast
qed

text \<open>
  The index of a call maps an id to a position of the store whose record has that id, and
  the loop keeps it so. The cases of one turn of the loop, and what a turn and the whole
  loop do to a field of the records.
\<close>

lemma build_idx_fold_id:
  "fold (\<lambda>(i, e) m. if truthy (dget e ''id'') then m(dget e ''id'' \<mapsto> i) else m) (enumerate n es) m0 k = Some i
   \<Longrightarrow> (m0 k = Some i) \<or> (n \<le> i \<and> i < n + length es \<and> dget (es ! (i - n)) ''id'' = k)"
proof (induction es arbitrary: n m0)
  case Nil
  then show ?case by simp
next
  case (Cons e es)
  let ?m1 = "if truthy (dget e ''id'') then m0(dget e ''id'' \<mapsto> n) else m0"
  from Cons.prems have "fold (\<lambda>(i, e) m. if truthy (dget e ''id'') then m(dget e ''id'' \<mapsto> i) else m)
      (enumerate (Suc n) es) ?m1 k = Some i" by simp
  from Cons.IH [OF this]
  have "?m1 k = Some i \<or> (Suc n \<le> i \<and> i < Suc n + length es \<and> dget (es ! (i - Suc n)) ''id'' = k)" .
  then show ?case
  proof
    assume "?m1 k = Some i"
    then show ?thesis by (auto split: if_splits)
  next
    assume a: "Suc n \<le> i \<and> i < Suc n + length es \<and> dget (es ! (i - Suc n)) ''id'' = k"
    then have "(e # es) ! (i - n) = es ! (i - Suc n)" by (simp add: nth_Cons')
    then show ?thesis using a by auto
  qed
qed

lemma build_idx_id: "build_idx es k = Some i \<Longrightarrow> dget (es ! i) ''id'' = k"
  using build_idx_fold_id [of 0 es Map.empty k i] by (simp add: build_idx_def)

lemma merge_one_cases:
  assumes "merge_one now pref source_url idx es ev = Inr es'"
  obtains (discard) "\<not> (truthy (ev_raw_name ev) \<or> truthy (ev_norm ev))" and "es' = es"
  | (append) src eid where "event_id_of pref source_url ev = Inr (Some eid)"
      and "idx (PStr eid) = None" and "es' = es @ [payload now pref ev src eid]"
  | (update) src eid i where "event_id_of pref source_url ev = Inr (Some eid)"
      and "idx (PStr eid) = Some i"
      and "es' = es[i := dict_update (es ! i) (filter (\<lambda>(k, v). v \<noteq> PNone) (payload now pref ev src eid))]"
  using assms
  by (auto simp: merge_one_def event_id_of_def split: if_splits sum.splits option.splits)

lemma merge_one_named:
  assumes "merge_one now pref source_url idx es ev = Inr es'"
    and "truthy (ev_raw_name ev) \<or> truthy (ev_norm ev)"
  shows "\<exists>eid. event_id_of pref source_url ev = Inr (Some eid)"
  using assms
  by (auto simp: merge_one_def event_id_of_def split: if_splits sum.splits option.splits)

lemma merge_one_inv:
  assumes "merge_one now pref source_url idx es ev = Inr es'"
    and "\<forall>k i. idx k = Some i \<longrightarrow> i < length es \<and> dget (es ! i) ''id'' = k"
  shows "\<forall>k i. idx k = Some i \<longrightarrow> i < length es' \<and> dget (es' ! i) ''id'' = k"
  using assms(1)
proof (cases rule: merge_one_cases)
  case discard
  then show ?thesis using assms(2) by simp
next
  case (append src eid)
  show ?thesis
  proof (intro allI impI)
    fix k i
    assume "idx k = Some i"
    then have "i < length es \<and> dget (es ! i) ''id'' = k" using assms(2) by blast
    then show "i < length es' \<and> dget (es' ! i) ''id'' = k"
      using append(3) by (simp add: nth_append)
  qed
next
  case (update src eid i0)
  let ?u = "dict_update (es ! i0) (filter (\<lambda>(k, v). v \<noteq> PNone) (payload now pref ev src eid))"
  have u: "dget ?u ''id'' = PStr eid" by (simp add: dget_dict_update_payload payload_id)
  show ?thesis
  proof (intro allI impI)
    fix k i
    assume a: "idx k = Some i"
    then have b: "i < length es" and c: "dget (es ! i) ''id'' = k" using assms(2) by auto
    show "i < length es' \<and> dget (es' ! i) ''id'' = k"
    proof (cases "i = i0")
      case True
      have "dget (es ! i0) ''id'' = PStr eid" using assms(2) update(2) by auto
      then have "k = PStr eid" using c True by simp
      then show ?thesis using update(3) True b u by simp
    next
      case False
      then show ?thesis using update(3) b c by simp
    qed
  qed
qed

lemma merge_one_field:
  assumes "merge_one now pref source_url idx es ev = Inr es'"
    and "\<forall>src eid. dget (payload now pref ev src eid) f \<in> S" and "PNone \<notin> S"
    and "\<forall>e\<in>set es. e \<in> set es0 \<or> dget e f \<in> S"
  shows "\<forall>e\<in>set es'. e \<in> set es0 \<or> dget e f \<in> S"
  using assms(1)
proof (cases rule: merge_one_cases)
  case discard
  then show ?thesis using assms(4) by simp
next
  case (append src eid)
  then show ?thesis using assms(2,4) by auto
next
  case (update src eid i)
  let ?p = "payload now pref ev src eid"
  let ?u = "dict_update (es ! i) (filter (\<lambda>(k, v). v \<noteq> PNone) ?p)"
  have ps: "dget ?p f \<in> S" using assms(2) by simp
  then have "dget ?p f \<noteq> PNone" using assms(3) by auto
  then have "dget ?u f = dget ?p f" by (simp add: dget_dict_update_payload)
  then have u: "dget ?u f \<in> S" using ps by simp
  have "set es' \<subseteq> insert ?u (set es)" unfolding update(3) by (rule set_update_subset_insert)
  then show ?thesis using assms(4) u by auto
qed

lemma merge_loop_field:
  assumes "merge_loop now pref source_url idx es evs = Inr es'"
    and "\<forall>ev\<in>set evs. \<forall>src eid. dget (payload now pref ev src eid) f \<in> S" and "PNone \<notin> S"
    and "\<forall>e\<in>set es. e \<in> set es0 \<or> dget e f \<in> S"
  shows "\<forall>e\<in>set es'. e \<in> set es0 \<or> dget e f \<in> S"
  using assms(1,2,4)
proof (induction evs arbitrary: es)
  case Nil
  then show ?case by simp
next
  case (Cons ev evs)
  from Cons.prems(1) obtain es1 where m: "merge_one now pref source_url idx es ev = Inr es1"
    and r: "merge_loop now pref source_url idx es1 evs = Inr es'"
    by (auto split: sum.splits)
  have s: "\<forall>src eid. dget (payload now pref ev src eid) f \<in> S" using Cons.prems(2) by simp
  have i: "\<forall>e\<in>set es1. e \<in> set es0 \<or> dget e f \<in> S"
    using m s assms(3) Cons.prems(3) by (rule merge_one_field)
  show ?case using Cons.IH [OF r _ i] Cons.prems(2) by simp
qed

lemma merge_events_field:
  assumes "merge_events now base evs pref source_url = Inr base'"
    and "\<forall>ev\<in>set evs. \<forall>src eid. dget (payload now pref ev src eid) f \<in> S" and "PNone \<notin> S"
  shows "\<forall>e\<in>set (events base'). e \<in> set (events base) \<or> dget e f \<in> S"
proof -
  from assms(1) obtain es' where
    m: "merge_loop now pref source_url (build_idx (events base)) (events base) evs = Inr es'"
    and e: "events base' = es'"
    by (auto simp: merge_events_def split: sum.splits)
  have "\<forall>e\<in>set (events base). e \<in> set (events base) \<or> dget e f \<in> S" by simp
  with m assms(2,3) have "\<forall>e\<in>set es'. e \<in> set (events base) \<or> dget e f \<in> S"
    by (rule merge_loop_field)
  then show ?thesis using e by simp
qed

lemma merge_one_lands:
  assumes "merge_one now pref source_url idx es ev = Inr es'"
    and "\<forall>k i. idx k = Some i \<longrightarrow> i < length es \<and> dget (es ! i) ''id'' = k"
    and "event_id_of pref source_url ev = Inr (Some eid)"
    and "dget ev ''status'' \<noteq> PNone"
  shows "\<exists>e\<in>set es'. dget e ''id'' = PStr eid \<and> dget e ''status'' = dget ev ''status''"
  using assms(1)
proof (cases rule: merge_one_cases)
  case discard
  then show ?thesis using assms(3) by (simp add: event_id_of_def)
next
  case (append src eid')
  then have "eid' = eid" using assms(3) by simp
  then show ?thesis using append(3) by (auto simp: payload_id payload_status)
next
  case (update src eid' i)
  then have e: "eid' = eid" using assms(3) by simp
  let ?p = "payload now pref ev src eid"
  let ?u = "dict_update (es ! i) (filter (\<lambda>(k, v). v \<noteq> PNone) ?p)"
  have i: "i < length es" using assms(2) update(2) by auto
  have "dget ?u ''id'' = PStr eid" by (simp add: dget_dict_update_payload payload_id)
  moreover have "dget ?u ''status'' = dget ev ''status''"
    using assms(4) by (simp add: dget_dict_update_payload payload_status)
  moreover have "?u \<in> set es'" using update(3) e i by (auto simp: set_update_memI)
  ultimately show ?thesis by blast
qed

lemma merge_one_keeps:
  assumes "merge_one now pref source_url idx es ev = Inr es'"
    and "\<forall>k i. idx k = Some i \<longrightarrow> i < length es \<and> dget (es ! i) ''id'' = k"
    and "\<exists>e\<in>set es. dget e ''id'' = PStr eid \<and> dget e ''status'' \<in> S"
    and "event_id_of pref source_url ev = Inr (Some eid) \<longrightarrow> dget ev ''status'' \<in> S"
  shows "\<exists>e\<in>set es'. dget e ''id'' = PStr eid \<and> dget e ''status'' \<in> S"
  using assms(1)
proof (cases rule: merge_one_cases)
  case discard
  then show ?thesis using assms(3) by simp
next
  case (append src eid')
  then show ?thesis using assms(3) by auto
next
  case (update src eid' i)
  let ?p = "payload now pref ev src eid'"
  let ?u = "dict_update (es ! i) (filter (\<lambda>(k, v). v \<noteq> PNone) ?p)"
  have i: "i < length es" and d: "dget (es ! i) ''id'' = PStr eid'" using assms(2) update(2) by auto
  from assms(3) obtain j where j: "j < length es" and a: "dget (es ! j) ''id'' = PStr eid"
    and b: "dget (es ! j) ''status'' \<in> S"
    by (auto simp: in_set_conv_nth)
  show ?thesis
  proof (cases "j = i")
    case False
    then have "es' ! j = es ! j" using update(3) by simp
    moreover have "j < length es'" using j update(3) by simp
    ultimately have "es ! j \<in> set es'" by (metis nth_mem)
    then show ?thesis using a b by blast
  next
    case True
    then have e: "eid' = eid" using a d by simp
    then have s: "dget ev ''status'' \<in> S" using assms(4) update(1) by simp
    have "dget ?u ''id'' = PStr eid" using e by (simp add: dget_dict_update_payload payload_id)
    moreover have "dget ?u ''status'' \<in> S"
      using s b True by (simp add: dget_dict_update_payload payload_status)
    moreover have "?u \<in> set es'" using update(3) i by (auto simp: set_update_memI)
    ultimately show ?thesis by blast
  qed
qed

lemma merge_loop_keeps:
  assumes "merge_loop now pref source_url idx es evs = Inr es'"
    and "\<forall>k i. idx k = Some i \<longrightarrow> i < length es \<and> dget (es ! i) ''id'' = k"
    and "\<exists>e\<in>set es. dget e ''id'' = PStr eid \<and> dget e ''status'' \<in> S"
    and "\<forall>ev\<in>set evs. event_id_of pref source_url ev = Inr (Some eid) \<longrightarrow> dget ev ''status'' \<in> S"
  shows "\<exists>e\<in>set es'. dget e ''id'' = PStr eid \<and> dget e ''status'' \<in> S"
  using assms
proof (induction evs arbitrary: es)
  case Nil
  then show ?case by simp
next
  case (Cons ev evs)
  from Cons.prems(1) obtain es1 where m: "merge_one now pref source_url idx es ev = Inr es1"
    and r: "merge_loop now pref source_url idx es1 evs = Inr es'"
    by (auto split: sum.splits)
  have i1: "\<forall>k i. idx k = Some i \<longrightarrow> i < length es1 \<and> dget (es1 ! i) ''id'' = k"
    using m Cons.prems(2) by (rule merge_one_inv)
  have h: "event_id_of pref source_url ev = Inr (Some eid) \<longrightarrow> dget ev ''status'' \<in> S"
    using Cons.prems(4) by simp
  have k1: "\<exists>e\<in>set es1. dget e ''id'' = PStr eid \<and> dget e ''status'' \<in> S"
    using m Cons.prems(2,3) h by (rule merge_one_keeps)
  have t: "\<forall>ev\<in>set evs. event_id_of pref source_url ev = Inr (Some eid) \<longrightarrow> dget ev ''status'' \<in> S"
    using Cons.prems(4) by simp
  show ?case using r i1 k1 t by (rule Cons.IH)
qed

lemma merge_loop_lands:
  assumes "merge_loop now pref source_url idx es evs = Inr es'"
    and "\<forall>k i. idx k = Some i \<longrightarrow> i < length es \<and> dget (es ! i) ''id'' = k"
    and "\<forall>ev\<in>set evs. dget ev ''status'' \<noteq> PNone"
    and "ev \<in> set evs" and "event_id_of pref source_url ev = Inr (Some eid)"
  shows "\<exists>e\<in>set es'. dget e ''id'' = PStr eid
           \<and> (\<exists>ev'\<in>set evs. event_id_of pref source_url ev' = Inr (Some eid)
                 \<and> dget e ''status'' = dget ev' ''status'')"
  using assms
proof (induction evs arbitrary: es)
  case Nil
  then show ?case by simp
next
  case (Cons ev0 evs)
  from Cons.prems(1) obtain es1 where m: "merge_one now pref source_url idx es ev0 = Inr es1"
    and r: "merge_loop now pref source_url idx es1 evs = Inr es'"
    by (auto split: sum.splits)
  have i1: "\<forall>k i. idx k = Some i \<longrightarrow> i < length es1 \<and> dget (es1 ! i) ''id'' = k"
    using m Cons.prems(2) by (rule merge_one_inv)
  have n: "\<forall>ev\<in>set evs. dget ev ''status'' \<noteq> PNone" using Cons.prems(3) by simp
  show ?case
  proof (cases "ev \<in> set evs")
    case True
    from Cons.IH [OF r i1 n True Cons.prems(5)]
    show ?thesis by auto
  next
    case False
    then have e: "ev = ev0" using Cons.prems(4) by simp
    let ?S = "{s. \<exists>ev'\<in>set (ev0 # evs). event_id_of pref source_url ev' = Inr (Some eid)
                    \<and> s = dget ev' ''status''}"
    have n0: "dget ev0 ''status'' \<noteq> PNone" using Cons.prems(3) by simp
    have id0: "event_id_of pref source_url ev0 = Inr (Some eid)" using Cons.prems(5) e by simp
    have "\<exists>e\<in>set es1. dget e ''id'' = PStr eid \<and> dget e ''status'' = dget ev0 ''status''"
      using m Cons.prems(2) id0 n0 by (rule merge_one_lands)
    then have k1: "\<exists>e\<in>set es1. dget e ''id'' = PStr eid \<and> dget e ''status'' \<in> ?S"
      using id0 by auto
    have t: "\<forall>ev\<in>set evs. event_id_of pref source_url ev = Inr (Some eid) \<longrightarrow> dget ev ''status'' \<in> ?S"
      by auto
    have "\<exists>e\<in>set es'. dget e ''id'' = PStr eid \<and> dget e ''status'' \<in> ?S"
      using r i1 k1 t by (rule merge_loop_keeps)
    then show ?thesis by auto
  qed
qed

lemma merge_loop_named:
  assumes "merge_loop now pref source_url idx es evs = Inr es'"
    and "ev \<in> set evs" and "truthy (ev_raw_name ev) \<or> truthy (ev_norm ev)"
  shows "\<exists>eid. event_id_of pref source_url ev = Inr (Some eid)"
  using assms
proof (induction evs arbitrary: es)
  case Nil
  then show ?case by simp
next
  case (Cons ev0 evs)
  from Cons.prems(1) obtain es1 where m: "merge_one now pref source_url idx es ev0 = Inr es1"
    and r: "merge_loop now pref source_url idx es1 evs = Inr es'"
    by (auto split: sum.splits)
  show ?case
  proof (cases "ev = ev0")
    case True
    then show ?thesis using m Cons.prems(3) merge_one_named by blast
  next
    case False
    then have "ev \<in> set evs" using Cons.prems(2) by simp
    then show ?thesis using Cons.IH [OF r] Cons.prems(3) by blast
  qed
qed

lemma build_idx_inv:
  "\<forall>k i. build_idx es k = Some i \<longrightarrow> i < length es \<and> dget (es ! i) ''id'' = k"
  using build_idx_bound build_idx_id by blast

lemma merge_events_lands:
  assumes "merge_events now base evs pref source_url = Inr base'"
    and "\<forall>ev\<in>set evs. dget ev ''status'' \<noteq> PNone"
    and "\<forall>ev\<in>set evs. truthy (dget ev ''norm_name'')"
  shows "\<forall>ev\<in>set evs. \<exists>eid. event_id_of pref source_url ev = Inr (Some eid)
           \<and> (\<exists>e\<in>set (events base'). dget e ''id'' = PStr eid
                 \<and> (\<exists>ev'\<in>set evs. event_id_of pref source_url ev' = Inr (Some eid)
                       \<and> dget e ''status'' = dget ev' ''status''))"
proof
  fix ev
  assume a: "ev \<in> set evs"
  from assms(1) obtain es' where
    m: "merge_loop now pref source_url (build_idx (events base)) (events base) evs = Inr es'"
    and e: "events base' = es'"
    by (auto simp: merge_events_def split: sum.splits)
  have "truthy (dget ev ''norm_name'')" using assms(3) a by simp
  then have "truthy (ev_norm ev)" by (simp add: ev_norm_def py_or_def)
  then have "\<exists>eid. event_id_of pref source_url ev = Inr (Some eid)"
    using m a merge_loop_named by blast
  then obtain eid where i: "event_id_of pref source_url ev = Inr (Some eid)" by blast
  have "\<exists>e\<in>set es'. dget e ''id'' = PStr eid
           \<and> (\<exists>ev'\<in>set evs. event_id_of pref source_url ev' = Inr (Some eid)
                 \<and> dget e ''status'' = dget ev' ''status'')"
    using m build_idx_inv assms(2) a i by (rule merge_loop_lands)
  then show "\<exists>eid. event_id_of pref source_url ev = Inr (Some eid)
           \<and> (\<exists>e\<in>set (events base'). dget e ''id'' = PStr eid
                 \<and> (\<exists>ev'\<in>set evs. event_id_of pref source_url ev' = Inr (Some eid)
                       \<and> dget e ''status'' = dget ev' ''status''))"
    using i e by blast
qed

lemma truthy_iff: "truthy v = (\<exists>s. v = PStr s \<and> s \<noteq> [])"
  by (cases v) auto

lemma payload_norm_name_of_event:
  "truthy (dget ev ''norm_name'') \<Longrightarrow> dget (payload now pref ev src eid) ''norm_name'' = dget ev ''norm_name''"
  by (simp add: payload_norm_name ev_norm_def py_or_def)

lemma merge_events_norm_name:
  assumes "merge_events now base evs pref source_url = Inr base'"
    and "\<forall>ev\<in>set evs. truthy (dget ev ''norm_name'')"
  shows "\<forall>e\<in>set (events base'). e \<in> set (events base) \<or> truthy (dget e ''norm_name'')"
proof -
  have a: "\<forall>ev\<in>set evs. \<forall>src eid. dget (payload now pref ev src eid) ''norm_name'' \<in> {v. truthy v}"
    using assms(2) by (simp add: payload_norm_name_of_event)
  have b: "PNone \<notin> {v. truthy v}" by simp
  from merge_events_field [OF assms(1) a b] show ?thesis by simp
qed

lemma merge_events_status_set:
  assumes "merge_events now base evs pref source_url = Inr base'"
    and "\<forall>ev\<in>set evs. dget ev ''status'' \<in> S" and "PNone \<notin> S"
  shows "\<forall>e\<in>set (events base'). e \<in> set (events base) \<or> dget e ''status'' \<in> S"
proof -
  have a: "\<forall>ev\<in>set evs. \<forall>src eid. dget (payload now pref ev src eid) ''status'' \<in> S"
    using assms(2) by (simp add: payload_status)
  from merge_events_field [OF assms(1) a assms(3)] show ?thesis .
qed

lemma merge_events_copies_status:
  assumes "merge_events now base evs pref source_url = Inr base'"
    and "\<forall>ev\<in>set evs. dget ev ''status'' \<in> S" and "PNone \<notin> S"
    and "\<forall>ev\<in>set evs. truthy (dget ev ''norm_name'')"
  shows "(\<forall>e\<in>set (events base'). e \<in> set (events base) \<or> dget e ''status'' \<in> S)
       \<and> (\<forall>ev\<in>set evs. \<exists>eid. event_id_of pref source_url ev = Inr (Some eid)
             \<and> (\<exists>e\<in>set (events base'). dget e ''id'' = PStr eid \<and> dget e ''status'' \<in> S
                   \<and> (\<exists>ev'\<in>set evs. event_id_of pref source_url ev' = Inr (Some eid)
                         \<and> dget e ''status'' = dget ev' ''status'')))"
proof -
  have n: "\<forall>ev\<in>set evs. dget ev ''status'' \<noteq> PNone" using assms(2,3) by auto
  have a: "\<forall>e\<in>set (events base'). e \<in> set (events base) \<or> dget e ''status'' \<in> S"
    using assms(1,2,3) by (rule merge_events_status_set)
  have b: "\<forall>ev\<in>set evs. \<exists>eid. event_id_of pref source_url ev = Inr (Some eid)
           \<and> (\<exists>e\<in>set (events base'). dget e ''id'' = PStr eid
                 \<and> (\<exists>ev'\<in>set evs. event_id_of pref source_url ev' = Inr (Some eid)
                       \<and> dget e ''status'' = dget ev' ''status''))"
    using assms(1) n assms(4) by (rule merge_events_lands)
  have c: "\<forall>ev\<in>set evs. \<exists>eid. event_id_of pref source_url ev = Inr (Some eid)
             \<and> (\<exists>e\<in>set (events base'). dget e ''id'' = PStr eid \<and> dget e ''status'' \<in> S
                   \<and> (\<exists>ev'\<in>set evs. event_id_of pref source_url ev' = Inr (Some eid)
                         \<and> dget e ''status'' = dget ev' ''status''))"
  proof
    fix ev
    assume "ev \<in> set evs"
    with b obtain eid e ev' where i: "event_id_of pref source_url ev = Inr (Some eid)"
      and e: "e \<in> set (events base')" "dget e ''id'' = PStr eid"
      and v: "ev' \<in> set evs" "event_id_of pref source_url ev' = Inr (Some eid)"
             "dget e ''status'' = dget ev' ''status''"
      by blast
    have "dget e ''status'' \<in> S" using v(1,3) assms(2) by simp
    then show "\<exists>eid. event_id_of pref source_url ev = Inr (Some eid)
             \<and> (\<exists>e\<in>set (events base'). dget e ''id'' = PStr eid \<and> dget e ''status'' \<in> S
                   \<and> (\<exists>ev'\<in>set evs. event_id_of pref source_url ev' = Inr (Some eid)
                         \<and> dget e ''status'' = dget ev' ''status''))"
      using i e v by blast
  qed
  show ?thesis using a c by blast
qed

section \<open>Facts about the extractors\<close>

lemma pick_status_labels: "pick_status t = Some l \<Longrightarrow> PStr l \<in> JP_LABELS"
  by (auto simp: pick_status_def P_STATUS_def JP_LABELS_def split: if_splits)

lemma raw_event_status: "dget (raw_event nm st text) ''status'' = PStr st"
  by (simp add: raw_event_def dget_def)

lemma row_events_status: "e \<in> set (row_events ni tr) \<Longrightarrow> dget e ''status'' \<in> JP_LABELS"
  by (auto simp: row_events_def Let_def raw_event_status pick_status_labels split: if_splits option.splits)

lemma table_events_status: "e \<in> set (table_events rows) \<Longrightarrow> dget e ''status'' \<in> JP_LABELS"
  by (auto simp: table_events_def row_events_status split: if_splits)

lemma line_events_status: "e \<in> set (line_events raw) \<Longrightarrow> dget e ''status'' \<in> JP_LABELS"
proof -
  assume a: "e \<in> set (line_events raw)"
  let ?line = "py_strip raw"
  let ?st = "case pick_status ?line of None \<Rightarrow> s_kisei | Some l \<Rightarrow> l"
  have s: "PStr ?st \<in> JP_LABELS"
    using pick_status_labels [of ?line] by (auto simp: JP_LABELS_def split: option.splits)
  from a obtain nm where "e = raw_event nm ?st ?line"
    by (auto simp: line_events_def Let_def split: if_splits)
  then show ?thesis using s by (simp add: raw_event_status)
qed

lemma harvest_status: "e \<in> set (harvest_from_html doc) \<Longrightarrow> dget e ''status'' \<in> JP_LABELS"
  by (auto simp: harvest_from_html_def tier_tables_def tier_items_def tier_body_def
        table_events_status line_events_status)

lemma generic_code_codes: "generic_code stj \<noteq> [] \<Longrightarrow> PStr (generic_code stj) \<in> EN_CODES"
  by (auto simp: generic_code_def EN_CODES_def split: if_splits)

lemma generic_status: "e \<in> set (extract_generic_jp text base_url pref) \<Longrightarrow> dget e ''status'' \<in> EN_CODES"
  by (auto simp: extract_generic_jp_def generic_event_def Let_def dget_def generic_code_codes split: if_splits)

lemma JP_LABELS_not_none: "PNone \<notin> JP_LABELS"
  by (simp add: JP_LABELS_def)

lemma EN_CODES_not_none: "PNone \<notin> EN_CODES"
  by (simp add: EN_CODES_def)

lemma raw_event_norm_name: "dget (raw_event nm st text) ''norm_name'' = PStr nm"
  by (simp add: raw_event_def dget_def)

lemma name_ok_nonempty: "name_ok n \<Longrightarrow> n \<noteq> []"
  by (simp add: name_ok_def)

lemma row_events_norm_name: "e \<in> set (row_events ni tr) \<Longrightarrow> truthy (dget e ''norm_name'')"
  by (auto simp: row_events_def Let_def raw_event_norm_name name_ok_nonempty split: if_splits option.splits)

lemma table_events_norm_name: "e \<in> set (table_events rows) \<Longrightarrow> truthy (dget e ''norm_name'')"
  by (auto simp: table_events_def row_events_norm_name split: if_splits)

lemma line_events_norm_name: "e \<in> set (line_events raw) \<Longrightarrow> truthy (dget e ''norm_name'')"
proof -
  assume a: "e \<in> set (line_events raw)"
  let ?line = "py_strip raw"
  let ?st = "case pick_status ?line of None \<Rightarrow> s_kisei | Some l \<Rightarrow> l"
  from a obtain nm where "e = raw_event nm ?st ?line" and "name_ok nm"
    by (auto simp: line_events_def Let_def split: if_splits)
  then show ?thesis by (simp add: raw_event_norm_name name_ok_nonempty)
qed

lemma harvest_norm_name: "e \<in> set (harvest_from_html doc) \<Longrightarrow> truthy (dget e ''norm_name'')"
  by (auto simp: harvest_from_html_def tier_tables_def tier_items_def tier_body_def
        table_events_norm_name line_events_norm_name)

lemma generic_norm_name: "e \<in> set (extract_generic_jp text base_url pref) \<Longrightarrow> truthy (dget e ''norm_name'')"
  by (auto simp: extract_generic_jp_def generic_event_def Let_def dget_def split: if_splits)

lemma kisai_loop_norm_name:
  "e \<in> set (kisai_loop yn_norm_name status url now seen nms) \<Longrightarrow> truthy (dget e ''norm_name'')"
  by (induction nms arbitrary: seen) (auto simp: Let_def dget_def split: if_splits)

lemma kisai_norm_name:
  "e \<in> set (kisai_events yn_norm_name raw_names status url now) \<Longrightarrow> truthy (dget e ''norm_name'')"
  unfolding kisai_events_def by (rule kisai_loop_norm_name)

text \<open>Evaluation of the extractors on the example pages.\<close>

lemmas harvest_ev = harvest_from_html_def tier_tables_def tier_items_def tier_body_def table_events_def
  row_events_def line_events_def raw_event_def name_idx_of_def guess_name_idx_def count_col_def best_cand_def
  NAME_HEAD_RE_def RX_LINE_STATUS_def name_ok_def BAD_NAME_SUBSTR_def py_strip_def s_kanrido_def
  pick_status_def P_STATUS_def pick_reason_def P_REASON_def REASONS_def pick_range_def P_RANGE_def
  P_DATE_SINGLE_def RX_DATE_def is_date_sep_def is_digit_def digit_blocks_def is_ascii_digit_def
  rep_counts_def match_text_def match_group_def

lemmas names_ev = pick_names_def re_finditer_def P_RINDO_1_def P_RINDO_2_def is_name_char_def is_word_def
  word_ranges_def in_range_def str_of_def

lemma line_events_ex_para:
  "line_events ex_para =
     [[(''name'', PStr (s_komorigawa @ s_rindo)), (''norm_name'', PStr s_komorigawa),
       (''status'', PStr s_kisei), (''reason'', PNone), (''from'', PNone), (''to'', PNone),
       (''snippet'', PStr ex_para)]]"
  by (simp add: harvest_ev names_ev norm_ev lits ex_para_def s_komorigawa_def)

lemma tier_tables_ex:
  "table_events ex_rows =
     [[(''name'', PStr (s_oyama @ s_rindo)), (''norm_name'', PStr s_oyama),
       (''status'', PStr s_tsukodome), (''reason'', PNone), (''from'', PNone), (''to'', PNone),
       (''snippet'', PStr (s_oyama @ s_rindo @ [0x20] @ s_tsukodome))]]"
  by (simp add: harvest_ev norm_ev lits ex_rows_def s_oyama_def)

lemma body_cells_ex: "concat (map line_events (concat ex_rows)) = []"
  by (simp add: harvest_ev norm_ev lits ex_rows_def s_oyama_def)

lemma harvest_doc_table:
  "harvest_from_html doc_table =
     [[(''name'', PStr (s_oyama @ s_rindo)), (''norm_name'', PStr s_oyama),
       (''status'', PStr s_tsukodome), (''reason'', PNone), (''from'', PNone), (''to'', PNone),
       (''snippet'', PStr (s_oyama @ s_rindo @ [0x20] @ s_tsukodome))]]"
  by (simp add: harvest_from_html_def tier_tables_def tier_items_def tier_body_def doc_table_def
        tier_tables_ex body_cells_ex)

lemma line_events_kk:
  "map (\<lambda>e. dget e ''norm_name'') (line_events kk_line) = [PStr [0x65E7, 0x8ECC]]"
  by (simp add: harvest_ev names_ev norm_ev lits kk_line_def s_kyukido_def dget_def)

lemma table_events_kk:
  "map (\<lambda>e. dget e ''norm_name'') (table_events kk_rows) = [PStr [0x65E7, 0x8ECC, 0x9053]]"
  by (simp add: harvest_ev norm_ev lits kk_rows_def s_kyukido_def dget_def)

section \<open>Facts about the crawl\<close>

lemmas run_ev = run_def load_json_def build_targets_def agency_targets_def visit_def fetch_def
  conditional_get_def request_headers_def state_get_def hdr_get_def nonempty_def content_type_def
  UA_def

lemmas world_ev = world0_def client0_def extract0_def agency0_def target0_def fp0_def resp304_def
  resp200_def etag1_def crawl0_def disk_seen_def disk_lost_def


text \<open>
  The cases of one iteration, and invariants of the crawl: what every iteration keeps, the
  loop of a target and the loop over the targets keep.
\<close>

lemma alist_update_set:
  "(a, b) \<in> set (AList.update k v al) \<Longrightarrow> (a, b) = (k, v) \<or> (a, b) \<in> set al"
  by (induction al) (auto split: if_splits)

lemma visit_cases:
  assumes "visit w full dry_run t url depth seen c = Inr (c', more_links)"
  obtains (skip) "c' = c" and "more_links = []"
  | (page) ct body hdr p where
      "fetch w full url (state_get (c_state c) url) = Some (ct, Some body, hdr)"
      and "w_extract w (t_agency t) (t_auto t) url depth ct body = Inr p"
      and "c_state c' = AList.update (p_url p)
             \<lparr>fp_etag = hdr_get hdr ''etag'', fp_last_modified = hdr_get hdr ''last-modified'',
              fp_length = Some (length body), fp_sha1 = Some (sha1b body),
              fp_checked_at = Some (w_now w)\<rparr> (c_state c)"
      and "(c_out c' = c_out c \<and> c_changes c' = c_changes c)
           \<or> (merge_events (w_now w) (c_out c) (p_events p) (t_pref t) (PStr (p_url p)) = Inr (c_out c')
               \<and> \<not> dry_run \<and> c_changes c' = c_changes c + 1)"
  using assms
  by (auto simp: visit_def Let_def split: option.splits prod.splits sum.splits if_splits)

lemma crawl_loop_invariant:
  "(\<forall>url depth seen c c' more_links.
       P c \<longrightarrow> visit w full dry_run t url depth seen c = Inr (c', more_links) \<longrightarrow> P c')
   \<Longrightarrow> crawl_loop w full dry_run t queue seen c = Inr c' \<Longrightarrow> P c \<Longrightarrow> P c'"
proof (induction w full dry_run t queue seen c rule: crawl_loop.induct)
  case (1 w full dry_run t seen c)
  then show ?case by simp
next
  case (2 w full dry_run t url depth queue seen c)
  show ?case
  proof (cases "url \<in> set seen")
    case True
    then have "crawl_loop w full dry_run t queue seen c = Inr c'" using "2.prems"(2) by simp
    then show ?thesis using "2.IH"(1) [OF True "2.prems"(1)] "2.prems"(3) by simp
  next
    case False
    from "2.prems"(2) False obtain c1 more_links where
      v: "visit w full dry_run t url depth (url # seen) c = Inr (c1, more_links)"
      and r: "crawl_loop w full dry_run t (queue @ map (\<lambda>u. (u, depth + 1)) more_links) (url # seen) c1 = Inr c'"
      by (auto split: sum.splits prod.splits)
    have p1: "P c1" using "2.prems"(1,3) v by blast
    show ?thesis using "2.IH"(2) [OF False v refl "2.prems"(1) r p1] .
  qed
qed

lemma crawl_targets_invariant:
  "(\<forall>t url depth seen c c' more_links.
       P c \<longrightarrow> visit w full dry_run t url depth seen c = Inr (c', more_links) \<longrightarrow> P c')
   \<Longrightarrow> crawl_targets w full dry_run ts c = Inr c' \<Longrightarrow> P c \<Longrightarrow> P c'"
proof (induction ts arbitrary: c)
  case Nil
  then show ?case by simp
next
  case (Cons t ts)
  from Cons.prems(2) obtain c1 where
    l: "crawl_loop w full dry_run t [(t_url t, 0)] [] c = Inr c1"
    and r: "crawl_targets w full dry_run ts c1 = Inr c'"
    by (auto split: sum.splits)
  have "\<forall>url depth seen c c' more_links.
       P c \<longrightarrow> visit w full dry_run t url depth seen c = Inr (c', more_links) \<longrightarrow> P c'"
    using Cons.prems(1) by blast
  then have "P c1" using l Cons.prems(3) by (rule crawl_loop_invariant)
  then show ?case using Cons.IH [OF Cons.prems(1) r] by simp
qed


lemma visit_checked_at:
  assumes "\<forall>(u, fp)\<in>set (c_state c). fp_checked_at fp = Some (w_now w)"
    and "visit w full dry_run t url depth seen c = Inr (c', more_links)"
  shows "\<forall>(u, fp)\<in>set (c_state c'). fp_checked_at fp = Some (w_now w)"
  using assms(2)
proof (cases rule: visit_cases)
  case skip
  then show ?thesis using assms(1) by simp
next
  case (page ct body hdr p)
  show ?thesis unfolding page(3) using assms(1) by (auto dest!: alist_update_set)
qed

lemma visit_updated_at:
  assumes "\<forall>e\<in>set (events (c_out c)). dget e ''updated_at'' = PStr (w_now w)"
    and "visit w full dry_run t url depth seen c = Inr (c', more_links)"
  shows "\<forall>e\<in>set (events (c_out c')). dget e ''updated_at'' = PStr (w_now w)"
  using assms(2)
proof (cases rule: visit_cases)
  case skip
  then show ?thesis using assms(1) by simp
next
  case (page ct body hdr p)
  from page(4) show ?thesis
  proof
    assume "c_out c' = c_out c \<and> c_changes c' = c_changes c"
    then show ?thesis using assms(1) by simp
  next
    assume a: "merge_events (w_now w) (c_out c) (p_events p) (t_pref t) (PStr (p_url p)) = Inr (c_out c')
               \<and> \<not> dry_run \<and> c_changes c' = c_changes c + 1"
    have b: "\<forall>ev\<in>set (p_events p). \<forall>src eid.
               dget (payload (w_now w) (t_pref t) ev src eid) ''updated_at'' \<in> {PStr (w_now w)}"
      by (simp add: payload_updated_at)
    have "\<forall>e\<in>set (events (c_out c')). e \<in> set (events (c_out c)) \<or> dget e ''updated_at'' \<in> {PStr (w_now w)}"
      using a b by (intro merge_events_field) auto
    then show ?thesis using assms(1) by auto
  qed
qed

lemma run_disk_lost:
  "run world0 False False None disk_lost =
     Inr \<lparr>saved_out = Some \<lparr>updated = PStr time1,
                              events = [payload time1 s_yamanashi_ken (hd (harvest_from_html doc_table)) canon0 ex_eid]\<rparr>,
          saved_state = Some [(src0, \<lparr>fp_etag = Some etag1, fp_last_modified = None,
                                     fp_length = Some (length body0), fp_sha1 = Some (sha1b body0),
                                     fp_checked_at = Some time1\<rparr>)]\<rparr>"
  by (simp add: run_ev world_ev harvest_doc_table merge_ev canon_src0 id_ev ex_ev lits fp_none_def asc_def
        lower_ascii_def)

section \<open>Idempotence of the name normalisation\<close>

text \<open>
  On a text made of ASCII characters only, \<open>norm_rindo_name\<close> is idempotent: neither of the
  two words it removes nor one of its trailing suffixes can be in its result.
\<close>

lemma norm_rindo_name_idempotent_ascii:
  assumes "\<forall>c\<in>set x. c < 128"
  shows "norm_rindo_name (norm_rindo_name x) = norm_rindo_name x"
proof -
  let ?y = "norm_rindo_name x"
  have c: "\<forall>c\<in>set ?y. \<not> is_name_punct c \<and> \<not> (c = 0x3000 \<or> is_space c)"
    using norm_rindo_name_chars [of x] by auto
  have a: "\<forall>c\<in>set ?y. c < 128" using assms norm_rindo_name_chars [of x] by auto
  have "\<not> str_in s_rindo ?y" by (rule ascii_no_lit [OF a]) (simp add: s_rindo_def)
  moreover have "\<not> str_in s_shinrin_kanrido ?y"
    by (rule ascii_no_lit [OF a]) (simp add: s_shinrin_kanrido_def)
  moreover have "\<not> re_search RX_TAIL ?y"
    using search_tail_nonascii [of "[]" ?y] a unfolding re_search_def by fastforce
  ultimately show ?thesis using norm_rindo_name_fix [OF c] by blast
qed

text \<open>
  C8. \<open>norm_rindo_name\<close> deletes one trailing suffix in a call, so it is not idempotent: the
  name Kyu-kido-sen rindo is normalised to Kyu-kido, and Kyu-kido to Kyu-ki. The table
  tier of \<open>harvest_from_html\<close> normalises the name of a row once; the tiers of list items,
  paragraphs and lines take the names from \<open>pick_names\<close>, which has normalised them, and
  normalise them again. On the page that reports the road in a table row and in a
  paragraph, the table tier gives the normalised name Kyu-kido and the paragraph tier gives
  Kyu-ki: two normalised names, and so two ids, for one road.
\<close>

theorem line_tiers_normalise_twice:
  "norm_rindo_name (s_kyukido @ s_sen @ s_rindo) = s_kyukido
   \<and> norm_rindo_name (norm_rindo_name (s_kyukido @ s_sen @ s_rindo)) = [0x65E7, 0x8ECC]
   \<and> map (\<lambda>e. dget e ''norm_name'') (tier_tables doc_kyukido) = [PStr s_kyukido]
   \<and> map (\<lambda>e. dget e ''norm_name'') (tier_items doc_kyukido) = [PStr [0x65E7, 0x8ECC]]"
proof -
  have a: "norm_rindo_name (s_kyukido @ s_sen @ s_rindo) = s_kyukido"
    by (simp add: norm_ev lits s_kyukido_def)
  have b: "norm_rindo_name s_kyukido = [0x65E7, 0x8ECC]"
    by (simp add: norm_ev lits s_kyukido_def)
  have c: "map (\<lambda>e. dget e ''norm_name'') (tier_tables doc_kyukido) = [PStr s_kyukido]"
    by (simp add: tier_tables_def doc_kyukido_def table_events_kk s_kyukido_def)
  have d: "map (\<lambda>e. dget e ''norm_name'') (tier_items doc_kyukido) = [PStr [0x65E7, 0x8ECC]]"
    by (simp add: tier_items_def doc_kyukido_def line_events_kk)
  show ?thesis using a b c d by simp
qed

section \<open>Precedence of the status classifiers\<close>

lemmas yn_ev = yn_pick_status_def YMN_CLOSED_PAT_def YMN_OPEN_PAT_def YMN_REG_PAT_def YMN_NUM_PAT_def
  re_search_def is_digit_def digit_blocks_def rep_counts_def in_range_def

lemma str_in_suffix: "str_in (p @ l) s \<Longrightarrow> str_in l s"
  unfolding str_in_iff by (metis append.assoc)

lemma ymn_closed_iff: "re_search YMN_CLOSED_PAT t = str_in s_tsukodome t"
proof -
  have "re_search YMN_CLOSED_PAT t = (str_in s_tsukodome t \<or> str_in s_zenmen_tsukodome t)"
    using re_search_lits [of "''1''" "[s_tsukodome, s_zenmen_tsukodome]" t]
    by (simp add: YMN_CLOSED_PAT_def)
  moreover have "str_in s_zenmen_tsukodome t \<Longrightarrow> str_in s_tsukodome t"
    using str_in_suffix [of s_zenmen s_tsukodome t]
    by (simp add: s_zenmen_tsukodome_def s_zenmen_def s_tsukodome_def)
  ultimately show ?thesis by blast
qed

lemma ymn_open_iff:
  "re_search YMN_OPEN_PAT t = (str_in s_kisei_wa_arimasen t \<or> str_in s_kisei_nashi t)"
  using re_search_lits [of "''1''" "[s_kisei_wa_arimasen, s_kisei_nashi]" t]
  by (simp add: YMN_OPEN_PAT_def)

text \<open>
  C3 (as the code has it). In \<open>_yn_pick_status\<close> the closure word tsukodome decides first:
  a text that contains it is closed. A text without it that contains one of the two
  no-restriction wordings, kisei-wa-arimasen or kisei-nashi, is open, whatever restriction
  keywords or numbers with units it also contains.
\<close>

theorem yn_pick_status_precedence:
  "(str_in s_tsukodome t \<longrightarrow> fst (yn_pick_status t) = asc ''closed'')
   \<and> (\<not> str_in s_tsukodome t \<and> (str_in s_kisei_wa_arimasen t \<or> str_in s_kisei_nashi t)
        \<longrightarrow> fst (yn_pick_status t) = asc ''open'')"
  by (simp add: yn_pick_status_def ymn_closed_iff ymn_open_iff)

theorem yn_pick_status_precedence_witness:
  "str_in s_tsukodome (s_tsukodome @ asc '' 20km/h '' @ s_kisei_nashi)
   \<and> fst (yn_pick_status (s_tsukodome @ asc '' 20km/h '' @ s_kisei_nashi)) = asc ''closed''
   \<and> \<not> str_in s_tsukodome (s_kisei_nashi @ asc '' 20km/h '' @ s_katagawa)
   \<and> str_in s_kisei_nashi (s_kisei_nashi @ asc '' 20km/h '' @ s_katagawa)
   \<and> re_search YMN_REG_PAT (s_kisei_nashi @ asc '' 20km/h '' @ s_katagawa)
   \<and> re_search YMN_NUM_PAT (s_kisei_nashi @ asc '' 20km/h '' @ s_katagawa)
   \<and> fst (yn_pick_status (s_kisei_nashi @ asc '' 20km/h '' @ s_katagawa)) = asc ''open''"
proof -
  have h1: "str_in s_tsukodome (s_tsukodome @ asc '' 20km/h '' @ s_kisei_nashi)"
    by (simp add: lits)
  have h2: "\<not> str_in s_tsukodome (s_kisei_nashi @ asc '' 20km/h '' @ s_katagawa)"
    by (simp add: lits)
  have h3: "str_in s_kisei_nashi (s_kisei_nashi @ asc '' 20km/h '' @ s_katagawa)"
    by (simp add: lits)
  have h4: "re_search YMN_REG_PAT (s_kisei_nashi @ asc '' 20km/h '' @ s_katagawa)"
    by (simp add: yn_ev lits)
  have h5: "re_search YMN_NUM_PAT (s_kisei_nashi @ asc '' 20km/h '' @ s_katagawa)"
    by (simp add: yn_ev lits)
  from yn_pick_status_precedence [of "s_tsukodome @ asc '' 20km/h '' @ s_kisei_nashi"] h1
  have c1: "fst (yn_pick_status (s_tsukodome @ asc '' 20km/h '' @ s_kisei_nashi)) = asc ''closed''"
    by blast
  from yn_pick_status_precedence [of "s_kisei_nashi @ asc '' 20km/h '' @ s_katagawa"] h2 h3
  have c2: "fst (yn_pick_status (s_kisei_nashi @ asc '' 20km/h '' @ s_katagawa)) = asc ''open''"
    by blast
  show ?thesis using h1 h2 h3 h4 h5 c1 c2 by blast
qed

text \<open>
  C3 (as the spec states it) fails on the wording for a lifted restriction, kaijo, which is
  the third pattern of \<open>P_STATUS\<close>: the text kisei-kaijo followed by a speed has no
  closure wording, yet \<open>pick_status\<close> answers with the restriction label, because the
  restriction pattern is tried before the lifting pattern, and \<open>_yn_pick_status\<close>, whose
  no-restriction pattern does not list kaijo, answers regulated.
\<close>

theorem lifted_wording_classified_regulated:
  "re_search (fst (P_STATUS ! 2)) (s_kisei @ s_kaijo @ asc '' 20km/h'')
   \<and> \<not> re_search (fst (P_STATUS ! 0)) (s_kisei @ s_kaijo @ asc '' 20km/h'')
   \<and> \<not> re_search YMN_CLOSED_PAT (s_kisei @ s_kaijo @ asc '' 20km/h'')
   \<and> re_search YMN_NUM_PAT (s_kisei @ s_kaijo @ asc '' 20km/h'')
   \<and> pick_status (s_kisei @ s_kaijo @ asc '' 20km/h'') = Some s_kisei
   \<and> yn_pick_status (s_kisei @ s_kaijo @ asc '' 20km/h'') = (asc ''regulated'', s_kisei)"
  by (simp add: pick_status_def P_STATUS_def yn_ev lits)

section \<open>Which status a sequence of merges leaves\<close>

text \<open>
  C1 (as the code has it). \<open>merge_events\<close> compares no severities: an event that is merged
  into an id of the store overwrites the stored status with its own whenever its own is not
  \<open>None\<close>. The index of a call maps an id to one record, the last record of the store with
  that id. After any sequence of events merged by one call into one id that the index
  holds, the status of that record is the last status of the sequence that is not \<open>None\<close>,
  or the status held before when there is none; the store has as many records as before,
  and every other record, also another record with the same id, is as it was.
\<close>

theorem merge_events_last_status_wins:
  assumes "build_idx (events base) (PStr eid) = Some i"
    and "\<forall>ev\<in>set evs. event_id_of pref source_url ev = Inr (Some eid)"
  shows "\<exists>base'. merge_events now base evs pref source_url = Inr base'
           \<and> length (events base') = length (events base)
           \<and> dget (events base' ! i) ''status'' = last_status (dget (events base ! i) ''status'') evs
           \<and> (\<forall>j. j \<noteq> i \<longrightarrow> events base' ! j = events base ! j)"
proof -
  have i: "i < length (events base)" by (rule build_idx_bound [OF assms(1)])
  have "\<exists>es'. merge_loop now pref source_url (build_idx (events base)) (events base) evs = Inr es'
           \<and> length es' = length (events base)
           \<and> dget (es' ! i) ''status'' = last_status (dget (events base ! i) ''status'') evs
           \<and> (\<forall>j. j \<noteq> i \<longrightarrow> es' ! j = events base ! j)"
    using assms(1) i assms(2) by (rule merge_loop_last_status)
  then show ?thesis by (auto simp: merge_events_def)
qed

text \<open>
  A store that holds the id of Oyama twice, closed in both records, and a call that merges
  the road as restricted, then as open, then without a status: the index holds the second
  record, which is open afterwards, and the first record is still closed.
\<close>

theorem merge_events_last_status_wins_witness:
  "build_idx [[(''id'', PStr ex_eid), (''status'', PStr (asc ''closed''))],
              [(''id'', PStr ex_eid), (''status'', PStr (asc ''closed''))]] (PStr ex_eid) = Some 1
   \<and> event_id_of s_yamanashi_ken (PStr src0) (ev_oyama (asc ''regulated'')) = Inr (Some ex_eid)
   \<and> event_id_of s_yamanashi_ken (PStr src0) (ev_oyama (asc ''open'')) = Inr (Some ex_eid)
   \<and> event_id_of s_yamanashi_ken (PStr src0) [(''norm_name'', PStr s_oyama)] = Inr (Some ex_eid)
   \<and> (\<exists>base'. merge_events (asc ''t2'')
                  \<lparr>updated = PNone,
                    events = [[(''id'', PStr ex_eid), (''status'', PStr (asc ''closed''))],
                              [(''id'', PStr ex_eid), (''status'', PStr (asc ''closed''))]]\<rparr>
                  [ev_oyama (asc ''regulated''), ev_oyama (asc ''open''), [(''norm_name'', PStr s_oyama)]]
                  s_yamanashi_ken (PStr src0) = Inr base'
          \<and> length (events base') = 2
          \<and> dget (events base' ! 1) ''status'' = PStr (asc ''open'')
          \<and> events base' ! 0 = [(''id'', PStr ex_eid), (''status'', PStr (asc ''closed''))])"
proof -
  let ?r = "[(''id'', PStr ex_eid), (''status'', PStr (asc ''closed''))]"
  let ?base = "\<lparr>updated = PNone, events = [?r, ?r]\<rparr>"
  let ?evs = "[ev_oyama (asc ''regulated''), ev_oyama (asc ''open''), [(''norm_name'', PStr s_oyama)]]"
  have n: "ex_eid \<noteq> []" by (simp add: id_ev ex_ev asc_def)
  have h1: "build_idx (events ?base) (PStr ex_eid) = Some 1"
    using n by (simp add: build_idx_def dget_def)
  have h2: "\<forall>ev\<in>set ?evs. event_id_of s_yamanashi_ken (PStr src0) ev = Inr (Some ex_eid)"
    by (simp add: event_id_of_def ev_raw_name_def ev_norm_def norm_of_pyval_def str_of_def
          ev_source_def py_or_def dget_def canon_src0 id_ev ex_ev lits)
  have l: "last_status (dget (events ?base ! 1) ''status'') ?evs = PStr (asc ''open'')"
    by (simp add: last_status_def dget_def ev_oyama_def asc_def)
  from merge_events_last_status_wins [of ?base ex_eid 1 ?evs s_yamanashi_ken "PStr src0" "asc ''t2''", OF h1 h2]
  obtain base' where m: "merge_events (asc ''t2'') ?base ?evs s_yamanashi_ken (PStr src0) = Inr base'"
    and a: "length (events base') = length (events ?base)"
    and b: "dget (events base' ! 1) ''status'' = last_status (dget (events ?base ! 1) ''status'') ?evs"
    and c: "\<forall>j. j \<noteq> 1 \<longrightarrow> events base' ! j = events ?base ! j"
    by blast
  have a': "length (events base') = 2" using a by simp
  have b': "dget (events base' ! 1) ''status'' = PStr (asc ''open'')" using b unfolding l .
  have "events base' ! 0 = events ?base ! 0" using c by simp
  then have c': "events base' ! 0 = ?r" by simp
  have "\<exists>base'. merge_events (asc ''t2'') ?base ?evs s_yamanashi_ken (PStr src0) = Inr base'
          \<and> length (events base') = 2
          \<and> dget (events base' ! 1) ''status'' = PStr (asc ''open'')
          \<and> events base' ! 0 = ?r"
    using m a' b' c' by blast
  then show ?thesis using h1 h2 by simp
qed

text \<open>
  C1 (as the spec states it) fails: the road Oyama is merged as closed and then, from the
  same page, as open; the store then holds open, the lower of the two severities.
\<close>

theorem merge_keeps_last_status_not_highest:
  "(case merge_events (asc ''t1'') store0 [ev_oyama (asc ''closed'')] s_yamanashi_ken (PStr src0) of
      Inl e \<Rightarrow> False
    | Inr b1 \<Rightarrow>
        (case merge_events (asc ''t2'') b1 [ev_oyama (asc ''open'')] s_yamanashi_ken (PStr src0) of
           Inl e \<Rightarrow> False
         | Inr b2 \<Rightarrow> map (\<lambda>e. dget e ''status'') (events b2) = [PStr (asc ''open'')]))"
  by (simp add: merge_ev canon_src0 id_ev ex_ev lits)

section \<open>A raw event whose id was inserted by the same call\<close>

text \<open>
  C7. The index of ids is built once, before the loop of \<open>merge_events\<close>, and an id that
  the loop appends is not added to it. Two raw events of one call that have the same id,
  none of them in the store before, are therefore both appended: the second is not merged
  into the record of the first, whose fields stay as they are, and the store holds the id
  twice.
\<close>

theorem merge_events_same_batch_duplicates:
  "(case merge_events (asc ''t1'') store0 [ev_oyama (asc ''closed''), ev_oyama (asc ''open'')] s_yamanashi_ken (PStr src0) of
      Inl e \<Rightarrow> False
    | Inr b \<Rightarrow> map (\<lambda>e. dget e ''status'') (events b) = [PStr (asc ''closed''), PStr (asc ''open'')]
             \<and> dget (events b ! 0) ''id'' = dget (events b ! 1) ''id''
             \<and> dget (events b ! 0) ''id'' \<noteq> PNone)"
  by (simp add: merge_ev canon_src0 id_ev ex_ev lits)

section \<open>No record with an empty normalised name\<close>

text \<open>
  C9. The events that \<open>run\<close> hands to \<open>merge_events\<close> are those of \<open>harvest_from_html\<close>, of
  \<open>extract_generic_jp\<close> and of \<open>parse_yamanashi_kisai\<close>. Each of the three drops a name
  whose normalised form is empty, so every event they give has a normalised name that is
  not empty; and after the merge of such events every record of the store is a record the
  store held before the call or has a normalised name that is not empty.
\<close>

theorem merged_records_have_norm_name:
  assumes "merge_events now base evs pref source_url = Inr base'"
    and "evs = harvest_from_html doc \<or> evs = extract_generic_jp text base_url pref'
         \<or> evs = kisai_events yn_norm_name raw_names status url now'"
  shows "(\<forall>ev\<in>set evs. \<exists>s. dget ev ''norm_name'' = PStr s \<and> s \<noteq> [])
       \<and> (\<forall>e\<in>set (events base'). e \<in> set (events base) \<or> (\<exists>s. dget e ''norm_name'' = PStr s \<and> s \<noteq> []))"
proof -
  have n: "\<forall>ev\<in>set evs. truthy (dget ev ''norm_name'')"
    using assms(2) harvest_norm_name generic_norm_name kisai_norm_name by blast
  from merge_events_norm_name [OF assms(1) n] n
  show ?thesis by (simp add: truthy_iff)
qed

text \<open>The page with the table, merged into the empty store.\<close>

theorem merged_records_have_norm_name_witness:
  "\<exists>b. merge_events (asc ''t1'') store0 (harvest_from_html doc_table) s_yamanashi_ken (PStr src0) = Inr b
      \<and> map (\<lambda>e. dget e ''norm_name'') (harvest_from_html doc_table) = [PStr s_oyama]
      \<and> (\<forall>ev\<in>set (harvest_from_html doc_table). \<exists>s. dget ev ''norm_name'' = PStr s \<and> s \<noteq> [])
      \<and> (\<forall>e\<in>set (events b). e \<in> set (events store0) \<or> (\<exists>s. dget e ''norm_name'' = PStr s \<and> s \<noteq> []))"
proof -
  have "\<exists>b. merge_events (asc ''t1'') store0 (harvest_from_html doc_table) s_yamanashi_ken (PStr src0) = Inr b"
    by (simp add: harvest_doc_table merge_ev canon_src0 id_ev ex_ev lits)
  then obtain b where
    m: "merge_events (asc ''t1'') store0 (harvest_from_html doc_table) s_yamanashi_ken (PStr src0) = Inr b"
    by blast
  have d: "harvest_from_html doc_table = harvest_from_html doc_table
           \<or> harvest_from_html doc_table = extract_generic_jp [] [] []
           \<or> harvest_from_html doc_table = kisai_events id [] [] [] []"
    by simp
  have n: "map (\<lambda>e. dget e ''norm_name'') (harvest_from_html doc_table) = [PStr s_oyama]"
    by (simp add: harvest_doc_table dget_def)
  have r: "(\<forall>ev\<in>set (harvest_from_html doc_table). \<exists>s. dget ev ''norm_name'' = PStr s \<and> s \<noteq> [])
      \<and> (\<forall>e\<in>set (events b). e \<in> set (events store0) \<or> (\<exists>s. dget e ''norm_name'' = PStr s \<and> s \<noteq> []))"
    by (rule merged_records_have_norm_name [OF m d])
  show ?thesis
  proof (intro exI [of _ b] conjI)
    show "merge_events (asc ''t1'') store0 (harvest_from_html doc_table) s_yamanashi_ken (PStr src0) = Inr b"
      by (rule m)
    show "map (\<lambda>e. dget e ''norm_name'') (harvest_from_html doc_table) = [PStr s_oyama]"
      by (rule n)
    show "\<forall>ev\<in>set (harvest_from_html doc_table). \<exists>s. dget ev ''norm_name'' = PStr s \<and> s \<noteq> []"
      by (rule conjunct1 [OF r])
    show "\<forall>e\<in>set (events b). e \<in> set (events store0) \<or> (\<exists>s. dget e ''norm_name'' = PStr s \<and> s \<noteq> [])"
      by (rule conjunct2 [OF r])
  qed
qed

section \<open>The status values that reach the store\<close>

text \<open>
  C2. \<open>merge_events\<close> copies the status of a raw event into the store as the extractor
  wrote it. After a call that merges the events of \<open>harvest_from_html\<close>, every record of the
  store is a record the store held before the call or has one of the three Japanese labels
  of \<open>P_STATUS\<close> as its status, and every harvested event has a record with its id in the
  store whose status is the status of a harvested event with that id, one of those labels.
  After a call that merges the events of \<open>extract_generic_jp\<close> the same holds with the three
  codes open, regulated and closed. So the records that come from the tiers of an HTML page
  hold the source-language label, not one of the three codes.
\<close>

theorem store_status_written_by_extractors:
  "(merge_events now base (harvest_from_html doc) pref source_url = Inr base' \<longrightarrow>
      (\<forall>e\<in>set (events base'). e \<in> set (events base) \<or> dget e ''status'' \<in> JP_LABELS)
      \<and> (\<forall>ev\<in>set (harvest_from_html doc). \<exists>eid. event_id_of pref source_url ev = Inr (Some eid)
            \<and> (\<exists>e\<in>set (events base'). dget e ''id'' = PStr eid \<and> dget e ''status'' \<in> JP_LABELS
                  \<and> (\<exists>ev'\<in>set (harvest_from_html doc). event_id_of pref source_url ev' = Inr (Some eid)
                        \<and> dget e ''status'' = dget ev' ''status''))))
   \<and> (merge_events now base (extract_generic_jp text base_url pref') pref source_url = Inr base' \<longrightarrow>
      (\<forall>e\<in>set (events base'). e \<in> set (events base) \<or> dget e ''status'' \<in> EN_CODES)
      \<and> (\<forall>ev\<in>set (extract_generic_jp text base_url pref'). \<exists>eid. event_id_of pref source_url ev = Inr (Some eid)
            \<and> (\<exists>e\<in>set (events base'). dget e ''id'' = PStr eid \<and> dget e ''status'' \<in> EN_CODES
                  \<and> (\<exists>ev'\<in>set (extract_generic_jp text base_url pref'). event_id_of pref source_url ev' = Inr (Some eid)
                        \<and> dget e ''status'' = dget ev' ''status''))))"
proof (intro conjI impI)
  assume m: "merge_events now base (harvest_from_html doc) pref source_url = Inr base'"
  have s: "\<forall>ev\<in>set (harvest_from_html doc). dget ev ''status'' \<in> JP_LABELS"
    by (simp add: harvest_status)
  have n: "\<forall>ev\<in>set (harvest_from_html doc). truthy (dget ev ''norm_name'')"
    by (simp add: harvest_norm_name)
  from merge_events_copies_status [OF m s JP_LABELS_not_none n]
  show "\<forall>e\<in>set (events base'). e \<in> set (events base) \<or> dget e ''status'' \<in> JP_LABELS"
    and "\<forall>ev\<in>set (harvest_from_html doc). \<exists>eid. event_id_of pref source_url ev = Inr (Some eid)
            \<and> (\<exists>e\<in>set (events base'). dget e ''id'' = PStr eid \<and> dget e ''status'' \<in> JP_LABELS
                  \<and> (\<exists>ev'\<in>set (harvest_from_html doc). event_id_of pref source_url ev' = Inr (Some eid)
                        \<and> dget e ''status'' = dget ev' ''status''))"
    by blast+
next
  assume m: "merge_events now base (extract_generic_jp text base_url pref') pref source_url = Inr base'"
  have s: "\<forall>ev\<in>set (extract_generic_jp text base_url pref'). dget ev ''status'' \<in> EN_CODES"
    by (simp add: generic_status)
  have n: "\<forall>ev\<in>set (extract_generic_jp text base_url pref'). truthy (dget ev ''norm_name'')"
    by (simp add: generic_norm_name)
  from merge_events_copies_status [OF m s EN_CODES_not_none n]
  show "\<forall>e\<in>set (events base'). e \<in> set (events base) \<or> dget e ''status'' \<in> EN_CODES"
    and "\<forall>ev\<in>set (extract_generic_jp text base_url pref'). \<exists>eid. event_id_of pref source_url ev = Inr (Some eid)
            \<and> (\<exists>e\<in>set (events base'). dget e ''id'' = PStr eid \<and> dget e ''status'' \<in> EN_CODES
                  \<and> (\<exists>ev'\<in>set (extract_generic_jp text base_url pref'). event_id_of pref source_url ev' = Inr (Some eid)
                        \<and> dget e ''status'' = dget ev' ''status''))"
    by blast+
qed

theorem store_status_written_by_extractors_witness:
  "(\<exists>b. merge_events (asc ''t1'') store0 (harvest_from_html doc_table) s_yamanashi_ken (PStr src0) = Inr b
        \<and> (\<forall>e\<in>set (events b). e \<in> set (events store0) \<or> dget e ''status'' \<in> JP_LABELS)
        \<and> (\<forall>ev\<in>set (harvest_from_html doc_table).
              \<exists>eid. event_id_of s_yamanashi_ken (PStr src0) ev = Inr (Some eid)
                \<and> (\<exists>e\<in>set (events b). dget e ''id'' = PStr eid \<and> dget e ''status'' \<in> JP_LABELS
                      \<and> (\<exists>ev'\<in>set (harvest_from_html doc_table).
                            event_id_of s_yamanashi_ken (PStr src0) ev' = Inr (Some eid)
                            \<and> dget e ''status'' = dget ev' ''status''))))
   \<and> (\<exists>b. merge_events (asc ''t1'') store0 (extract_generic_jp (s_oyama @ s_sen @ s_tsukodome) src0 s_yamanashi_ken)
              s_yamanashi_ken (PStr src0) = Inr b
        \<and> (\<forall>e\<in>set (events b). e \<in> set (events store0) \<or> dget e ''status'' \<in> EN_CODES)
        \<and> (\<forall>ev\<in>set (extract_generic_jp (s_oyama @ s_sen @ s_tsukodome) src0 s_yamanashi_ken).
              \<exists>eid. event_id_of s_yamanashi_ken (PStr src0) ev = Inr (Some eid)
                \<and> (\<exists>e\<in>set (events b). dget e ''id'' = PStr eid \<and> dget e ''status'' \<in> EN_CODES
                      \<and> (\<exists>ev'\<in>set (extract_generic_jp (s_oyama @ s_sen @ s_tsukodome) src0 s_yamanashi_ken).
                            event_id_of s_yamanashi_ken (PStr src0) ev' = Inr (Some eid)
                            \<and> dget e ''status'' = dget ev' ''status''))))"
proof -
  have "\<exists>b. merge_events (asc ''t1'') store0 (harvest_from_html doc_table) s_yamanashi_ken (PStr src0) = Inr b"
    by (simp add: harvest_doc_table merge_ev canon_src0 id_ev ex_ev lits)
  then obtain b1 where
    m1: "merge_events (asc ''t1'') store0 (harvest_from_html doc_table) s_yamanashi_ken (PStr src0) = Inr b1"
    by blast
  have g: "extract_generic_jp (s_oyama @ s_sen @ s_tsukodome) src0 s_yamanashi_ken =
             [[(''pref'', PStr s_yamanashi_ken), (''name'', PStr (s_oyama @ s_rindo)),
               (''norm_name'', PStr s_oyama), (''status'', PStr (asc ''closed'')), (''reason'', PNone),
               (''from'', PNone), (''to'', PNone),
               (''snippet'', PStr (s_oyama @ s_sen @ [0x20] @ s_tsukodome)),
               (''source_url'', PStr src0)]]"
    by (simp add: extract_generic_jp_def generic_event_def generic_code_def RX_GENERIC_def
          is_gen_name_char_def in_range_def re_finditer_def rep_counts_def match_group_def str_of_def
          s_katagawa_kogo_tsuko_def s_ichibu_tsuko_def s_ichibu_def s_oyama_def norm_ev lits)
  have "\<exists>b. merge_events (asc ''t1'') store0 (extract_generic_jp (s_oyama @ s_sen @ s_tsukodome) src0 s_yamanashi_ken)
              s_yamanashi_ken (PStr src0) = Inr b"
    unfolding g by (simp add: merge_ev canon_src0 id_ev ex_ev lits)
  then obtain b2 where
    m2: "merge_events (asc ''t1'') store0 (extract_generic_jp (s_oyama @ s_sen @ s_tsukodome) src0 s_yamanashi_ken)
              s_yamanashi_ken (PStr src0) = Inr b2"
    by blast
  note t1 = store_status_written_by_extractors
         [of "asc ''t1''" store0 doc_table s_yamanashi_ken "PStr src0" b1]
  note t2 = store_status_written_by_extractors
         [of "asc ''t1''" store0 _ s_yamanashi_ken "PStr src0" b2 "s_oyama @ s_sen @ s_tsukodome" src0 s_yamanashi_ken]
  from t1 m1 have r1: "(\<forall>e\<in>set (events b1). e \<in> set (events store0) \<or> dget e ''status'' \<in> JP_LABELS)
        \<and> (\<forall>ev\<in>set (harvest_from_html doc_table).
              \<exists>eid. event_id_of s_yamanashi_ken (PStr src0) ev = Inr (Some eid)
                \<and> (\<exists>e\<in>set (events b1). dget e ''id'' = PStr eid \<and> dget e ''status'' \<in> JP_LABELS
                      \<and> (\<exists>ev'\<in>set (harvest_from_html doc_table).
                            event_id_of s_yamanashi_ken (PStr src0) ev' = Inr (Some eid)
                            \<and> dget e ''status'' = dget ev' ''status'')))"
    by blast
  from t2 m2 have r2: "(\<forall>e\<in>set (events b2). e \<in> set (events store0) \<or> dget e ''status'' \<in> EN_CODES)
        \<and> (\<forall>ev\<in>set (extract_generic_jp (s_oyama @ s_sen @ s_tsukodome) src0 s_yamanashi_ken).
              \<exists>eid. event_id_of s_yamanashi_ken (PStr src0) ev = Inr (Some eid)
                \<and> (\<exists>e\<in>set (events b2). dget e ''id'' = PStr eid \<and> dget e ''status'' \<in> EN_CODES
                      \<and> (\<exists>ev'\<in>set (extract_generic_jp (s_oyama @ s_sen @ s_tsukodome) src0 s_yamanashi_ken).
                            event_id_of s_yamanashi_ken (PStr src0) ev' = Inr (Some eid)
                            \<and> dget e ''status'' = dget ev' ''status'')))"
    by blast
  show ?thesis using m1 r1 m2 r2 by blast
qed

text \<open>
  The page with the table, merged into the empty store: the one record of the store has the
  closure label as its status, which is none of the three codes.
\<close>

theorem store_holds_japanese_label:
  "(case merge_events (asc ''t1'') store0 (harvest_from_html doc_table) s_yamanashi_ken (PStr src0) of
      Inl e \<Rightarrow> False
    | Inr b \<Rightarrow> map (\<lambda>e. dget e ''status'') (events b) = [PStr s_tsukodome])
   \<and> PStr s_tsukodome \<notin> EN_CODES"
  by (simp add: harvest_doc_table merge_ev canon_src0 id_ev ex_ev lits EN_CODES_def)

section \<open>The three tiers of the HTML extractor\<close>

text \<open>
  C4. \<open>harvest_from_html\<close> runs its three loops one after the other on every document and
  appends the events of each to one list. On the example page the table tier yields the
  event of Oyama, and the result still holds the event that the paragraph tier and the
  event that the whole-document tier read from the paragraph about Komorigawa.
\<close>

theorem harvest_runs_every_tier:
  "map (\<lambda>e. dget e ''norm_name'') (tier_tables doc_mixed) = [PStr s_oyama]
   \<and> map (\<lambda>e. dget e ''norm_name'') (tier_items doc_mixed) = [PStr s_komorigawa]
   \<and> map (\<lambda>e. dget e ''norm_name'') (tier_body doc_mixed) = [PStr s_komorigawa]
   \<and> map (\<lambda>e. dget e ''norm_name'') (harvest_from_html doc_mixed)
       = [PStr s_oyama, PStr s_komorigawa, PStr s_komorigawa]"
  by (simp add: harvest_from_html_def tier_tables_def tier_items_def tier_body_def doc_mixed_def
        tier_tables_ex line_events_ex_para body_cells_ex dget_def)

section \<open>A page that was not modified\<close>




section \<open>A persisted document that cannot be read\<close>

text \<open>
  C6. \<open>load_json\<close> answers its default for a document that cannot be read, and \<open>run\<close> goes
  on with it. A run whose event store is unreadable is the run on an empty store with the
  time of the run; a run whose fingerprint state is unreadable is the run on the empty
  state; a run whose registry is unreadable has no targets and returns without saving
  anything. A run that has targets and returns saves the fingerprint state. When the state
  could not be read, every fingerprint of the saved state was written by this run (its
  \<open>checked_at\<close> is the time of the run); when the event store could not be read, every
  record of an event store that the run saves was written by this run (its \<open>updated_at\<close>
  is the time of the run): what the unreadable document held is replaced.
\<close>

theorem run_continues_with_defaults:
  "run w dry_run full limit (d\<lparr>out_file := Unreadable\<rparr>)
     = run w dry_run full limit (d\<lparr>out_file := Content \<lparr>updated = PStr (w_now w), events = []\<rparr>\<rparr>)
   \<and> run w dry_run full limit (d\<lparr>state_file := Unreadable\<rparr>)
     = run w dry_run full limit (d\<lparr>state_file := Content []\<rparr>)
   \<and> run w dry_run full limit (d\<lparr>reg_file := Unreadable\<rparr>) = Inr \<lparr>saved_out = None, saved_state = None\<rparr>
   \<and> (run w dry_run full limit d = Inr s \<longrightarrow>
        (build_targets (load_json (reg_file d) []) limit \<noteq> [] \<longrightarrow> saved_state s \<noteq> None)
        \<and> (state_file d = Unreadable \<longrightarrow>
             (\<forall>st. saved_state s = Some st \<longrightarrow> (\<forall>(u, fp)\<in>set st. fp_checked_at fp = Some (w_now w))))
        \<and> (out_file d = Unreadable \<longrightarrow>
             (\<forall>out. saved_out s = Some out \<longrightarrow>
                (\<forall>e\<in>set (events out). dget e ''updated_at'' = PStr (w_now w)))))"
proof -
  have e: "run w dry_run full limit (d\<lparr>out_file := Unreadable\<rparr>)
     = run w dry_run full limit (d\<lparr>out_file := Content \<lparr>updated = PStr (w_now w), events = []\<rparr>\<rparr>)
   \<and> run w dry_run full limit (d\<lparr>state_file := Unreadable\<rparr>)
     = run w dry_run full limit (d\<lparr>state_file := Content []\<rparr>)
   \<and> run w dry_run full limit (d\<lparr>reg_file := Unreadable\<rparr>) = Inr \<lparr>saved_out = None, saved_state = None\<rparr>"
    by (simp add: run_def load_json_def build_targets_def split: option.splits)
  have r: "run w dry_run full limit d = Inr s \<longrightarrow>
        (build_targets (load_json (reg_file d) []) limit \<noteq> [] \<longrightarrow> saved_state s \<noteq> None)
        \<and> (state_file d = Unreadable \<longrightarrow>
             (\<forall>st. saved_state s = Some st \<longrightarrow> (\<forall>(u, fp)\<in>set st. fp_checked_at fp = Some (w_now w))))
        \<and> (out_file d = Unreadable \<longrightarrow>
             (\<forall>out. saved_out s = Some out \<longrightarrow>
                (\<forall>e\<in>set (events out). dget e ''updated_at'' = PStr (w_now w))))"
  proof
    assume a: "run w dry_run full limit d = Inr s"
    let ?c0 = "\<lparr>c_state = load_json (state_file d) [],
                c_out = load_json (out_file d) \<lparr>updated = PStr (w_now w), events = []\<rparr>, c_changes = 0\<rparr>"
    let ?ts = "build_targets (load_json (reg_file d) []) limit"
    have p1: "?ts \<noteq> [] \<longrightarrow> saved_state s \<noteq> None"
      using a by (auto simp: run_def Let_def split: if_splits sum.splits)
    have p2: "state_file d = Unreadable \<longrightarrow>
             (\<forall>st. saved_state s = Some st \<longrightarrow> (\<forall>(u, fp)\<in>set st. fp_checked_at fp = Some (w_now w)))"
    proof (intro impI allI)
      fix st
      assume u: "state_file d = Unreadable" and st: "saved_state s = Some st"
      from a st obtain c where c: "crawl_targets w full dry_run ?ts ?c0 = Inr c" and s: "st = c_state c"
        by (auto simp: run_def Let_def split: if_splits sum.splits)
      have v: "\<forall>t url depth seen c c' more_links.
          (\<forall>(u, fp)\<in>set (c_state c). fp_checked_at fp = Some (w_now w)) \<longrightarrow>
          visit w full dry_run t url depth seen c = Inr (c', more_links) \<longrightarrow>
          (\<forall>(u, fp)\<in>set (c_state c'). fp_checked_at fp = Some (w_now w))"
        using visit_checked_at by blast
      have i: "\<forall>(u, fp)\<in>set (c_state ?c0). fp_checked_at fp = Some (w_now w)"
        using u by (simp add: load_json_def)
      from v c i have "\<forall>(u, fp)\<in>set (c_state c). fp_checked_at fp = Some (w_now w)"
        by (rule crawl_targets_invariant
              [where P = "\<lambda>c. \<forall>(u, fp)\<in>set (c_state c). fp_checked_at fp = Some (w_now w)"])
      then show "\<forall>(u, fp)\<in>set st. fp_checked_at fp = Some (w_now w)" using s by simp
    qed
    have p3: "out_file d = Unreadable \<longrightarrow>
             (\<forall>out. saved_out s = Some out \<longrightarrow>
                (\<forall>e\<in>set (events out). dget e ''updated_at'' = PStr (w_now w)))"
    proof (intro impI allI)
      fix out
      assume u: "out_file d = Unreadable" and o: "saved_out s = Some out"
      from a o obtain c where c: "crawl_targets w full dry_run ?ts ?c0 = Inr c" and s: "out = c_out c"
        by (auto simp: run_def Let_def split: if_splits sum.splits)
      have v: "\<forall>t url depth seen c c' more_links.
          (\<forall>e\<in>set (events (c_out c)). dget e ''updated_at'' = PStr (w_now w)) \<longrightarrow>
          visit w full dry_run t url depth seen c = Inr (c', more_links) \<longrightarrow>
          (\<forall>e\<in>set (events (c_out c')). dget e ''updated_at'' = PStr (w_now w))"
        using visit_updated_at by blast
      have i: "\<forall>e\<in>set (events (c_out ?c0)). dget e ''updated_at'' = PStr (w_now w)"
        using u by (simp add: load_json_def)
      from v c i have "\<forall>e\<in>set (events (c_out c)). dget e ''updated_at'' = PStr (w_now w)"
        by (rule crawl_targets_invariant
              [where P = "\<lambda>c. \<forall>e\<in>set (events (c_out c)). dget e ''updated_at'' = PStr (w_now w)"])
      then show "\<forall>e\<in>set (events out). dget e ''updated_at'' = PStr (w_now w)" using s by simp
    qed
    show "(?ts \<noteq> [] \<longrightarrow> saved_state s \<noteq> None)
        \<and> (state_file d = Unreadable \<longrightarrow>
             (\<forall>st. saved_state s = Some st \<longrightarrow> (\<forall>(u, fp)\<in>set st. fp_checked_at fp = Some (w_now w))))
        \<and> (out_file d = Unreadable \<longrightarrow>
             (\<forall>out. saved_out s = Some out \<longrightarrow>
                (\<forall>e\<in>set (events out). dget e ''updated_at'' = PStr (w_now w))))"
      using p1 p2 p3 by blast
  qed
  show ?thesis using e r by blast
qed

text \<open>
  The run on the page, with an unreadable event store and an unreadable fingerprint state.
\<close>

theorem run_continues_with_defaults_witness:
  "\<exists>s. run world0 False False None disk_lost = Inr s
      \<and> build_targets (load_json (reg_file disk_lost) []) None \<noteq> []
      \<and> state_file disk_lost = Unreadable \<and> out_file disk_lost = Unreadable
      \<and> saved_state s \<noteq> None \<and> saved_out s \<noteq> None
      \<and> (\<forall>st. saved_state s = Some st \<longrightarrow> (\<forall>(u, fp)\<in>set st. fp_checked_at fp = Some (w_now world0)))
      \<and> (\<forall>out. saved_out s = Some out \<longrightarrow>
            (\<forall>e\<in>set (events out). dget e ''updated_at'' = PStr (w_now world0)))"
proof -
  obtain s where r: "run world0 False False None disk_lost = Inr s" and o: "saved_out s \<noteq> None"
    using run_disk_lost by simp
  have g: "build_targets (load_json (reg_file disk_lost) []) None \<noteq> []"
    by (simp add: disk_lost_def load_json_def build_targets_def agency_targets_def agency0_def)
  have u: "state_file disk_lost = Unreadable \<and> out_file disk_lost = Unreadable"
    by (simp add: disk_lost_def)
  note t = run_continues_with_defaults [of world0 False False None disk_lost s]
  have c: "saved_state s \<noteq> None
      \<and> (\<forall>st. saved_state s = Some st \<longrightarrow> (\<forall>(u, fp)\<in>set st. fp_checked_at fp = Some (w_now world0)))
      \<and> (\<forall>out. saved_out s = Some out \<longrightarrow>
            (\<forall>e\<in>set (events out). dget e ''updated_at'' = PStr (w_now world0)))"
    using t r g u by blast
  show ?thesis using r g u o c by blast
qed

text \<open>
  C6 (as the spec states it) fails on that run: it does not raise, and it saves an event
  store that holds the event of the page only, and a state with the fingerprint of the
  page.
\<close>

theorem run_overwrites_unreadable_store:
  "(case run world0 False False None disk_lost of
      Inl e \<Rightarrow> False
    | Inr s \<Rightarrow>
        (case saved_out s of
           None \<Rightarrow> False
         | Some out \<Rightarrow> map (\<lambda>e. dget e ''norm_name'') (events out) = [PStr s_oyama])
        \<and> (case saved_state s of None \<Rightarrow> False | Some st \<Rightarrow> map fst st = [src0]))"
  unfolding run_disk_lost by (simp add: payload_def dget_def harvest_doc_table ev_norm_def py_or_def s_oyama_def)

end
